(* ===== verification/Prelude.thy ===== *)
theory Prelude
  imports Main "HOL-Library.Word" "HOL-Library.Sublist" "HOL-Library.Code_Target_Numeral"
begin

text \<open>
  Shared vocabulary of the development: machine integers, Rust's \<open>Result\<close> and panics, durations,
  and the operations on byte strings of Rust's \<open>str\<close> that the program uses
  (\<open>split_once\<close>, \<open>rsplit_once\<close>, \<open>split\<close>, \<open>splitn\<close>, \<open>trim\<close>, \<open>parse::<uN>\<close>, decimal printing).
  A Rust \<open>str\<close> is its list of UTF-8 bytes, a \<^typ>\<open>string\<close> (Isabelle characters are bytes).
\<close>

named_theorems str_simps \<open>characterisations of the string operations\<close>
named_theorems result_simps \<open>inversion of the result and panic combinators\<close>

section \<open>Machine integers\<close>

type_synonym u8 = "8 word"
type_synonym u16 = "16 word"
type_synonym u32 = "32 word"
type_synonym u64 = "64 word"
type_synonym u128 = "128 word"
type_synonym bytes = "u8 list"

lemma unat_of_nat_eq_iff: "n < 2 ^ LENGTH('a::len) \<Longrightarrow> unat (of_nat n :: 'a word) = n"
  by (simp add: unat_of_nat take_bit_nat_eq_self)

lemma of_nat_word_inject: 
  "m < 2 ^ LENGTH('a::len) \<Longrightarrow> n < 2 ^ LENGTH('a) \<Longrightarrow> (of_nat m :: 'a word) = of_nat n \<longleftrightarrow> m = n"
  by (metis unat_of_nat_eq_iff)

section \<open>Results and panics\<close>

text \<open>\<open>Result<T, E>\<close>; a computation that may panic returns a \<open>run\<close>.\<close>

datatype ('a, 'e) result = Ok 'a | Err 'e

datatype 'a run = Returns 'a | Panics string

text \<open>The result of polling a future: \<open>std::task::Poll\<close>.\<close>

datatype 'a poll = Pending | Ready 'a

fun map_ok :: "('a \<Rightarrow> 'b) \<Rightarrow> ('a, 'e) result \<Rightarrow> ('b, 'e) result" where
  "map_ok f (Ok x) = Ok (f x)"
| "map_ok f (Err e) = Err e"

fun ok :: "('a, 'e) result \<Rightarrow> 'a option" where
  "ok (Ok x) = Some x"
| "ok (Err e) = None"

fun ok_or :: "'e \<Rightarrow> 'a option \<Rightarrow> ('a, 'e) result" where
  "ok_or e None = Err e"
| "ok_or e (Some x) = Ok x"

fun and_then :: "('a, 'e) result \<Rightarrow> ('a \<Rightarrow> ('b, 'e) result) \<Rightarrow> ('b, 'e) result" where
  "and_then (Ok x) f = f x"
| "and_then (Err e) f = Err e"

fun run_then :: "'a run \<Rightarrow> ('a \<Rightarrow> 'b run) \<Rightarrow> 'b run" where
  "run_then (Returns x) f = f x"
| "run_then (Panics m) f = Panics m"

fun unwrap_or :: "'a \<Rightarrow> 'a option \<Rightarrow> 'a" where
  "unwrap_or d None = d"
| "unwrap_or d (Some x) = x"

fun or_else :: "'a option \<Rightarrow> 'a option \<Rightarrow> 'a option" where
  "or_else (Some x) y = Some x"
| "or_else None y = y"

fun expect :: "string \<Rightarrow> 'a option \<Rightarrow> 'a run" where
  "expect m (Some x) = Returns x"
| "expect m None = Panics m"

text \<open>\<open>iter.collect::<Result<Vec<_>, _>>()\<close>: the first error wins.\<close>

fun collect :: "('a, 'e) result list \<Rightarrow> ('a list, 'e) result" where
  "collect [] = Ok []"
| "collect (Err e # rs) = Err e"
| "collect (Ok x # rs) = (case collect rs of Ok xs \<Rightarrow> Ok (x # xs) | Err e \<Rightarrow> Err e)"

lemma and_then_Ok [result_simps]: "and_then r f = Ok y \<longleftrightarrow> (\<exists>x. r = Ok x \<and> f x = Ok y)"
  by (cases r) auto

lemma ok_Some [result_simps]: "ok r = Some x \<longleftrightarrow> r = Ok x"
  by (cases r) auto

lemma ok_None [result_simps]: "ok r = None \<longleftrightarrow> (\<exists>e. r = Err e)"
  by (cases r) auto

lemma ok_or_Ok [result_simps]: "ok_or e x = Ok y \<longleftrightarrow> x = Some y"
  by (cases x) auto

lemma map_ok_Ok [result_simps]: "map_ok f r = Ok y \<longleftrightarrow> (\<exists>x. r = Ok x \<and> y = f x)"
  by (cases r) auto

lemma run_then_Returns [result_simps]: "run_then r f = Returns y \<longleftrightarrow> (\<exists>x. r = Returns x \<and> f x = Returns y)"
  by (cases r) auto

lemma run_then_elim:
  assumes "run_then r f = Returns y"
  obtains x where "r = Returns x" "f x = Returns y"
  using assms by (cases r) auto

lemma run_then_Panics_elim:
  assumes "run_then r f = Panics m"
  obtains "r = Panics m" | x where "r = Returns x" "f x = Panics m"
  using assms by (cases r) auto

lemma run_then_Panics [result_simps]:
  "run_then r f = Panics m \<longleftrightarrow> r = Panics m \<or> (\<exists>x. r = Returns x \<and> f x = Panics m)"
  by (cases r) auto

lemma map_run_Returns [result_simps]: "map_run f r = Returns y \<longleftrightarrow> (\<exists>x. r = Returns x \<and> f x = y)"
  by (cases r) auto

lemma expect_Returns [result_simps]: "expect m x = Returns y \<longleftrightarrow> x = Some y"
  by (cases x) auto

lemma or_else_eq [result_simps]: "or_else x y = (case x of None \<Rightarrow> y | Some z \<Rightarrow> Some z)"
  by (cases x) auto

lemma unwrap_or_neq: "unwrap_or d x \<noteq> d \<Longrightarrow> x = Some (unwrap_or d x)"
  by (cases x) auto

lemma map_Ok_inject: "map Ok xs = (map Ok ys :: ('a, 'e) result list) \<longleftrightarrow> xs = ys"
  by (rule inj_map_eq_map) (simp add: inj_def)

lemma collect_Ok: "collect rs = Ok xs \<longleftrightarrow> rs = map Ok xs"
proof (induction rs arbitrary: xs rule: collect.induct)
  case (3 x rs)
  then show ?case by (cases xs; cases "collect rs") (auto simp: map_Ok_inject)
qed auto

lemma collect_map_Ok [simp]: "collect (map (\<lambda>x. Ok (f x)) xs) = Ok (map f xs)"
  by (simp add: collect_Ok comp_def)

lemma map_Ok_all: "map f xs = map Ok ys \<Longrightarrow> x \<in> set xs \<Longrightarrow> \<exists>y. f x = Ok y"
proof (induction xs arbitrary: ys)
  case (Cons z xs)
  then show ?case by (cases ys) auto
qed simp

lemma map_Ok_ex: "map f xs = map Ok ys \<Longrightarrow> (\<exists>y \<in> set ys. P y) \<longleftrightarrow> (\<exists>x \<in> set xs. \<exists>y. f x = Ok y \<and> P y)"
proof (induction xs arbitrary: ys)
  case (Cons x xs)
  then show ?case by (cases ys) auto
qed simp

section \<open>Durations\<close>

text \<open>A \<open>std::time::Duration\<close> is a number of nanoseconds.\<close>

type_synonym duration = nat

definition from_secs :: "nat \<Rightarrow> duration" where
  "from_secs s = s * 10 ^ 9"

definition from_millis :: "nat \<Rightarrow> duration" where
  "from_millis m = m * 10 ^ 6"

definition as_secs :: "duration \<Rightarrow> nat" where
  "as_secs d = d div 10 ^ 9"

lemma as_secs_from_secs [simp]: "as_secs (from_secs s) = s"
  by (simp add: as_secs_def from_secs_def)

lemma from_secs_mono [simp]: "from_secs a \<le> from_secs b \<longleftrightarrow> a \<le> b"
  by (simp add: from_secs_def)

section \<open>Strings\<close>

definition starts_with :: "string \<Rightarrow> string \<Rightarrow> bool" where
  "starts_with p s = prefix p s"

definition ends_with :: "string \<Rightarrow> string \<Rightarrow> bool" where
  "ends_with p s = suffix p s"

text \<open>\<open>s.contains(p)\<close>.\<close>

fun contains_str :: "string \<Rightarrow> string \<Rightarrow> bool" where
  "contains_str p [] = (p = [])"
| "contains_str p (c # s) = (starts_with p (c # s) \<or> contains_str p s)"

lemma contains_str_iff [str_simps]: "contains_str p s \<longleftrightarrow> (\<exists>a b. s = a @ p @ b)"
proof (induction s)
  case (Cons c s)
  have "(\<exists>a b. c # s = a @ p @ b) \<longleftrightarrow> prefix p (c # s) \<or> (\<exists>a b. s = a @ p @ b)"
    by (auto simp: prefix_def Cons_eq_append_conv)
  with Cons show ?case by (simp add: starts_with_def)
qed auto

text \<open>\<open>s.split_once(c)\<close> for a predicate on characters (a \<open>char\<close> or \<open>[char; N]\<close> pattern).\<close>

fun split_once_by :: "(char \<Rightarrow> bool) \<Rightarrow> string \<Rightarrow> (string \<times> string) option" where
  "split_once_by P [] = None"
| "split_once_by P (c # s) =
     (if P c then Some ([], s) else map_option (\<lambda>(l, r). (c # l, r)) (split_once_by P s))"

abbreviation split_once :: "char \<Rightarrow> string \<Rightarrow> (string \<times> string) option" where
  "split_once c \<equiv> split_once_by (\<lambda>x. x = c)"

text \<open>\<open>s.split_once(p)\<close> for a string pattern: the first occurrence.\<close>

fun split_once_str :: "string \<Rightarrow> string \<Rightarrow> (string \<times> string) option" where
  "split_once_str p [] = (if p = [] then Some ([], []) else None)"
| "split_once_str p (c # s) =
     (if starts_with p (c # s) then Some ([], drop (length p) (c # s))
      else map_option (\<lambda>(l, r). (c # l, r)) (split_once_str p s))"

text \<open>\<open>s.rsplit_once(c)\<close>: the last occurrence.\<close>

definition rsplit_once :: "char \<Rightarrow> string \<Rightarrow> (string \<times> string) option" where
  "rsplit_once c s = map_option (\<lambda>(r, l). (rev l, rev r)) (split_once c (rev s))"

text \<open>\<open>s.split(c)\<close>.\<close>

fun split :: "char \<Rightarrow> string \<Rightarrow> string list" where
  "split c [] = [[]]"
| "split c (x # s) =
     (if x = c then [] # split c s
      else (case split c s of [] \<Rightarrow> [[x]] | p # ps \<Rightarrow> (x # p) # ps))"

text \<open>\<open>s.splitn(n, c)\<close>: at most \<open>n\<close> pieces, the last one holding the rest.\<close>

fun splitn :: "nat \<Rightarrow> char \<Rightarrow> string \<Rightarrow> string list" where
  "splitn 0 c s = []"
| "splitn (Suc 0) c s = [s]"
| "splitn (Suc (Suc n)) c s =
     (case split_once c s of None \<Rightarrow> [s] | Some (l, r) \<Rightarrow> l # splitn (Suc n) c r)"

lemma split_once_by_Some [str_simps]:
  "split_once_by P s = Some (l, r) \<longleftrightarrow> (\<exists>c. s = l @ c # r \<and> P c \<and> (\<forall>x \<in> set l. \<not> P x))"
proof (induction s arbitrary: l)
  case (Cons c s)
  then show ?case by (cases l) auto
qed simp

lemma split_once_by_None [str_simps]: "split_once_by P s = None \<longleftrightarrow> (\<forall>x \<in> set s. \<not> P x)"
  by (induction s) auto

lemma split_once_append:
  "(\<forall>x \<in> set l. \<not> P x) \<Longrightarrow> P c \<Longrightarrow> split_once_by P (l @ c # r) = Some (l, r)"
  by (auto simp: split_once_by_Some)

lemma split_once_str_Some_append: "split_once_str p s = Some (l, r) \<Longrightarrow> s = l @ p @ r"
proof (induction s arbitrary: l)
  case (Cons c s)
  then show ?case
    by (auto simp: starts_with_def split: if_splits elim!: prefixE)
qed (auto split: if_splits)

lemma prefix_hd_in: "prefix p s \<Longrightarrow> p \<noteq> [] \<Longrightarrow> hd p \<in> set s"
  by (auto simp: prefix_def)

lemma split_once_str_None: "p \<noteq> [] \<Longrightarrow> hd p \<notin> set s \<Longrightarrow> split_once_str p s = None"
  by (induction s) (auto simp: starts_with_def dest: prefix_hd_in)

lemma split_once_str_append:
  "p \<noteq> [] \<Longrightarrow> hd p \<notin> set l \<Longrightarrow> split_once_str p (l @ p @ r) = Some (l, r)"
proof (induction l)
  case Nil
  then show ?case by (cases p) (auto simp: starts_with_def)
next
  case (Cons c l)
  then show ?case by (cases p) (auto simp: starts_with_def)
qed

lemma rsplit_once_Some [str_simps]:
  "rsplit_once c s = Some (l, r) \<longleftrightarrow> s = l @ c # r \<and> c \<notin> set r"
proof -
  have "rsplit_once c s = Some (l, r) \<longleftrightarrow> split_once c (rev s) = Some (rev r, rev l)"
    by (auto simp: rsplit_once_def)
  also have "\<dots> \<longleftrightarrow> rev s = rev r @ c # rev l \<and> c \<notin> set r"
    by (auto simp: split_once_by_Some)
  also have "rev s = rev r @ c # rev l \<longleftrightarrow> s = l @ c # r"
    by (metis append_Cons append_eq_append_conv2 append_self_conv2 rev.simps(2) rev_append rev_rev_ident append.assoc)
  finally show ?thesis .
qed

lemma split_nonempty [simp]: "split c s \<noteq> []"
  by (induction s) (auto split: list.splits)

lemma split_no_sep: "c \<notin> set s \<Longrightarrow> split c s = [s]"
  by (induction s) auto

lemma split_append_sep: "c \<notin> set l \<Longrightarrow> split c (l @ c # r) = l # split c r"
  by (induction l) auto

lemma split_two_iff: "split c s = [l, r] \<longleftrightarrow> s = l @ c # r \<and> c \<notin> set l \<and> c \<notin> set r"
proof
  assume a: "split c s = [l, r]"
  show "s = l @ c # r \<and> c \<notin> set l \<and> c \<notin> set r"
  proof (cases "split_once c s")
    case None
    then show ?thesis using a by (auto simp: split_once_by_None split_no_sep)
  next
    case (Some lr)
    then obtain l' r' where s: "s = l' @ c # r'" "c \<notin> set l'"
      by (cases lr) (auto simp: split_once_by_Some)
    then have "l' = l" "split c r' = [r]" using a by (auto simp: split_append_sep)
    moreover have "c \<notin> set r' \<and> r' = r"
    proof (cases "split_once c r'")
      case None
      then show ?thesis using \<open>split c r' = [r]\<close> by (auto simp: split_once_by_None split_no_sep)
    next
      case (Some lr')
      then show ?thesis using \<open>split c r' = [r]\<close>
        by (cases lr') (auto simp: split_once_by_Some split_append_sep)
    qed
    ultimately show ?thesis using s by auto
  qed
qed (auto simp: split_append_sep split_no_sep)

subsection \<open>Trimming\<close>

text \<open>
  \<open>str::trim\<close> removes leading and trailing characters with the Unicode property White\_Space.
  \<open>ws_len\<close> is the length in bytes of a white-space character at the head of a string, 0 if there is none.
\<close>

definition byte :: "nat \<Rightarrow> char" where
  "byte n = char_of n"

definition ws_chars :: "string list" where
  "ws_chars =
     [[byte 9], [byte 10], [byte 11], [byte 12], [byte 13], [byte 32],
      [byte 194, byte 133], [byte 194, byte 160], [byte 225, byte 154, byte 128]]
     @ map (\<lambda>n. [byte 226, byte 128, byte n]) [128..<139]
     @ [[byte 226, byte 128, byte 168], [byte 226, byte 128, byte 169], [byte 226, byte 128, byte 175],
        [byte 226, byte 129, byte 159], [byte 227, byte 128, byte 128]]"

definition ws_len :: "string \<Rightarrow> nat" where
  "ws_len s = (case find (\<lambda>w. prefix w s) ws_chars of None \<Rightarrow> 0 | Some w \<Rightarrow> length w)"

definition ws_len_end :: "string \<Rightarrow> nat" where
  "ws_len_end s = (case find (\<lambda>w. suffix w s) ws_chars of None \<Rightarrow> 0 | Some w \<Rightarrow> length w)"

lemma find_prefix_length: "find (\<lambda>w. prefix w s) ws = Some w \<Longrightarrow> length w \<le> length s"
  by (auto simp: find_Some_iff prefix_length_le)

lemma find_suffix_length: "find (\<lambda>w. suffix w s) ws = Some w \<Longrightarrow> length w \<le> length s"
  by (auto simp: find_Some_iff suffix_length_le)

lemma ws_len_le: "ws_len s \<le> length s"
  by (auto simp: ws_len_def find_prefix_length split: option.splits)

lemma ws_len_end_le: "ws_len_end s \<le> length s"
  by (auto simp: ws_len_end_def find_suffix_length split: option.splits)

function trim_start :: "string \<Rightarrow> string" where
  "trim_start s = (if ws_len s = 0 then s else trim_start (drop (ws_len s) s))"
  by pat_completeness auto
termination
proof (relation "measure length")
  fix s assume "ws_len s \<noteq> 0"
  then show "(drop (ws_len s) s, s) \<in> measure length"
    using ws_len_le [of s] by auto
qed simp

function trim_end :: "string \<Rightarrow> string" where
  "trim_end s = (if ws_len_end s = 0 then s else trim_end (take (length s - ws_len_end s) s))"
  by pat_completeness auto
termination
proof (relation "measure length")
  fix s assume "ws_len_end s \<noteq> 0"
  then show "(take (length s - ws_len_end s) s, s) \<in> measure length"
    using ws_len_end_le [of s] by auto
qed simp

declare trim_start.simps [simp del] trim_end.simps [simp del]

definition trim :: "string \<Rightarrow> string" where
  "trim s = trim_end (trim_start s)"

lemma trim_start_id: "ws_len s = 0 \<Longrightarrow> trim_start s = s"
  by (simp add: trim_start.simps)

lemma trim_end_id: "ws_len_end s = 0 \<Longrightarrow> trim_end s = s"
  by (simp add: trim_end.simps)

lemma ws_len_trim_start: "ws_len (trim_start s) = 0"
  by (induction s rule: trim_start.induct) (metis trim_start.simps)

lemma ws_len_end_trim_end: "ws_len_end (trim_end s) = 0"
  by (induction s rule: trim_end.induct) (metis trim_end.simps)

text \<open>Text between printable ASCII characters other than the space is not trimmed.\<close>

definition graphic :: "char \<Rightarrow> bool" where
  "graphic c = (let n = (of_char c :: nat) in 33 \<le> n \<and> n < 127)"

lemma graphic_not_ws: "graphic c \<Longrightarrow> w \<in> set ws_chars \<Longrightarrow> w \<noteq> [] \<and> hd w \<noteq> c \<and> last w \<noteq> c"
  by (auto simp: ws_chars_def byte_def graphic_def Let_def of_char_of)

lemma ws_len_graphic: "graphic c \<Longrightarrow> ws_len (c # s) = 0"
proof -
  assume c: "graphic c"
  have "\<not> prefix w (c # s)" if "w \<in> set ws_chars" for w
    using graphic_not_ws [OF c that] by (cases w) auto
  then show ?thesis by (auto simp: ws_len_def find_Some_iff split: option.splits dest: nth_mem)
qed

lemma ws_len_end_graphic: "graphic c \<Longrightarrow> ws_len_end (s @ [c]) = 0"
proof -
  assume c: "graphic c"
  have "\<not> suffix w (s @ [c])" if "w \<in> set ws_chars" for w
    using graphic_not_ws [OF c that] by (cases w rule: rev_cases) auto
  then show ?thesis by (auto simp: ws_len_end_def find_Some_iff split: option.splits dest: nth_mem)
qed

lemma trim_graphic:
  assumes "s \<noteq> []" "graphic (hd s)" "graphic (last s)"
  shows "trim s = s"
proof -
  have "ws_len s = 0" using assms(1,2) ws_len_graphic [of "hd s" "tl s"] by simp
  moreover have "ws_len_end s = 0" using assms(1,3) ws_len_end_graphic [of "last s" "butlast s"] by simp
  ultimately show ?thesis by (simp add: trim_def trim_start_id trim_end_id)
qed

text \<open>\<open>s.trim_end_matches(c)\<close> and \<open>s.trim_start_matches(c)\<close>.\<close>

definition trim_start_matches :: "char \<Rightarrow> string \<Rightarrow> string" where
  "trim_start_matches c s = dropWhile (\<lambda>x. x = c) s"

definition trim_end_matches :: "char \<Rightarrow> string \<Rightarrow> string" where
  "trim_end_matches c s = rev (dropWhile (\<lambda>x. x = c) (rev s))"

subsection \<open>Numbers\<close>

text \<open>
  \<open>parse::<uN>()\<close> of the standard library: an optional \<open>+\<close>, then at least one decimal digit and
  nothing else, the value below the bound.
\<close>

definition digit :: "char \<Rightarrow> nat option" where
  "digit c = (let n = of_char c in if 48 \<le> n \<and> n \<le> 57 then Some (n - 48) else None)"

fun digits_value :: "nat \<Rightarrow> string \<Rightarrow> nat option" where
  "digits_value acc [] = Some acc"
| "digits_value acc (c # s) = (case digit c of None \<Rightarrow> None | Some d \<Rightarrow> digits_value (10 * acc + d) s)"

definition strip_plus :: "string \<Rightarrow> string" where
  "strip_plus s = (case s of c # r \<Rightarrow> if c = CHR ''+'' then r else s | [] \<Rightarrow> [])"

definition parse_uint :: "nat \<Rightarrow> string \<Rightarrow> nat option" where
  "parse_uint bound s =
     (if strip_plus s = [] then None
      else (case digits_value 0 (strip_plus s) of
              None \<Rightarrow> None
            | Some n \<Rightarrow> if n < bound then Some n else None))"

definition parse_u16 :: "string \<Rightarrow> u16 option" where
  "parse_u16 s = map_option of_nat (parse_uint (2 ^ 16) s)"

definition parse_u64 :: "string \<Rightarrow> u64 option" where
  "parse_u64 s = map_option of_nat (parse_uint (2 ^ 64) s)"

text \<open>Decimal printing (\<open>Display\<close> for unsigned integers).\<close>

definition digit_char :: "nat \<Rightarrow> char" where
  "digit_char d = char_of (48 + d)"

fun show_nat :: "nat \<Rightarrow> string" where
  "show_nat n = (if n < 10 then [digit_char n] else show_nat (n div 10) @ [digit_char (n mod 10)])"

declare show_nat.simps [simp del]

definition show_u16 :: "u16 \<Rightarrow> string" where
  "show_u16 w = show_nat (unat w)"

lemma of_char_digit_char: "d < 10 \<Longrightarrow> of_char (digit_char d) = 48 + d"
  by (simp add: digit_char_def of_char_of)

lemma digit_digit_char [simp]: "d < 10 \<Longrightarrow> digit (digit_char d) = Some d"
  by (simp add: digit_def of_char_digit_char)

lemma digits_value_append:
  "digits_value a (s @ t) = (case digits_value a s of None \<Rightarrow> None | Some b \<Rightarrow> digits_value b t)"
  by (induction a s rule: digits_value.induct) (auto split: option.splits)

lemma digits_value_show_nat: "digits_value 0 (show_nat n) = Some n"
proof (induction n rule: show_nat.induct)
  case (1 n)
  then show ?case
    by (subst show_nat.simps) (auto simp: digits_value_append)
qed

lemma show_nat_digits: "c \<in> set (show_nat n) \<Longrightarrow> \<exists>d < 10. c = digit_char d"
proof (induction n rule: show_nat.induct)
  case (1 n)
  have "n mod 10 < 10" by simp
  with 1 show ?case
    by (subst (asm) (2) show_nat.simps) (auto split: if_splits intro: exI [of _ "n mod 10"])
qed

lemma show_nat_nonempty [simp]: "show_nat n \<noteq> []"
  by (subst show_nat.simps) auto

lemma digit_char_neq: "d < 10 \<Longrightarrow> of_char c < (48::nat) \<or> 57 < (of_char c :: nat) \<Longrightarrow> digit_char d \<noteq> c"
  using of_char_digit_char [of d] by auto

lemma show_nat_no_char: "of_char c < (48::nat) \<or> 57 < (of_char c :: nat) \<Longrightarrow> c \<notin> set (show_nat n)"
  using show_nat_digits digit_char_neq by blast

lemma strip_plus_show_nat [simp]: "strip_plus (show_nat n) = show_nat n"
proof -
  have "CHR ''+'' \<notin> set (show_nat n)" by (rule show_nat_no_char) simp
  then show ?thesis by (auto simp: strip_plus_def split: list.splits)
qed

lemma parse_show_nat: "n < bound \<Longrightarrow> parse_uint bound (show_nat n) = Some n"
  by (simp add: parse_uint_def digits_value_show_nat)

lemma parse_uint_bound: "parse_uint b s = Some n \<Longrightarrow> n < b"
  by (auto simp: parse_uint_def split: if_splits option.splits)

lemma parse_show_u16 [simp]: "parse_u16 (show_u16 w) = Some w"
  using unsigned_less [of w, where ?'a = nat] by (simp add: parse_u16_def show_u16_def parse_show_nat)

lemma show_u16_no_char: "of_char c < (48::nat) \<or> 57 < (of_char c :: nat) \<Longrightarrow> c \<notin> set (show_u16 w)"
  by (simp add: show_u16_def show_nat_no_char)

end
