(* ===== verification/Std_Net.thy ===== *)
theory Std_Net
  imports Prelude
begin

text \<open>
  The part of \<open>std::net\<close> and \<open>std::str\<close> the program calls: IP and socket addresses, the address
  parser behind \<open>parse::<IpAddr>()\<close>, and the UTF-8 check behind \<open>to_str\<close> on paths.
  An IPv4 address is its 32-bit value and an IPv6 address its 128-bit value, most significant
  octet first.
\<close>

section \<open>Addresses\<close>

datatype ip_addr = V4 u32 | V6 u128

fun is_ipv4 :: "ip_addr \<Rightarrow> bool" where
  "is_ipv4 (V4 _) = True"
| "is_ipv4 (V6 _) = False"

abbreviation is_ipv6 :: "ip_addr \<Rightarrow> bool" where
  "is_ipv6 a \<equiv> \<not> is_ipv4 a"

text \<open>A V6 socket address carries a flow label and a scope id beside the address and the port.\<close>

datatype socket_addr =
    SocketAddrV4 u32 u16
  | SocketAddrV6 u128 u16 u32 u32

fun addr_ip :: "socket_addr \<Rightarrow> ip_addr" where
  "addr_ip (SocketAddrV4 a p) = V4 a"
| "addr_ip (SocketAddrV6 a p f s) = V6 a"

fun addr_port :: "socket_addr \<Rightarrow> u16" where
  "addr_port (SocketAddrV4 a p) = p"
| "addr_port (SocketAddrV6 a p f s) = p"

text \<open>\<open>SocketAddr::new(ip, port)\<close>.\<close>

fun socket_addr_new :: "ip_addr \<Rightarrow> u16 \<Rightarrow> socket_addr" where
  "socket_addr_new (V4 a) p = SocketAddrV4 a p"
| "socket_addr_new (V6 a) p = SocketAddrV6 a p 0 0"

lemma addr_ip_new [simp]: "addr_ip (socket_addr_new a p) = a"
  by (cases a) auto

lemma addr_port_new [simp]: "addr_port (socket_addr_new a p) = p"
  by (cases a) auto

section \<open>The address parser\<close>

text \<open>
  Every reader consumes a prefix of its input and returns the rest; \<open>None\<close> leaves the position
  where it was (\<open>Parser::read_atomically\<close>).
\<close>

definition hex_digit :: "char \<Rightarrow> nat option" where
  "hex_digit c =
     (let n = of_char c in
      if 48 \<le> n \<and> n \<le> 57 then Some (n - 48)
      else if 97 \<le> n \<and> n \<le> 102 then Some (n - 87)
      else if 65 \<le> n \<and> n \<le> 70 then Some (n - 55)
      else None)"

definition to_digit :: "nat \<Rightarrow> char \<Rightarrow> nat option" where
  "to_digit radix c = (case hex_digit c of Some d \<Rightarrow> if d < radix then Some d else None | None \<Rightarrow> None)"

text \<open>The loop of \<open>read_number\<close>: value, number of digits and rest; \<open>None\<close> on overflow or too many digits.\<close>

fun read_digits :: "nat \<Rightarrow> nat \<Rightarrow> nat \<Rightarrow> nat \<Rightarrow> nat \<Rightarrow> string \<Rightarrow> (nat \<times> nat \<times> string) option" where
  "read_digits radix bound maxd acc n [] = Some (acc, n, [])"
| "read_digits radix bound maxd acc n (c # s) =
     (case to_digit radix c of
        None \<Rightarrow> Some (acc, n, c # s)
      | Some d \<Rightarrow>
          if bound \<le> acc * radix + d \<or> maxd < n + 1 then None
          else read_digits radix bound maxd (acc * radix + d) (n + 1) s)"

definition read_number :: "nat \<Rightarrow> nat \<Rightarrow> nat \<Rightarrow> bool \<Rightarrow> string \<Rightarrow> (nat \<times> string) option" where
  "read_number radix bound maxd allow_zero_prefix s =
     (case read_digits radix bound maxd 0 0 s of
        None \<Rightarrow> None
      | Some (v, n, r) \<Rightarrow>
          if n = 0 then None
          else if \<not> allow_zero_prefix \<and> hd s = CHR ''0'' \<and> n > 1 then None
          else Some (v, r))"

fun read_given_char :: "char \<Rightarrow> string \<Rightarrow> string option" where
  "read_given_char c [] = None"
| "read_given_char c (x # s) = (if x = c then Some s else None)"

text \<open>\<open>read_separator(sep, i, f)\<close>: the separator first unless \<open>i = 0\<close>.\<close>

definition read_separator :: "char \<Rightarrow> nat \<Rightarrow> (string \<Rightarrow> ('a \<times> string) option) \<Rightarrow> string \<Rightarrow> ('a \<times> string) option" where
  "read_separator sep i f s =
     (if i = 0 then f s
      else (case read_given_char sep s of None \<Rightarrow> None | Some r \<Rightarrow> f r))"

fun read_octets :: "nat \<Rightarrow> nat \<Rightarrow> string \<Rightarrow> (nat list \<times> string) option" where
  "read_octets 0 i s = Some ([], s)"
| "read_octets (Suc k) i s =
     (case read_separator CHR ''.'' i (read_number 10 256 3 False) s of
        None \<Rightarrow> None
      | Some (v, r) \<Rightarrow> map_option (\<lambda>(vs, r'). (v # vs, r')) (read_octets k (i + 1) r))"

definition be_value :: "nat \<Rightarrow> nat list \<Rightarrow> nat" where
  "be_value base ds = fold (\<lambda>d a. a * base + d) ds 0"

definition read_ipv4 :: "string \<Rightarrow> (nat \<times> string) option" where
  "read_ipv4 s = map_option (\<lambda>(os, r). (be_value 256 os, r)) (read_octets 4 0 s)"

text \<open>
  \<open>read_groups\<close> over \<open>limit\<close> slots: the groups read, whether they end with an embedded IPv4 address,
  and the rest.
\<close>

fun read_groups :: "nat \<Rightarrow> nat \<Rightarrow> string \<Rightarrow> nat list \<times> bool \<times> string" where
  "read_groups 0 i s = ([], False, s)"
| "read_groups (Suc k) i s =
     (case (if k = 0 then None else read_separator CHR '':'' i read_ipv4 s) of
        Some (v, r) \<Rightarrow> ([v div 65536, v mod 65536], True, r)
      | None \<Rightarrow>
         (case read_separator CHR '':'' i (read_number 16 65536 4 True) s of
            None \<Rightarrow> ([], False, s)
          | Some (g, r) \<Rightarrow> (case read_groups k (i + 1) r of (gs, e, r') \<Rightarrow> (g # gs, e, r'))))"

definition read_ipv6_groups :: "string \<Rightarrow> (nat list \<times> string) option" where
  "read_ipv6_groups s =
     (case read_groups 8 0 s of (hd_gs, hd_v4, r) \<Rightarrow>
        if length hd_gs = 8 then Some (hd_gs, r)
        else if hd_v4 then None
        else (case read_given_char CHR '':'' r of
                None \<Rightarrow> None
              | Some r1 \<Rightarrow>
                 (case read_given_char CHR '':'' r1 of
                    None \<Rightarrow> None
                  | Some r2 \<Rightarrow>
                     (case read_groups (8 - (length hd_gs + 1)) 0 r2 of (tl_gs, _, r3) \<Rightarrow>
                        Some (hd_gs @ replicate (8 - length hd_gs - length tl_gs) 0 @ tl_gs, r3)))))"

definition parse_ipv4 :: "string \<Rightarrow> u32 option" where
  "parse_ipv4 s =
     (case read_ipv4 s of Some (v, []) \<Rightarrow> Some (of_nat v) | _ \<Rightarrow> None)"

definition parse_ipv6 :: "string \<Rightarrow> u128 option" where
  "parse_ipv6 s =
     (case read_ipv6_groups s of Some (gs, []) \<Rightarrow> Some (of_nat (be_value 65536 gs)) | _ \<Rightarrow> None)"

text \<open>
  \<open>parse::<IpAddr>()\<close>: an IPv4 address or, where none can be read, an IPv6 address; the whole input
  must be consumed.
\<close>

definition parse_ip :: "string \<Rightarrow> ip_addr option" where
  "parse_ip s =
     (case read_ipv4 s of
        Some (v, r) \<Rightarrow> if r = [] then Some (V4 (of_nat v)) else None
      | None \<Rightarrow>
         (case read_ipv6_groups s of
            Some (gs, []) \<Rightarrow> Some (V6 (of_nat (be_value 65536 gs)))
          | _ \<Rightarrow> None))"

lemma parse_ip_examples:
  "parse_ip ''127.0.0.1'' = Some (V4 0x7F000001)"
  "parse_ip ''::1'' = Some (V6 1)"
  "parse_ip ''fe80::1:2'' = Some (V6 0xFE800000000000000000000000010002)"
  "parse_ip ''::ffff:1.2.3.4'' = Some (V6 0xFFFF01020304)"
  "parse_ip ''01.2.3.4'' = None"
  "parse_ip ''256.2.3.4'' = None"
  "parse_ip ''google.com'' = None"
  by code_simp+

subsection \<open>What an IPv4 address is made of\<close>

lemma read_digits_split:
  "read_digits radix b m acc n s = Some (v, k, r) \<Longrightarrow>
     \<exists>p. s = p @ r \<and> (\<forall>c \<in> set p. to_digit radix c \<noteq> None)"
proof (induction radix b m acc n s rule: read_digits.induct)
  case (2 radix b m acc n c s)
  show ?case
  proof (cases "to_digit radix c")
    case None
    then show ?thesis using 2 by auto
  next
    case (Some d)
    then obtain p where "s = p @ r" "\<forall>c \<in> set p. to_digit radix c \<noteq> None"
      using 2 by (auto split: if_splits)
    then show ?thesis using Some by (intro exI [of _ "c # p"]) auto
  qed
qed auto

lemma read_number_split:
  "read_number radix b m z s = Some (v, r) \<Longrightarrow> \<exists>p. s = p @ r \<and> (\<forall>c \<in> set p. to_digit radix c \<noteq> None)"
  by (auto simp: read_number_def dest!: read_digits_split split: option.split_asm if_split_asm)

lemma read_separator_Some:
  "read_separator sep i f s = Some x \<Longrightarrow> (i = 0 \<and> f s = Some x) \<or> (\<exists>s'. i \<noteq> 0 \<and> s = sep # s' \<and> f s' = Some x)"
  by (cases s) (auto simp: read_separator_def split: if_splits)

lemma read_octets_Suc_elim:
  assumes "read_octets (Suc k) i s = Some (vs, r)"
  obtains v r1 vs' where "read_separator CHR ''.'' i (read_number 10 256 3 False) s = Some (v, r1)"
    "read_octets k (i + 1) r1 = Some (vs', r)"
  using assms by (auto split: option.split_asm prod.split_asm)

lemma read_octets_split:
  "read_octets k i s = Some (vs, r) \<Longrightarrow>
     \<exists>p. s = p @ r \<and> (\<forall>c \<in> set p. to_digit 10 c \<noteq> None \<or> c = CHR ''.'') \<and> (i \<noteq> 0 \<and> k \<noteq> 0 \<longrightarrow> CHR ''.'' \<in> set p)"
proof (induction k arbitrary: i s vs)
  case (Suc k)
  then obtain v r1 vs' where f: "read_separator CHR ''.'' i (read_number 10 256 3 False) s = Some (v, r1)"
    and o: "read_octets k (i + 1) r1 = Some (vs', r)"
    by (elim read_octets_Suc_elim)
  obtain p1 where p1: "s = p1 @ r1" "\<forall>c \<in> set p1. to_digit 10 c \<noteq> None \<or> c = CHR ''.''" "i \<noteq> 0 \<longrightarrow> CHR ''.'' \<in> set p1"
    using read_separator_Some [OF f] by (fastforce dest!: read_number_split)
  show ?case using Suc.IH [OF o] p1 by (elim exE) (rule exI [of _ "p1 @ p" for p], auto)
qed auto

lemma parse_ipv4_chars:
  assumes "parse_ipv4 s = Some ip"
  shows "(\<forall>c \<in> set s. to_digit 10 c \<noteq> None \<or> c = CHR ''.'') \<and> CHR ''.'' \<in> set s"
proof -
  obtain os where "read_octets (Suc 3) 0 s = Some (os, [])"
    using assms by (auto simp: parse_ipv4_def read_ipv4_def numeral_eq_Suc simp del: read_octets.simps
        split: option.split_asm list.split_asm prod.split_asm)
  note o = this
  obtain v r1 vs where f: "read_separator CHR ''.'' 0 (read_number 10 256 3 False) s = Some (v, r1)"
    and r: "read_octets 3 (0 + 1) r1 = Some (vs, [])"
    by (rule read_octets_Suc_elim [OF o])
  have "CHR ''.'' \<in> set r1" using read_octets_split [OF r] by auto
  moreover have "set r1 \<subseteq> set s" using read_separator_Some [OF f] by (auto dest!: read_number_split)
  ultimately show ?thesis using read_octets_split [OF o] by auto
qed

section \<open>UTF-8\<close>

definition byte_in :: "nat \<Rightarrow> nat \<Rightarrow> char \<Rightarrow> bool" where
  "byte_in a b c = (let n = of_char c in a \<le> n \<and> n \<le> b)"

text \<open>The ranges of the bytes that must follow a leading byte, \<open>None\<close> if it cannot lead a sequence.\<close>

definition utf8_expect :: "char \<Rightarrow> (nat \<times> nat) list option" where
  "utf8_expect c =
     (if byte_in 0 127 c then Some []
      else if byte_in 194 223 c then Some [(128, 191)]
      else if byte_in 224 224 c then Some [(160, 191), (128, 191)]
      else if byte_in 225 236 c \<or> byte_in 238 239 c then Some [(128, 191), (128, 191)]
      else if byte_in 237 237 c then Some [(128, 159), (128, 191)]
      else if byte_in 240 240 c then Some [(144, 191), (128, 191), (128, 191)]
      else if byte_in 241 243 c then Some [(128, 191), (128, 191), (128, 191)]
      else if byte_in 244 244 c then Some [(128, 143), (128, 191), (128, 191)]
      else None)"

fun utf8_scan :: "(nat \<times> nat) list \<Rightarrow> string \<Rightarrow> bool" where
  "utf8_scan rs [] = (rs = [])"
| "utf8_scan [] (c # s) = (case utf8_expect c of None \<Rightarrow> False | Some rs \<Rightarrow> utf8_scan rs s)"
| "utf8_scan ((a, b) # rs) (c # s) = (byte_in a b c \<and> utf8_scan rs s)"

text \<open>\<open>str::from_utf8(bytes).is_ok()\<close>.\<close>

definition valid_utf8 :: "string \<Rightarrow> bool" where
  "valid_utf8 s = utf8_scan [] s"

lemma utf8_scan_append: "utf8_scan rs s \<Longrightarrow> utf8_scan rs (s @ t) = utf8_scan [] t"
  by (induction rs s rule: utf8_scan.induct) (auto split: option.splits)

lemma valid_utf8_append: "valid_utf8 s \<Longrightarrow> valid_utf8 (s @ t) = valid_utf8 t"
  by (simp add: valid_utf8_def utf8_scan_append)

lemma valid_utf8_ascii: "list_all (byte_in 0 127) s \<Longrightarrow> valid_utf8 s"
proof -
  have "list_all (byte_in 0 127) s \<Longrightarrow> utf8_scan [] s"
    by (induction s) (auto simp: utf8_expect_def)
  then show "list_all (byte_in 0 127) s \<Longrightarrow> valid_utf8 s" by (simp add: valid_utf8_def)
qed

lemma show_nat_ascii: "list_all (byte_in 0 127) (show_nat n)"
proof -
  have "byte_in 0 127 (digit_char d)" if "d < 10" for d
    using that of_char_digit_char [OF that] by (simp add: byte_in_def)
  then show ?thesis using show_nat_digits by (fastforce simp: list_all_iff)
qed

text \<open>\<open>Path::to_str\<close> (a path is a byte string) and \<open>String::from_utf8\<close>.\<close>

definition utf8_to_str :: "string \<Rightarrow> string option" where
  "utf8_to_str p = (if valid_utf8 p then Some p else None)"

text \<open>
  \<open>String::from_utf8_lossy\<close>: the longest part of a broken sequence that could begin a character becomes
  one replacement character.
\<close>

fun count_ranges :: "(nat \<times> nat) list \<Rightarrow> string \<Rightarrow> nat" where
  "count_ranges [] s = 0"
| "count_ranges rs [] = 0"
| "count_ranges ((a, b) # rs) (c # s) = (if byte_in a b c then Suc (count_ranges rs s) else 0)"

definition replacement :: string where
  "replacement = [byte 239, byte 191, byte 189]"

function from_utf8_lossy :: "string \<Rightarrow> string" where
  "from_utf8_lossy [] = []"
| "from_utf8_lossy (c # s) =
     (case utf8_expect c of
        None \<Rightarrow> replacement @ from_utf8_lossy s
      | Some rs \<Rightarrow>
          (let n = count_ranges rs s in
           (if n = length rs then c # take n s else replacement) @ from_utf8_lossy (drop n s)))"
  by pat_completeness auto
termination by (relation "measure length") auto

lemma utf8_scan_count:
  "utf8_scan rs s \<Longrightarrow> count_ranges rs s = length rs \<and> utf8_scan [] (drop (length rs) s)"
  by (induction rs s rule: count_ranges.induct) auto

lemma from_utf8_lossy_valid: "valid_utf8 s \<Longrightarrow> from_utf8_lossy s = s"
  unfolding valid_utf8_def
proof (induction s rule: from_utf8_lossy.induct)
  case (2 c s)
  then obtain rs where rs: "utf8_expect c = Some rs" "utf8_scan rs s" by (auto split: option.splits)
  then show ?case using 2(2) [OF rs(1) refl] utf8_scan_count [OF rs(2)] by (simp add: Let_def)
qed simp

section \<open>Network byte order\<close>

text \<open>\<open>to_be_bytes\<close> of an integer of \<open>n\<close> bytes, and \<open>from_be_bytes\<close>.\<close>

fun be_bytes_nat :: "nat \<Rightarrow> nat \<Rightarrow> bytes" where
  "be_bytes_nat 0 v = []"
| "be_bytes_nat (Suc n) v = be_bytes_nat n (v div 256) @ [of_nat (v mod 256)]"

definition be_bytes :: "'w::len word \<Rightarrow> bytes" where
  "be_bytes w = be_bytes_nat (LENGTH('w) div 8) (unat w)"

definition be_word :: "bytes \<Rightarrow> 'w::len word" where
  "be_word bs = of_nat (foldl (\<lambda>n b. 256 * n + unat b) 0 bs)"

lemma length_be_bytes_nat [simp]: "length (be_bytes_nat n v) = n"
  by (induction n arbitrary: v) auto

lemma length_be_bytes [simp]: "length (be_bytes (w :: 'w::len word)) = LENGTH('w) div 8"
  by (simp add: be_bytes_def)

lemma foldl_be_bytes_nat: "foldl (\<lambda>n (b :: u8). 256 * n + unat b) 0 (be_bytes_nat n v) = v mod 256 ^ n"
proof (induction n arbitrary: v)
  case (Suc n)
  have "unat (of_nat (v mod 256) :: u8) = v mod 256" by (simp add: unat_of_nat_eq_iff)
  then show ?case using Suc [of "v div 256"] by (simp add: mod_mult2_eq)
qed simp

lemma be_word_bytes [simp]:
  assumes "8 dvd LENGTH('w::len)"
  shows "be_word (be_bytes w) = (w :: 'w word)"
proof -
  have "(256 :: nat) ^ (LENGTH('w) div 8) = (2 ^ 8) ^ (LENGTH('w) div 8)" by simp
  also have "\<dots> = 2 ^ LENGTH('w)" unfolding power_mult [symmetric] using assms by simp
  finally have "(256 :: nat) ^ (LENGTH('w) div 8) = 2 ^ LENGTH('w)" .
  then show ?thesis
    using unsigned_less [of w, where ?'a = nat] by (simp add: be_word_def be_bytes_def foldl_be_bytes_nat)
qed

end
