(* ===== verification/Tunnel.thy ===== *)
theory Tunnel
  imports Std_Net
begin

text \<open>
  The vocabulary of \<open>tunnel/mod.rs\<close> and \<open>tunnel/transport/types.rs\<close>: tunnel protocols, remote
  addresses and the address of the server a client talks to, with the lemmas on the conversions
  between hosts and socket addresses.
\<close>

section \<open>Hosts and protocols\<close>

text \<open>\<open>url::Host\<close>.\<close>

datatype host = Domain string | Ipv4 u32 | Ipv6 u128

fun host_ip :: "host \<Rightarrow> ip_addr option" where
  "host_ip (Domain _) = None"
| "host_ip (Ipv4 a) = Some (V4 a)"
| "host_ip (Ipv6 a) = Some (V6 a)"

type_synonym credentials = "string \<times> string"
type_synonym path = string

datatype local_protocol =
    Tcp bool
  | Udp "duration option"
  | Stdio bool
  | TunnelStdio bool "duration option"
  | Socks5 "duration option" "credentials option"
  | TProxyTcp
  | TProxyUdp "duration option"
  | HttpProxy "duration option" "credentials option" bool
  | ReverseTcp
  | ReverseUdp "duration option"
  | ReverseSocks5 "duration option" "credentials option"
  | ReverseHttpProxy "duration option" "credentials option"
  | ReverseUnix path
  | Unix path bool

fun is_reverse_tunnel :: "local_protocol \<Rightarrow> bool" where
  "is_reverse_tunnel ReverseTcp = True"
| "is_reverse_tunnel (ReverseUdp _) = True"
| "is_reverse_tunnel (ReverseSocks5 _ _) = True"
| "is_reverse_tunnel (ReverseUnix _) = True"
| "is_reverse_tunnel (ReverseHttpProxy _ _) = True"
| "is_reverse_tunnel _ = False"

fun is_dynamic_reverse_tunnel :: "local_protocol \<Rightarrow> bool" where
  "is_dynamic_reverse_tunnel (ReverseSocks5 _ _) = True"
| "is_dynamic_reverse_tunnel (ReverseHttpProxy _ _) = True"
| "is_dynamic_reverse_tunnel _ = False"

record remote_addr =
  ra_protocol :: local_protocol
  ra_host :: host
  ra_port :: u16

definition to_host_port :: "socket_addr \<Rightarrow> host \<times> u16" where
  "to_host_port addr =
     (case addr_ip addr of
        V4 ip \<Rightarrow> (Ipv4 ip, addr_port addr)
      | V6 ip \<Rightarrow> (Ipv6 ip, addr_port addr))"

fun try_to_sock_addr :: "host \<times> u16 \<Rightarrow> (socket_addr, string) result" where
  "try_to_sock_addr (Domain _, port) = Err ''Cannot convert domain to socket address''"
| "try_to_sock_addr (Ipv4 ip, port) = Ok (SocketAddrV4 ip port)"
| "try_to_sock_addr (Ipv6 ip, port) = Ok (SocketAddrV6 ip port 0 0)"

lemma dynamic_is_reverse: "is_dynamic_reverse_tunnel p \<Longrightarrow> is_reverse_tunnel p"
  by (cases p) auto

lemma try_to_sock_addr_Ok: 
  "try_to_sock_addr (h, p) = Ok a \<Longrightarrow> to_host_port a = (h, p)"
  by (cases h) (auto simp: to_host_port_def)

lemma try_to_sock_addr_Ok_iff: "(\<exists>a. try_to_sock_addr (h, p) = Ok a) \<longleftrightarrow> (\<forall>d. h \<noteq> Domain d)"
  by (cases h) auto

lemma to_host_port_back:
  "try_to_sock_addr (to_host_port a) = Ok (socket_addr_new (addr_ip a) (addr_port a))"
  by (cases a) (auto simp: to_host_port_def)

section \<open>Transport addresses\<close>

datatype transport_scheme = Ws | Wss | Http | Https

definition scheme_values :: "transport_scheme list" where
  "scheme_values = [Ws, Wss, Http, Https]"

fun scheme_to_str :: "transport_scheme \<Rightarrow> string" where
  "scheme_to_str Ws = ''ws''"
| "scheme_to_str Wss = ''wss''"
| "scheme_to_str Http = ''http''"
| "scheme_to_str Https = ''https''"

fun alpn_protocols :: "transport_scheme \<Rightarrow> string list" where
  "alpn_protocols Ws = []"
| "alpn_protocols Wss = [''http/1.1'']"
| "alpn_protocols Http = []"
| "alpn_protocols Https = [''h2'']"

definition scheme_from_str :: "string \<Rightarrow> transport_scheme option" where
  "scheme_from_str s =
     (if s = ''https'' then Some Https
      else if s = ''http'' then Some Http
      else if s = ''wss'' then Some Wss
      else if s = ''ws'' then Some Ws
      else None)"

lemma scheme_from_to_str [simp]: "scheme_from_str (scheme_to_str s) = Some s"
  by (cases s) (auto simp: scheme_from_str_def)

lemma scheme_from_str_Some: "scheme_from_str s = Some t \<longleftrightarrow> s = scheme_to_str t"
  by (cases t) (auto simp: scheme_from_str_def split: if_splits)

text \<open>\<open>'tls\<close> is the client's TLS configuration.\<close>

datatype 'tls transport_addr =
    AddrWss 'tls transport_scheme host u16
  | AddrWs transport_scheme host u16
  | AddrHttps transport_scheme 'tls host u16
  | AddrHttp transport_scheme host u16

definition transport_addr_new ::
  "transport_scheme \<Rightarrow> host \<Rightarrow> u16 \<Rightarrow> 'tls option \<Rightarrow> 'tls transport_addr option" where
  "transport_addr_new scheme h p tls =
     (case scheme of
        Https \<Rightarrow> (case tls of None \<Rightarrow> None | Some t \<Rightarrow> Some (AddrHttps Https t h p))
      | Http \<Rightarrow> Some (AddrHttp Http h p)
      | Wss \<Rightarrow> (case tls of None \<Rightarrow> None | Some t \<Rightarrow> Some (AddrWss t Wss h p))
      | Ws \<Rightarrow> Some (AddrWs Ws h p))"

fun ta_tls :: "'tls transport_addr \<Rightarrow> 'tls option" where
  "ta_tls (AddrWss t s h p) = Some t"
| "ta_tls (AddrHttps s t h p) = Some t"
| "ta_tls (AddrWs s h p) = None"
| "ta_tls (AddrHttp s h p) = None"

fun ta_host :: "'tls transport_addr \<Rightarrow> host" where
  "ta_host (AddrWss t s h p) = h"
| "ta_host (AddrWs s h p) = h"
| "ta_host (AddrHttps s t h p) = h"
| "ta_host (AddrHttp s h p) = h"

fun ta_port :: "'tls transport_addr \<Rightarrow> u16" where
  "ta_port (AddrWss t s h p) = p"
| "ta_port (AddrWs s h p) = p"
| "ta_port (AddrHttps s t h p) = p"
| "ta_port (AddrHttp s h p) = p"

fun ta_scheme :: "'tls transport_addr \<Rightarrow> transport_scheme" where
  "ta_scheme (AddrWss t s h p) = s"
| "ta_scheme (AddrWs s h p) = s"
| "ta_scheme (AddrHttps s t h p) = s"
| "ta_scheme (AddrHttp s h p) = s"

text \<open>
  A transport address exists for every scheme that needs no TLS and, with a TLS configuration,
  for every scheme; its accessors give back what it was made from.
\<close>

lemma transport_addr_new_None:
  "transport_addr_new s h p tls = None \<longleftrightarrow> s \<in> {Wss, Https} \<and> tls = None"
  by (cases s) (auto simp: transport_addr_new_def split: option.splits)

lemma transport_addr_new_Some:
  "transport_addr_new s h p tls = Some a \<Longrightarrow>
     ta_scheme a = s \<and> ta_host a = h \<and> ta_port a = p \<and>
     ta_tls a = (if s \<in> {Wss, Https} then tls else None)"
  by (cases s) (auto simp: transport_addr_new_def split: option.splits)

end
