(* ===== verification/Http_Msg.thy ===== *)
theory Http_Msg
  imports Tunnel
begin

text \<open>
  HTTP requests and the token that carries a tunnel request (\<open>tunnel/transport/jwt.rs\<close>,
  \<open>tunnel/transport/mod.rs\<close> and the extraction functions of \<open>tunnel/server/utils.rs\<close>).
  A \<open>HeaderMap\<close> is the list of its entries in insertion order, names in lower case.  The crates
  \<open>http\<close> (validity of header values and URIs), \<open>jsonwebtoken\<close>, \<open>url\<close> and \<open>uuid\<close> are the
  parameters \<open>H\<close> and \<open>J\<close>.
\<close>

section \<open>Header maps and requests\<close>

type_synonym header_map = "(string \<times> string) list"

definition hm_get :: "header_map \<Rightarrow> string \<Rightarrow> string option" where
  "hm_get m k = map_of m k"

definition hm_remove :: "header_map \<Rightarrow> string \<Rightarrow> header_map" where
  "hm_remove m k = filter (\<lambda>e. fst e \<noteq> k) m"

definition hm_append :: "header_map \<Rightarrow> string \<Rightarrow> string \<Rightarrow> header_map" where
  "hm_append m k v = m @ [(k, v)]"

definition hm_insert :: "header_map \<Rightarrow> string \<Rightarrow> string \<Rightarrow> header_map" where
  "hm_insert m k v = hm_append (hm_remove m k) k v"

text \<open>\<open>headers.remove(k); headers.append(k, v)\<close>, as the client does for every header it overrides.\<close>

definition hm_override :: "header_map \<Rightarrow> (string \<times> string) list \<Rightarrow> header_map" where
  "hm_override m kvs = fold (\<lambda>(k, v) m. hm_append (hm_remove m k) k v) kvs m"

lemma hm_get_remove: "hm_get (hm_remove m k) k' = (if k' = k then None else hm_get m k')"
  by (induction m) (auto simp: hm_get_def hm_remove_def)

lemma hm_get_append: "hm_get (hm_append m k v) k' =
    (case hm_get m k' of Some w \<Rightarrow> Some w | None \<Rightarrow> if k' = k then Some v else None)"
  by (auto simp: hm_get_def hm_append_def map_add_def split: option.splits)

lemma hm_get_insert: "hm_get (hm_insert m k v) k' = (if k' = k then Some v else hm_get m k')"
  by (auto simp: hm_insert_def hm_get_append hm_get_remove split: option.splits)

lemma hm_override_Cons: "hm_override m ((k, v) # kvs) = hm_override (hm_insert m k v) kvs"
  by (simp add: hm_override_def hm_insert_def)

lemma hm_get_override: "hm_get (hm_override m kvs) k = (case map_of (rev kvs) k of Some v \<Rightarrow> Some v | None \<Rightarrow> hm_get m k)"
proof (induction kvs arbitrary: m)
  case (Cons kv kvs)
  show ?case
  proof (cases kv)
    case (Pair a b)
    then show ?thesis using Cons [of "hm_insert m a b"]
      by (auto simp: hm_override_Cons hm_get_insert map_add_def split: option.splits)
  qed
qed (simp add: hm_override_def)

datatype http_version = Http10 | Http11 | Http2

record request =
  rq_method :: string
  rq_uri :: string
  rq_path :: string
  rq_version :: http_version
  rq_headers :: header_map

record http_lib =
  h_value_ok :: "string \<Rightarrow> bool"
  h_to_str :: "string \<Rightarrow> string option"
  h_name :: "string \<Rightarrow> string option"
  h_uri_path :: "string \<Rightarrow> string option"

text \<open>
  \<open>Request::builder()\<close> with its method, URI, headers and version: the builder holds an error, and
  \<open>headers_mut\<close> returns \<open>None\<close>, as soon as the URI or a header value is invalid.
\<close>

definition build_request ::
  "http_lib \<Rightarrow> string \<Rightarrow> string \<Rightarrow> header_map \<Rightarrow> http_version \<Rightarrow> request option" where
  "build_request H method uri hdrs version =
     (case h_uri_path H uri of
        None \<Rightarrow> None
      | Some p \<Rightarrow>
          if list_all (\<lambda>e. h_value_ok H (snd e)) hdrs
          then Some \<lparr>rq_method = method, rq_uri = uri, rq_path = p, rq_version = version, rq_headers = hdrs\<rparr>
          else None)"

text \<open>
  Header values of visible ASCII characters are valid and convert to a string; whatever converts is its
  own text and a valid value.
\<close>

definition visible :: "char \<Rightarrow> bool" where
  "visible c = (let n = (of_char c :: nat) in 32 \<le> n \<and> n < 127)"

definition http_lib_ok :: "http_lib \<Rightarrow> bool" where
  "http_lib_ok H \<longleftrightarrow>
     (\<forall>v. list_all visible v \<longrightarrow> h_value_ok H v \<and> h_to_str H v = Some v) \<and>
     (\<forall>v s. h_to_str H v = Some s \<longrightarrow> s = v \<and> h_value_ok H v)"

section \<open>Headers from a file\<close>

text \<open>
  \<open>lines\<close> is what reading the file line by line gives, \<open>None\<close> if it cannot be opened; a line that
  cannot be read is an \<open>Err\<close>.
\<close>

definition header_line :: "http_lib \<Rightarrow> (string, 'e) result \<Rightarrow> (string \<times> string) option" where
  "header_line H line =
     (case line of
        Err e \<Rightarrow> None
      | Ok l \<Rightarrow>
         (case split_once CHR '':'' l of
            None \<Rightarrow> None
          | Some (name, value) \<Rightarrow>
             (case h_name H (trim name) of
                None \<Rightarrow> None
              | Some n \<Rightarrow> if h_value_ok H (trim value) then Some (n, trim value) else None)))"

fun headers_loop ::
  "http_lib \<Rightarrow> (string, 'e) result list \<Rightarrow> (string \<times> string) option \<Rightarrow> (string \<times> string) option \<times> (string \<times> string) list" where
  "headers_loop H [] host_header = (host_header, [])"
| "headers_loop H (l # ls) host_header =
     (case header_line H l of
        None \<Rightarrow> headers_loop H ls host_header
      | Some (n, v) \<Rightarrow>
          if n = ''host'' then headers_loop H ls (Some (n, v))
          else (case headers_loop H ls host_header of (h, hs) \<Rightarrow> (h, (n, v) # hs)))"

definition headers_from_file ::
  "http_lib \<Rightarrow> (string, 'e) result list option \<Rightarrow> (string \<times> string) option \<times> (string \<times> string) list" where
  "headers_from_file H lines =
     (case lines of None \<Rightarrow> (None, []) | Some ls \<Rightarrow> headers_loop H ls None)"

lemma headers_loop_no_host: "headers_loop H ls h0 = (h, hs) \<Longrightarrow> e \<in> set hs \<Longrightarrow> fst e \<noteq> ''host''"
  by (induction ls arbitrary: h0 h hs) (auto split: option.splits if_splits prod.splits)

lemma headers_loop_host:
  "headers_loop H ls h0 = (Some hv, hs) \<Longrightarrow> h0 = Some hv \<or> fst hv = ''host''"
  by (induction ls arbitrary: h0 hs) (fastforce split: option.splits if_splits prod.splits)+

section \<open>The tunnel token\<close>

definition JWT_HEADER_PREFIX :: string where
  "JWT_HEADER_PREFIX = ''authorization.bearer.''"

record jwt_tunnel_config =
  jwt_id :: string
  jwt_p :: local_protocol
  jwt_r :: string
  jwt_rp :: u16

record token_lib =
  j_encode :: "jwt_tunnel_config \<Rightarrow> string option"
  j_decode :: "string \<Rightarrow> jwt_tunnel_config option"
  j_host_parse :: "string \<Rightarrow> host option"
  j_host_to_string :: "host \<Rightarrow> string"
  j_uuid_to_string :: "u128 \<Rightarrow> string"
  j_uuid_parse :: "string \<Rightarrow> u128 option"

fun jwt_protocol :: "local_protocol \<Rightarrow> local_protocol run" where
  "jwt_protocol (Tcp b) = Returns (Tcp b)"
| "jwt_protocol (Udp t) = Returns (Udp t)"
| "jwt_protocol ReverseTcp = Returns ReverseTcp"
| "jwt_protocol (ReverseUdp t) = Returns (ReverseUdp t)"
| "jwt_protocol (ReverseSocks5 t c) = Returns (ReverseSocks5 t c)"
| "jwt_protocol (ReverseUnix p) = Returns (ReverseUnix p)"
| "jwt_protocol (ReverseHttpProxy t c) = Returns (ReverseHttpProxy t c)"
| "jwt_protocol TProxyTcp = Panics ''cannot use tproxy tcp as destination protocol''"
| "jwt_protocol (TProxyUdp t) = Panics ''cannot use tproxy udp as destination protocol''"
| "jwt_protocol (Stdio b) = Panics ''cannot use stdio as destination protocol''"
| "jwt_protocol (TunnelStdio b t) = Returns (TunnelStdio b t)"
| "jwt_protocol (Unix p b) = Panics ''canont use unix as destination protocol''"
| "jwt_protocol (Socks5 t c) = Panics ''cannot use socks5 as destination protocol''"
| "jwt_protocol (HttpProxy t c b) = Panics ''cannot use http proxy as destination protocol''"

definition jwt_tunnel_config_new :: "token_lib \<Rightarrow> u128 \<Rightarrow> remote_addr \<Rightarrow> jwt_tunnel_config run" where
  "jwt_tunnel_config_new J request_id dest =
     run_then (jwt_protocol (ra_protocol dest)) (\<lambda>p.
       Returns \<lparr>jwt_id = j_uuid_to_string J request_id, jwt_p = p,
                jwt_r = j_host_to_string J (ra_host dest), jwt_rp = ra_port dest\<rparr>)"

definition tunnel_to_jwt_token :: "token_lib \<Rightarrow> u128 \<Rightarrow> remote_addr \<Rightarrow> string run" where
  "tunnel_to_jwt_token J request_id tunnel =
     run_then (jwt_tunnel_config_new J request_id tunnel) (\<lambda>cfg. Returns (unwrap_or [] (j_encode J cfg)))"

definition jwt_token_to_tunnel :: "token_lib \<Rightarrow> string \<Rightarrow> jwt_tunnel_config option" where
  "jwt_token_to_tunnel J token = j_decode J token"

definition remote_addr_try_from :: "token_lib \<Rightarrow> jwt_tunnel_config \<Rightarrow> remote_addr option" where
  "remote_addr_try_from J jwt =
     (case j_host_parse J (jwt_r jwt) of
        None \<Rightarrow> None
      | Some h \<Rightarrow> Some \<lparr>ra_protocol = jwt_p jwt, ra_host = h, ra_port = jwt_rp jwt\<rparr>)"

text \<open>
  Documented behaviour of the token crates: a token that was made is read back (signatures are not
  checked) and is made of visible characters, and an identifier is read back.
\<close>

definition token_lib_ok :: "token_lib \<Rightarrow> bool" where
  "token_lib_ok J \<longleftrightarrow>
     (\<forall>c t. j_encode J c = Some t \<longrightarrow> j_decode J t = Some c \<and> list_all visible t) \<and>
     (\<forall>u. j_uuid_parse J (j_uuid_to_string J u) = Some u)"

fun jwt_encodable :: "local_protocol \<Rightarrow> bool" where
  "jwt_encodable TProxyTcp = False"
| "jwt_encodable (TProxyUdp _) = False"
| "jwt_encodable (Stdio _) = False"
| "jwt_encodable (Unix _ _) = False"
| "jwt_encodable (Socks5 _ _) = False"
| "jwt_encodable (HttpProxy _ _ _) = False"
| "jwt_encodable _ = True"

lemma jwt_protocol_Returns: "jwt_protocol p = Returns q \<longleftrightarrow> jwt_encodable p \<and> q = p"
  by (cases p) auto

lemma tunnel_to_jwt_token_encodable:
  "jwt_encodable (ra_protocol d) \<Longrightarrow> tunnel_to_jwt_token J u d = Returns (unwrap_or [] (j_encode J
     \<lparr>jwt_id = j_uuid_to_string J u, jwt_p = ra_protocol d, jwt_r = j_host_to_string J (ra_host d), jwt_rp = ra_port d\<rparr>))"
  by (cases "ra_protocol d") (auto simp: tunnel_to_jwt_token_def jwt_tunnel_config_new_def)

lemma tunnel_to_jwt_token_panics: "(\<exists>m. tunnel_to_jwt_token J u d = Panics m) \<longleftrightarrow> \<not> jwt_encodable (ra_protocol d)"
  by (cases "ra_protocol d") (auto simp: tunnel_to_jwt_token_def jwt_tunnel_config_new_def)

section \<open>Extraction by the server\<close>

definition extract_authorization :: "http_lib \<Rightarrow> request \<Rightarrow> string option" where
  "extract_authorization H req = Option.bind (hm_get (rq_headers req) ''authorization'') (h_to_str H)"

definition extract_x_forwarded_for :: "http_lib \<Rightarrow> request \<Rightarrow> (ip_addr \<times> string) option" where
  "extract_x_forwarded_for H req =
     (case hm_get (rq_headers req) ''x-forwarded-for'' of
        None \<Rightarrow> None
      | Some v \<Rightarrow>
         (let s = unwrap_or [] (h_to_str H v);
              s = unwrap_or s (map_option fst (split_once CHR '','' s))
          in map_option (\<lambda>ip. (ip, s)) (parse_ip s)))"

definition extract_token :: "http_lib \<Rightarrow> request \<Rightarrow> string" where
  "extract_token H req =
     unwrap_or []
       (or_else
          (map_option snd
             (Option.bind (Option.bind (hm_get (rq_headers req) ''sec-websocket-protocol'') (h_to_str H))
                (split_once_str JWT_HEADER_PREFIX)))
          (Option.bind (hm_get (rq_headers req) ''cookie'') (h_to_str H)))"

definition extract_tunnel_info :: "http_lib \<Rightarrow> token_lib \<Rightarrow> request \<Rightarrow> jwt_tunnel_config option" where
  "extract_tunnel_info H J req = jwt_token_to_tunnel J (extract_token H req)"

record response =
  rs_status :: nat
  rs_headers :: header_map
  rs_body :: string

definition bad_request :: response where
  "bad_request = \<lparr>rs_status = 400, rs_headers = [], rs_body = ''Invalid request''\<rparr>"

definition inject_cookie :: "http_lib \<Rightarrow> token_lib \<Rightarrow> response \<Rightarrow> remote_addr \<Rightarrow> (response, unit) result run" where
  "inject_cookie H J resp remote =
     run_then (tunnel_to_jwt_token J 0 remote) (\<lambda>token.
       Returns (if h_value_ok H token
                then Ok (resp\<lparr>rs_headers := hm_insert (rs_headers resp) ''cookie'' token\<rparr>)
                else Err ()))"

lemma extract_token_websocket:
  assumes "hm_get (rq_headers req) ''sec-websocket-protocol'' = Some v" "h_to_str H v = Some (''v1, '' @ JWT_HEADER_PREFIX @ t)"
  shows "extract_token H req = t"
proof -
  have "split_once_str JWT_HEADER_PREFIX (''v1, '' @ JWT_HEADER_PREFIX @ t) = Some (''v1, '', t)"
    by (rule split_once_str_append) (auto simp: JWT_HEADER_PREFIX_def)
  then show ?thesis using assms by (simp add: extract_token_def)
qed

lemma extract_token_cookie:
  assumes "hm_get (rq_headers req) ''sec-websocket-protocol'' = None" "hm_get (rq_headers req) ''cookie'' = Some v"
    "h_to_str H v = Some t"
  shows "extract_token H req = t"
  using assms by (simp add: extract_token_def)

lemma token_visible:
  assumes "token_lib_ok J" "tunnel_to_jwt_token J u d = Returns token" "token \<noteq> []"
  shows "list_all visible token"
proof -
  have "jwt_encodable (ra_protocol d)" using assms(2) tunnel_to_jwt_token_panics [of J u d] by auto
  then have "\<exists>c. j_encode J c = Some token"
    using assms(2, 3) by (auto simp: tunnel_to_jwt_token_encodable dest!: sym [of _ token] intro!: unwrap_or_neq)
  then show ?thesis using assms(1) by (auto simp: token_lib_ok_def)
qed

lemma token_roundtrip:
  assumes "token_lib_ok J" "tunnel_to_jwt_token J u d = Returns token" "token \<noteq> []"
    and "j_host_parse J (j_host_to_string J (ra_host d)) = Some (ra_host d)"
  shows "\<exists>cfg. jwt_token_to_tunnel J token = Some cfg \<and> remote_addr_try_from J cfg = Some d \<and>
           j_uuid_parse J (jwt_id cfg) = Some u"
proof -
  have "jwt_encodable (ra_protocol d)"
    using assms(2) tunnel_to_jwt_token_panics [of J u d] by auto
  then have "j_encode J \<lparr>jwt_id = j_uuid_to_string J u, jwt_p = ra_protocol d,
      jwt_r = j_host_to_string J (ra_host d), jwt_rp = ra_port d\<rparr> = Some token" (is "j_encode J ?cfg = _")
    using assms(2, 3) by (auto simp: tunnel_to_jwt_token_encodable intro!: unwrap_or_neq)
  then have "j_decode J token = Some ?cfg" "j_uuid_parse J (jwt_id ?cfg) = Some u"
    using assms(1) by (auto simp: token_lib_ok_def)
  then show ?thesis using assms(4)
    by (intro exI [of _ ?cfg]) (simp add: jwt_token_to_tunnel_def remote_addr_try_from_def)
qed

text \<open>
  A tunnel request survives the token: the configuration a client puts in the token is the one the
  server reads, and gives back the protocol, the host and the port, for every host that its own textual
  form denotes.
\<close>

lemma jwt_roundtrip:
  assumes "token_lib_ok J" "tunnel_to_jwt_token J u d = Returns token" "token \<noteq> []"
    and "j_host_parse J (j_host_to_string J (ra_host d)) = Some (ra_host d)"
  shows "\<exists>cfg. jwt_token_to_tunnel J token = Some cfg \<and> remote_addr_try_from J cfg = Some d \<and>
           j_uuid_parse J (jwt_id cfg) = Some u"
  using token_roundtrip [OF assms] .

section \<open>Concrete libraries\<close>

text \<open>A token library that knows one configuration, and the visible-ASCII rule for header values.\<close>

definition demo_http :: http_lib where
  "demo_http =
     \<lparr>h_value_ok = list_all visible, h_to_str = (\<lambda>v. if list_all visible v then Some v else None),
      h_name = (\<lambda>n. if n = [] then None else Some n),
      h_uri_path = (\<lambda>u. if starts_with ''/'' u then Some u else None)\<rparr>"

definition demo_tokens :: "jwt_tunnel_config \<Rightarrow> token_lib" where
  "demo_tokens cfg =
     \<lparr>j_encode = (\<lambda>c. if c = cfg then Some ''e30.e30.e30'' else None),
      j_decode = (\<lambda>t. if t = ''e30.e30.e30'' then Some cfg else None),
      j_host_parse = (\<lambda>s. if s = [] then None else Some (Domain s)),
      j_host_to_string = (\<lambda>h. case h of Domain d \<Rightarrow> d | _ \<Rightarrow> ''ip''),
      j_uuid_to_string = (\<lambda>u. show_nat (unat u)),
      j_uuid_parse = (\<lambda>s. map_option of_nat (parse_uint (2 ^ 128) s))\<rparr>"

lemma demo_http_ok: "http_lib_ok demo_http"
  by (simp add: http_lib_ok_def demo_http_def)

lemma parse_show_u128: "map_option of_nat (parse_uint (2 ^ 128) (show_nat (unat u))) = Some (u :: u128)"
  using unsigned_less [of u, where ?'a = nat] by (simp add: parse_show_nat)

lemma demo_tokens_ok: "token_lib_ok (demo_tokens cfg)"
proof -
  have "list_all visible ''e30.e30.e30''" by code_simp
  then show ?thesis
    using parse_show_u128 by (auto simp: token_lib_ok_def demo_tokens_def)
qed

definition demo_dest :: remote_addr where
  "demo_dest = \<lparr>ra_protocol = Tcp False, ra_host = Domain ''google.com'', ra_port = 443\<rparr>"

definition demo_jwt :: jwt_tunnel_config where
  "demo_jwt = \<lparr>jwt_id = show_nat 7, jwt_p = Tcp False, jwt_r = ''google.com'', jwt_rp = 443\<rparr>"

lemma demo_token: "tunnel_to_jwt_token (demo_tokens demo_jwt) 7 demo_dest = Returns ''e30.e30.e30''"
  by (simp add: tunnel_to_jwt_token_def jwt_tunnel_config_new_def demo_dest_def demo_jwt_def demo_tokens_def)

lemma jwt_roundtrip_instance:
  "\<exists>cfg. jwt_token_to_tunnel (demo_tokens demo_jwt) ''e30.e30.e30'' = Some cfg \<and>
     remote_addr_try_from (demo_tokens demo_jwt) cfg = Some demo_dest \<and>
     j_uuid_parse (demo_tokens demo_jwt) (jwt_id cfg) = Some 7"
  by (rule jwt_roundtrip [OF demo_tokens_ok demo_token]) (simp_all add: demo_tokens_def demo_dest_def)

end
