(* ===== verification/Dns.thy ===== *)
theory Dns
  imports Tunnel
begin

text \<open>
  Name resolution (\<open>protocols/dns/resolver.rs\<close>): the interleaving of address families, the choice of
  the resolver from the command line and its lookups.  The answers of the system resolver and of
  \<open>hickory\<close> are the parameters \<open>D\<close>; a parsed URL is the record of what the accessors of the crate
  \<open>url\<close> return for it.
\<close>

section \<open>URLs\<close>

record url =
  url_scheme :: string
  url_host :: "host option"
  url_port :: "u16 option"
  url_port_or_known_default :: "u16 option"
  url_username :: string
  url_password :: "string option"
  url_query_pairs :: "(string \<times> string) list"
  url_text :: string

section \<open>Interleaving of address families\<close>

fun is_v6_addr :: "socket_addr \<Rightarrow> bool" where
  "is_v6_addr (SocketAddrV6 _ _ _ _) = True"
| "is_v6_addr (SocketAddrV4 _ _) = False"

text \<open>
  The iterator of \<open>sort_socket_addrs\<close>: \<open>pick_v6\<close> is flipped before every element, the other family is
  taken when the picked one is exhausted, and the iteration ends when both are.
\<close>

function interleave :: "bool \<Rightarrow> 'a list \<Rightarrow> 'a list \<Rightarrow> 'a list" where
  "interleave pick_v6 v6 v4 =
     (if \<not> pick_v6 then
        (case v6 of
           x # r \<Rightarrow> x # interleave (\<not> pick_v6) r v4
         | [] \<Rightarrow> (case v4 of y # r \<Rightarrow> y # interleave (\<not> pick_v6) v6 r | [] \<Rightarrow> []))
      else
        (case v4 of
           y # r \<Rightarrow> y # interleave (\<not> pick_v6) v6 r
         | [] \<Rightarrow> (case v6 of x # r \<Rightarrow> x # interleave (\<not> pick_v6) r v4 | [] \<Rightarrow> [])))"
  by pat_completeness auto
termination
  by (relation "measure (\<lambda>(p, v6, v4). length v6 + length v4)") auto

declare interleave.simps [simp del]

definition sort_socket_addrs :: "socket_addr list \<Rightarrow> bool \<Rightarrow> socket_addr list" where
  "sort_socket_addrs addrs prefer_ipv6 =
     interleave (\<not> prefer_ipv6) (filter is_v6_addr addrs) (filter (\<lambda>a. \<not> is_v6_addr a) addrs)"

lemma interleave_Nil_left: "interleave p [] v4 = v4"
proof (induction v4 arbitrary: p)
  case (Cons y r)
  then show ?case by (subst interleave.simps) auto
qed (simp add: interleave.simps)

lemma interleave_Nil_right: "interleave p v6 [] = v6"
proof (induction v6 arbitrary: p)
  case (Cons y r)
  then show ?case by (subst interleave.simps) auto
qed (simp add: interleave.simps)

lemma interleave_pair:
  "interleave False (x # v6) (y # v4) = x # y # interleave False v6 v4"
  "interleave True (x # v6) (y # v4) = y # x # interleave True v6 v4"
  by (subst interleave.simps, subst interleave.simps, simp)+

lemma interleave_zip:
  "interleave (\<not> first6) v6 v4 =
     List.concat (map (\<lambda>(x, y). if first6 then [x, y] else [y, x]) (zip v6 v4))
     @ drop (length v4) v6 @ drop (length v6) v4"
proof (induction v6 arbitrary: v4)
  case (Cons x v6)
  show ?case
  proof (cases v4)
    case Nil
    then show ?thesis by (simp add: interleave_Nil_right)
  next
    case (Cons y r)
    then show ?thesis using Cons.IH [of r] by (cases first6) (auto simp: interleave_pair)
  qed
qed (simp add: interleave_Nil_left)

lemma set_interleave: "set (interleave p v6 v4) = set v6 \<union> set v4"
proof (induction p v6 v4 rule: interleave.induct)
  case (1 p v6 v4)
  then show ?case
    by (subst interleave.simps) (auto split: list.splits)
qed

lemma length_interleave: "length (interleave p v6 v4) = length v6 + length v4"
proof (induction p v6 v4 rule: interleave.induct)
  case (1 p v6 v4)
  then show ?case
    by (subst interleave.simps) (auto split: list.splits)
qed

text \<open>
  C39. Addresses are tried as RFC 8305 asks: the two families alternate, starting with IPv6 exactly when
  it is preferred, each family in the order of the answer, and the longer family's rest follows.
\<close>

theorem sort_socket_addrs_interleaves:
  "sort_socket_addrs addrs prefer_ipv6 =
     (let v6 = filter is_v6_addr addrs; v4 = filter (\<lambda>a. \<not> is_v6_addr a) addrs in
      List.concat (map (\<lambda>(x, y). if prefer_ipv6 then [x, y] else [y, x]) (zip v6 v4))
      @ drop (length v4) v6 @ drop (length v6) v4)"
  by (simp add: sort_socket_addrs_def interleave_zip Let_def)

lemma sort_socket_addrs_set: "set (sort_socket_addrs addrs p) = set addrs"
  by (auto simp: sort_socket_addrs_def set_interleave)

lemma sort_socket_addrs_length: "length (sort_socket_addrs addrs p) = length addrs"
  by (simp add: sort_socket_addrs_def length_interleave sum_length_filter_compl)

section \<open>Resolvers\<close>

datatype dns_protocol = DnsUdp | DnsHttps | DnsTls

record name_server_config =
  ns_addr :: socket_addr
  ns_protocol :: dns_protocol
  ns_tls_dns_name :: "string option"

datatype 'sys ns_source = SystemConf 'sys | NameServers "name_server_config list"

type_synonym so_mark = "u32 option"

record 'sys resolver_conf =
  rv_servers :: "'sys ns_source"
  rv_timeout :: duration
  rv_proxy :: "url option"
  rv_so_mark :: so_mark

datatype 'sys dns_resolver = System | TrustDns "'sys resolver_conf" bool

datatype rdata = HttpsRecord "bytes option list" | OtherRecord

text \<open>
  What the resolvers answer: \<open>tokio::net::lookup_host\<close>, \<open>Resolver::lookup_ip\<close>, the HTTPS records of a
  domain, and \<open>EchConfig::new\<close>.
\<close>

record ('sys, 'ech, 'e) dns_lib =
  d_system_lookup :: "string \<Rightarrow> (socket_addr list, 'e) result"
  d_lookup_ip :: "'sys resolver_conf \<Rightarrow> string \<Rightarrow> (ip_addr list, 'e) result"
  d_lookup_https :: "'sys resolver_conf \<Rightarrow> string \<Rightarrow> (rdata list, 'e) result"
  d_ech_new :: "bytes \<Rightarrow> 'ech option"

definition lookup_host ::
  "('sys, 'ech, 'e) dns_lib \<Rightarrow> 'sys dns_resolver \<Rightarrow> string \<Rightarrow> u16 \<Rightarrow> (socket_addr list, 'e) result" where
  "lookup_host D r domain port =
     (case r of
        System \<Rightarrow> d_system_lookup D (domain @ '':'' @ show_u16 port)
      | TrustDns conf prefer_ipv6 \<Rightarrow>
          and_then (d_lookup_ip D conf domain) (\<lambda>ips.
            Ok (sort_socket_addrs (map (\<lambda>ip. socket_addr_new ip port) ips) prefer_ipv6)))"

text \<open>\<open>None\<close> in a record's parameter list is a parameter that is not an ECH configuration.\<close>

definition https_params :: "rdata \<Rightarrow> bytes option list" where
  "https_params r = (case r of HttpsRecord ps \<Rightarrow> ps | OtherRecord \<Rightarrow> [])"

definition lookup_ech_config ::
  "('sys, 'ech, 'e) dns_lib \<Rightarrow> 'sys dns_resolver \<Rightarrow> host \<Rightarrow> ('ech option, 'e) result" where
  "lookup_ech_config D r h =
     (case r of
        System \<Rightarrow> Ok None
      | TrustDns conf _ \<Rightarrow>
         (case h of
            Domain domain \<Rightarrow>
              and_then (d_lookup_https D conf domain) (\<lambda>records.
                let configs = List.map_filter (\<lambda>p. Option.bind p (d_ech_new D))
                                (List.concat (map https_params records))
                in Ok (case configs of [] \<Rightarrow> None | c # _ \<Rightarrow> Some c))
          | _ \<Rightarrow> Ok None))"

datatype dns_error = InvalidDnsProtocol | MissingSni | InvalidDnsHost | DnsHostNotIp string

definition get_sni :: "url \<Rightarrow> (string, dns_error) result" where
  "get_sni u = ok_or MissingSni (map_option snd (List.find (\<lambda>kv. fst kv = ''sni'') (url_query_pairs u)))"

definition ns_sock_addr :: "(string \<Rightarrow> host option) \<Rightarrow> host \<Rightarrow> u16 \<Rightarrow> (socket_addr, dns_error) result" where
  "ns_sock_addr host_parse h port =
     (case h of
        Domain d \<Rightarrow>
          (case host_parse d of
             Some (Ipv4 ip) \<Rightarrow> Ok (SocketAddrV4 ip port)
           | Some (Ipv6 ip) \<Rightarrow> Ok (SocketAddrV6 ip port 0 0)
           | _ \<Rightarrow> Err (DnsHostNotIp d))
      | Ipv4 ip \<Rightarrow> Ok (SocketAddrV4 ip port)
      | Ipv6 ip \<Rightarrow> Ok (SocketAddrV6 ip port 0 0))"

definition url_to_ns_config :: "(string \<Rightarrow> host option) \<Rightarrow> url \<Rightarrow> (name_server_config, dns_error) result" where
  "url_to_ns_config host_parse u =
     and_then
       (if url_scheme u = ''dns'' then Ok (DnsUdp, unwrap_or 53 (url_port u), None)
        else if url_scheme u = ''dns+https'' then
          map_ok (\<lambda>sni. (DnsHttps, unwrap_or 443 (url_port u), Some sni)) (get_sni u)
        else if url_scheme u = ''dns+tls'' then
          map_ok (\<lambda>sni. (DnsTls, unwrap_or 853 (url_port u), Some sni)) (get_sni u)
        else Err InvalidDnsProtocol)
       (\<lambda>(protocol, port, tls_sni).
          and_then (ok_or InvalidDnsHost (url_host u)) (\<lambda>h.
          and_then (ns_sock_addr host_parse h port) (\<lambda>sock.
            Ok \<lparr>ns_addr = sock, ns_protocol = protocol, ns_tls_dns_name = tls_sni\<rparr>)))"

definition mk_resolver :: "'sys ns_source \<Rightarrow> url option \<Rightarrow> so_mark \<Rightarrow> 'sys resolver_conf" where
  "mk_resolver cfg proxy mark =
     \<lparr>rv_servers = cfg, rv_timeout = from_secs 1, rv_proxy = proxy, rv_so_mark = mark\<rparr>"

text \<open>\<open>system_conf\<close> is what \<open>read_system_conf\<close> returns.\<close>

definition new_from_urls ::
  "(string \<Rightarrow> host option) \<Rightarrow> 'sys option \<Rightarrow> url list \<Rightarrow> url option \<Rightarrow> so_mark \<Rightarrow> bool
   \<Rightarrow> ('sys dns_resolver, dns_error) result" where
  "new_from_urls host_parse system_conf resolvers proxy mark prefer_ipv6 =
     (if resolvers = [] then
        (case system_conf of
           None \<Rightarrow> Ok System
         | Some cfg \<Rightarrow> Ok (TrustDns (mk_resolver (SystemConf cfg) proxy mark) prefer_ipv6))
      else if list_ex (\<lambda>r. url_scheme r = ''system'') resolvers then Ok System
      else and_then (collect (map (url_to_ns_config host_parse) resolvers)) (\<lambda>nss.
        Ok (TrustDns (mk_resolver (NameServers nss) proxy mark) prefer_ipv6)))"

lemma ns_sock_addr_port: "ns_sock_addr host_parse h port = Ok a \<Longrightarrow> addr_port a = port"
  by (auto simp: ns_sock_addr_def split: host.splits option.splits)

lemma url_to_ns_config_Ok:
  "url_to_ns_config host_parse u = Ok ns \<Longrightarrow>
     url_scheme u \<in> {''dns'', ''dns+https'', ''dns+tls''} \<and>
     (ns_tls_dns_name ns = None \<longleftrightarrow> ns_protocol ns = DnsUdp) \<and>
     (\<forall>p. url_port u = Some p \<longrightarrow> addr_port (ns_addr ns) = p)"
  by (auto simp: url_to_ns_config_def result_simps dest: ns_sock_addr_port split: if_splits)

lemma lookup_host_port:
  assumes "lookup_host D (TrustDns conf p) domain port = Ok addrs" "a \<in> set addrs"
  shows "addr_port a = port"
  using assms by (auto simp: lookup_host_def result_simps sort_socket_addrs_set)

end
