(* ===== verification/Cli_Args.thy ===== *)
theory Cli_Args
  imports Http_Msg Dns
begin

text \<open>
  The command line (\<open>config.rs\<close>): the arguments of the client and of the server, and the parsers of
  their values.  \<open>url_parse\<close> is \<open>Url::parse\<close>, \<open>form_parse\<close> is \<open>form_urlencoded::parse\<close>, \<open>uuid_parse\<close> is
  \<open>Uuid::parse_str\<close>, \<open>dns_name\<close> is \<open>DnsName::try_from\<close>.
\<close>

section \<open>Arguments\<close>

definition DEFAULT_CLIENT_UPGRADE_PATH_PREFIX :: string where
  "DEFAULT_CLIENT_UPGRADE_PATH_PREFIX = ''v1''"

record local_to_remote =
  lr_protocol :: local_protocol
  lr_local :: socket_addr
  lr_remote :: "host \<times> u16"

record client_args =
  ca_local_to_remote :: "local_to_remote list"
  ca_remote_to_local :: "local_to_remote list"
  ca_socket_so_mark :: "u32 option"
  ca_connection_min_idle :: u32
  ca_connection_retry_max_backoff :: duration
  ca_reverse_tunnel_connection_retry_max_backoff :: duration
  ca_tls_sni_override :: "string option"
  ca_tls_sni_disable :: bool
  ca_tls_ech_enable :: bool
  ca_tls_verify_certificate :: bool
  ca_http_proxy :: "string option"
  ca_http_proxy_login :: "string option"
  ca_http_proxy_password :: "string option"
  ca_http_upgrade_path_prefix :: string
  ca_http_upgrade_credentials :: "string option"
  ca_websocket_ping_frequency :: "duration option"
  ca_websocket_mask_frame :: bool
  ca_http_headers :: "(string \<times> string) list"
  ca_http_headers_file :: "path option"
  ca_remote_addr :: url
  ca_tls_certificate :: "path option"
  ca_tls_private_key :: "path option"
  ca_dns_resolver :: "url list"
  ca_dns_resolver_prefer_ipv4 :: bool

record server_args =
  sa_remote_addr :: url
  sa_socket_so_mark :: "u32 option"
  sa_websocket_ping_frequency :: "duration option"
  sa_websocket_mask_frame :: bool
  sa_dns_resolver :: "url list"
  sa_dns_resolver_prefer_ipv4 :: bool
  sa_restrict_to :: "string list option"
  sa_restrict_http_upgrade_path_prefix :: "string list option"
  sa_restrict_config :: "path option"
  sa_tls_certificate :: "path option"
  sa_tls_private_key :: "path option"
  sa_tls_client_ca_certs :: "path option"
  sa_http_proxy :: "string option"
  sa_http_proxy_login :: "string option"
  sa_http_proxy_password :: "string option"
  sa_remote_to_local_server_idle_timeout :: duration
  sa_tunnel_resolver :: "url option"

datatype arg_error =
    BadDuration
  | BadIpv6Bind
  | BadBindPort
  | BadRemote
  | BadRemoteHost
  | BadRemotePort
  | BadProtocol
  | BadUnixPath
  | BadTunnelUuid
  | NotReversible local_protocol
  | BadSni
  | BadHeader
  | BadHeaderValue
  | BadCredentials
  | BadServerUrl
  | BadScheme
  | BadServerHost

section \<open>Durations\<close>

text \<open>
  The last character is taken by a slice of the bytes, which panics on an empty argument and inside a
  character of several bytes; the product of a debug build panics on overflow, the one of a release
  build wraps.
\<close>

definition is_char_boundary_last :: "string \<Rightarrow> bool" where
  "is_char_boundary_last s = (\<not> byte_in 128 191 (last s))"

definition mul_u64 :: "bool \<Rightarrow> u64 \<Rightarrow> u64 \<Rightarrow> u64 run" where
  "mul_u64 overflow_checks a b =
     (if overflow_checks \<and> 2 ^ 64 \<le> unat a * unat b then Panics ''attempt to multiply with overflow''
      else Returns (a * b))"

definition duration_unit :: "string \<Rightarrow> string \<times> u64" where
  "duration_unit arg =
     (let l = last arg in
      if l = CHR ''s'' then (butlast arg, 1)
      else if l = CHR ''m'' then (butlast arg, 60)
      else if l = CHR ''h'' then (butlast arg, 3600)
      else (arg, 1))"

definition parse_duration_sec :: "bool \<Rightarrow> string \<Rightarrow> (duration, arg_error) result run" where
  "parse_duration_sec overflow_checks arg =
     (if arg = [] then Panics ''slice index out of range''
      else if \<not> is_char_boundary_last arg then Panics ''byte index is not a char boundary''
      else (case duration_unit arg of (n, multiplier) \<Rightarrow>
        (case parse_u64 n of
           None \<Rightarrow> Returns (Err BadDuration)
         | Some secs \<Rightarrow>
             run_then (mul_u64 overflow_checks secs multiplier) (\<lambda>t. Returns (Ok (from_secs (unat t)))))))"

section \<open>Tunnels\<close>

definition parse_local_bind :: "string \<Rightarrow> (socket_addr \<times> string, arg_error) result" where
  "parse_local_bind arg =
     and_then
       (if starts_with ''['' arg then
          (case split_once CHR '']'' arg of
             None \<Rightarrow> Err BadIpv6Bind
           | Some (ipv6_str, remaining) \<Rightarrow>
               (case parse_ipv6 (tl ipv6_str) of
                  None \<Rightarrow> Err BadIpv6Bind
                | Some ip \<Rightarrow> Ok (V6 ip, remaining)))
        else
          (case unwrap_or (arg, []) (split_once CHR '':'' arg) of (ipv4_str, remaining) \<Rightarrow>
             (case parse_ipv4 ipv4_str of
                None \<Rightarrow> Ok (V4 0x7F000001, arg)
              | Some ip \<Rightarrow> Ok (V4 ip, remaining))))
       (\<lambda>(bind, remaining).
          let remaining = trim_start_matches CHR '':'' remaining in
          (case unwrap_or (remaining, []) (split_once_by (\<lambda>c. c \<in> {CHR '':'', CHR ''?''}) remaining) of
             (port_str, rest) \<Rightarrow>
               (case parse_u16 port_str of
                  None \<Rightarrow> Err BadBindPort
                | Some bind_port \<Rightarrow> Ok (socket_addr_new bind bind_port, rest))))"

text \<open>The options are a map, in which the last of several equal keys counts.\<close>

type_synonym options = "string \<rightharpoonup> string"

definition options_of :: "(string \<times> string) list \<Rightarrow> options" where
  "options_of ps = map_of (rev ps)"

definition parse_tunnel_dest ::
  "(string \<Rightarrow> url option) \<Rightarrow> string \<Rightarrow> (host \<times> u16 \<times> options, arg_error) result" where
  "parse_tunnel_dest url_parse remaining =
     (case url_parse (''https://'' @ remaining) of
        None \<Rightarrow> Err BadRemote
      | Some remote \<Rightarrow>
         (case url_host remote of
            None \<Rightarrow> Err BadRemoteHost
          | Some remote_host \<Rightarrow>
             (case url_port remote of
                Some remote_port \<Rightarrow> Ok (remote_host, remote_port, options_of (url_query_pairs remote))
              | None \<Rightarrow>
                  if ends_with '':443'' remaining \<or> contains_str '':443?'' remaining
                  then Ok (remote_host, 443, options_of (url_query_pairs remote))
                  else Err BadRemotePort)))"

definition get_timeout :: "options \<Rightarrow> duration option" where
  "get_timeout options =
     unwrap_or (Some (from_secs 30))
       (map_option (\<lambda>d. if d = 0 then None else Some (from_secs (unat d)))
          (Option.bind (options ''timeout_sec'') parse_u64))"

definition get_credentials :: "options \<Rightarrow> credentials option" where
  "get_credentials options =
     Option.bind (options ''login'') (\<lambda>login. map_option (\<lambda>p. (login, p)) (options ''password''))"

definition get_proxy_protocol :: "options \<Rightarrow> bool" where
  "get_proxy_protocol options = (options ''proxy_protocol'' \<noteq> None)"

text \<open>The two shapes of tunnel arguments with a local bind: with a destination, and with options only.\<close>

definition bind_and_dest ::
  "(string \<Rightarrow> url option) \<Rightarrow> (string \<Rightarrow> string) \<Rightarrow> (options \<Rightarrow> local_protocol) \<Rightarrow> string
   \<Rightarrow> (local_to_remote, arg_error) result" where
  "bind_and_dest url_parse dest_text protocol tunnel_info =
     and_then (parse_local_bind tunnel_info) (\<lambda>(local_bind, remaining).
     and_then (parse_tunnel_dest url_parse (dest_text remaining)) (\<lambda>(dest_host, dest_port, options).
       Ok \<lparr>lr_protocol = protocol options, lr_local = local_bind, lr_remote = (dest_host, dest_port)\<rparr>))"

definition options_only :: "string \<Rightarrow> string" where
  "options_only remaining = ''0.0.0.0:0?'' @ remaining"

record arg_lib =
  al_url :: "string \<Rightarrow> url option"
  al_form :: "string \<Rightarrow> (string \<times> string) list"
  al_uuid :: "string \<Rightarrow> u128 option"
  al_dns_name :: "string \<Rightarrow> string option"
  al_base64 :: "string \<Rightarrow> string"

definition parse_tunnel_id :: "arg_lib \<Rightarrow> string \<Rightarrow> (local_to_remote, arg_error) result" where
  "parse_tunnel_id L tunnel_info =
     (case unwrap_or (tunnel_info, []) (split_once CHR ''?'' tunnel_info) of (tunnel_id, query) \<Rightarrow>
        let tunnel_id = trim tunnel_id in
        if al_uuid L tunnel_id = None then Err BadTunnelUuid
        else (let options = (if query = [] then Map.empty else options_of (al_form L query)) in
          Ok \<lparr>lr_protocol = TunnelStdio (get_proxy_protocol options) (get_timeout options),
              lr_local = SocketAddrV4 0 0, lr_remote = (Domain tunnel_id, 0)\<rparr>))"

definition parse_tunnel_arg :: "arg_lib \<Rightarrow> string \<Rightarrow> (local_to_remote, arg_error) result" where
  "parse_tunnel_arg L arg =
     (case split_once_str ''://'' arg of
        None \<Rightarrow> Err BadProtocol
      | Some (proto, tunnel_info) \<Rightarrow>
          if proto = ''tcp'' then bind_and_dest (al_url L) id (\<lambda>opt. Tcp (get_proxy_protocol opt)) tunnel_info
          else if proto = ''udp'' then bind_and_dest (al_url L) id (\<lambda>opt. Udp (get_timeout opt)) tunnel_info
          else if proto = ''unix'' then
            (case split_once CHR '':'' tunnel_info of
               None \<Rightarrow> Err BadUnixPath
             | Some (path, remote) \<Rightarrow>
                 and_then (parse_tunnel_dest (al_url L) remote) (\<lambda>(dest_host, dest_port, options).
                   Ok \<lparr>lr_protocol = Unix path (get_proxy_protocol options), lr_local = SocketAddrV6 0 0 0 0,
                       lr_remote = (dest_host, dest_port)\<rparr>))
          else if proto = ''http'' then
            bind_and_dest (al_url L) options_only
              (\<lambda>opt. HttpProxy (get_timeout opt) (get_credentials opt) (get_proxy_protocol opt)) tunnel_info
          else if proto = ''socks5'' then
            bind_and_dest (al_url L) options_only (\<lambda>opt. Socks5 (get_timeout opt) (get_credentials opt)) tunnel_info
          else if proto = ''stdio'' then
            and_then (parse_tunnel_dest (al_url L) tunnel_info) (\<lambda>(dest_host, dest_port, options).
              Ok \<lparr>lr_protocol = Stdio (get_proxy_protocol options), lr_local = SocketAddrV4 0 0,
                  lr_remote = (dest_host, dest_port)\<rparr>)
          else if proto = ''tunnel'' then parse_tunnel_id L tunnel_info
          else if proto = ''tproxy+tcp'' then bind_and_dest (al_url L) options_only (\<lambda>_. TProxyTcp) tunnel_info
          else if proto = ''tproxy+udp'' then
            bind_and_dest (al_url L) options_only (\<lambda>opt. TProxyUdp (get_timeout opt)) tunnel_info
          else Err BadProtocol)"

fun reverse_of :: "local_protocol \<Rightarrow> local_protocol option" where
  "reverse_of (Tcp _) = Some ReverseTcp"
| "reverse_of (Udp t) = Some (ReverseUdp t)"
| "reverse_of (Socks5 t c) = Some (ReverseSocks5 t c)"
| "reverse_of (HttpProxy t c _) = Some (ReverseHttpProxy t c)"
| "reverse_of (Unix p _) = Some (ReverseUnix p)"
| "reverse_of _ = None"

definition parse_reverse_tunnel_arg :: "arg_lib \<Rightarrow> string \<Rightarrow> (local_to_remote, arg_error) result" where
  "parse_reverse_tunnel_arg L arg =
     and_then (parse_tunnel_arg L arg) (\<lambda>proto.
     and_then (ok_or (NotReversible (lr_protocol proto)) (reverse_of (lr_protocol proto))) (\<lambda>p.
       Ok \<lparr>lr_protocol = p, lr_local = lr_local proto, lr_remote = lr_remote proto\<rparr>))"

section \<open>Other values\<close>

definition parse_sni_override :: "arg_lib \<Rightarrow> string \<Rightarrow> (string, arg_error) result" where
  "parse_sni_override L arg = ok_or BadSni (al_dns_name L arg)"

text \<open>The name of a header is unwrapped.\<close>

definition parse_http_headers :: "http_lib \<Rightarrow> string \<Rightarrow> (string \<times> string, arg_error) result run" where
  "parse_http_headers H arg =
     (case split_once CHR '':'' arg of
        None \<Rightarrow> Returns (Err BadHeader)
      | Some (key, val) \<Rightarrow>
          if \<not> h_value_ok H (trim val) then Returns (Err BadHeaderValue)
          else run_then (expect ''called `Result::unwrap()` on an `Err` value'' (h_name H key)) (\<lambda>k.
            Returns (Ok (k, trim val))))"

definition parse_http_credentials :: "arg_lib \<Rightarrow> http_lib \<Rightarrow> string \<Rightarrow> (string, arg_error) result" where
  "parse_http_credentials L H arg =
     (let header = ''Basic '' @ al_base64 L (trim arg) in
      if h_value_ok H header then Ok header else Err BadCredentials)"

definition parse_server_url :: "arg_lib \<Rightarrow> string \<Rightarrow> (url, arg_error) result" where
  "parse_server_url L arg =
     (case al_url L arg of
        None \<Rightarrow> Err BadServerUrl
      | Some url \<Rightarrow>
          if \<not> list_ex (\<lambda>x. scheme_to_str x = url_scheme url) scheme_values then Err BadScheme
          else if url_host url = None then Err BadServerHost
          else Ok url)"

section \<open>Durations are read exactly, or wrap\<close>

lemma show_nat_last: "\<exists>d < 10. last (show_nat n) = digit_char d"
  using show_nat_digits [of "last (show_nat n)" n] by simp

lemma digit_char_not: "d < 10 \<Longrightarrow> of_char c < (48::nat) \<or> 57 < (of_char c :: nat) \<Longrightarrow> digit_char d \<noteq> c"
  using of_char_digit_char [of d] by auto

lemma parse_u64_show: "parse_u64 (show_nat (unat n)) = Some n"
  using unsigned_less [of n, where ?'a = nat] by (simp add: parse_u64_def parse_show_nat)

lemma duration_unit_show:
  assumes "(u, k) \<in> set [([], 1), (''s'', 1), (''m'', 60), (''h'', 3600)]"
  shows "duration_unit (show_nat n @ u) = (show_nat n, k)" "is_char_boundary_last (show_nat n @ u)"
proof -
  obtain d where d: "d < 10" "last (show_nat n) = digit_char d" using show_nat_last by blast
  have "digit_char d \<noteq> CHR ''s''" "digit_char d \<noteq> CHR ''m''" "digit_char d \<noteq> CHR ''h''"
    by (rule digit_char_not [OF d(1)], simp)+
  then show "duration_unit (show_nat n @ u) = (show_nat n, k)"
    using assms d by (auto simp: duration_unit_def Let_def butlast_append)
  have "\<not> byte_in 128 191 (digit_char d)" using d of_char_digit_char by (simp add: byte_in_def)
  then show "is_char_boundary_last (show_nat n @ u)"
    using assms d by (auto simp: is_char_boundary_last_def byte_in_def)
qed

text \<open>
  A duration written as a number with the unit s, m, h or none is read as that many seconds, minutes
  or hours, as long as the seconds fit 64 bits; beyond, a release build silently takes the seconds
  modulo \<open>2 ^ 64\<close> and a debug build panics.
\<close>

lemma parse_duration_sec_exact:
  fixes n :: u64
  assumes "(u, k) \<in> set [([], 1), (''s'', 1), (''m'', 60), (''h'', 3600)]"
  shows "parse_duration_sec checks (show_nat (unat n) @ u) =
     (if unat n * k < 2 ^ 64 then Returns (Ok (from_secs (unat n * k)))
      else if checks then Panics ''attempt to multiply with overflow''
      else Returns (Ok (from_secs ((unat n * k) mod 2 ^ 64))))"
proof -
  have u: "(u, of_nat k) \<in> set [([], 1 :: u64), (''s'', 1), (''m'', 60), (''h'', 3600)]" "unat (of_nat k :: u64) = k"
    using assms by auto
  note d = duration_unit_show [OF u(1), of "unat n"]
  have "unat (n * of_nat k) = (unat n * k) mod 2 ^ 64"
    using u(2) by (simp add: unat_word_ariths)
  then show ?thesis
    using d u(2) by (auto simp: parse_duration_sec_def parse_u64_show mul_u64_def)
qed

lemma parse_duration_sec_exact_instance:
  "parse_duration_sec True (show_nat (unat (5 :: u64)) @ ''m'') = Returns (Ok (from_secs 300))"
  using parse_duration_sec_exact [of "''m''" 60 True 5] by simp

section \<open>Tunnel arguments are read back\<close>

text \<open>The forms of a local bind: none, an IPv4 address, an IPv6 address in brackets.\<close>

datatype bind_form = NoBind | BindV4 string | BindV6 string

fun bind_text :: "bind_form \<Rightarrow> string" where
  "bind_text NoBind = []"
| "bind_text (BindV4 a) = a @ '':''"
| "bind_text (BindV6 a) = ''['' @ a @ '']:''"

fun bind_ip :: "bind_form \<Rightarrow> ip_addr option" where
  "bind_ip NoBind = Some (V4 0x7F000001)"
| "bind_ip (BindV4 a) = map_option V4 (parse_ipv4 a)"
| "bind_ip (BindV6 a) = (if CHR '']'' \<in> set a then None else map_option V6 (parse_ipv6 a))"

lemma to_digit_char: "to_digit 10 c \<noteq> None \<Longrightarrow> 48 \<le> (of_char c :: nat) \<and> (of_char c :: nat) \<le> 57"
  by (auto simp: to_digit_def hex_digit_def Let_def split: option.split_asm if_split_asm)

lemma parse_ipv4_no_char:
  assumes "parse_ipv4 s = Some ip" "c \<noteq> CHR ''.''" "of_char c < (48::nat) \<or> 57 < (of_char c :: nat)"
  shows "c \<notin> set s"
  using parse_ipv4_chars [OF assms(1)] to_digit_char [of c] assms(2, 3) by auto

lemma parse_ipv4_show_u16: "parse_ipv4 (show_u16 p) = None"
  using parse_ipv4_chars [of "show_u16 p"] show_u16_no_char [of "CHR ''.''" p] by (cases "parse_ipv4 (show_u16 p)") auto

lemma show_u16_hd: "\<exists>d < 10. \<exists>r. show_u16 p = digit_char d # r"
proof -
  obtain c r where c: "show_u16 p = c # r" by (cases "show_u16 p") (auto simp: show_u16_def)
  then have "c \<in> set (show_nat (unat p))" by (simp add: show_u16_def)
  then show ?thesis using show_nat_digits c by blast
qed

text \<open>Once the address is known, the port and the rest are read.\<close>

definition bind_port_of :: "ip_addr \<Rightarrow> string \<Rightarrow> (socket_addr \<times> string, arg_error) result" where
  "bind_port_of ip remaining =
     (let remaining = trim_start_matches CHR '':'' remaining in
      case unwrap_or (remaining, []) (split_once_by (\<lambda>c. c \<in> {CHR '':'', CHR ''?''}) remaining) of
        (port_str, rest) \<Rightarrow>
          (case parse_u16 port_str of None \<Rightarrow> Err BadBindPort | Some bp \<Rightarrow> Ok (socket_addr_new ip bp, rest)))"

lemma parse_local_bind_alt:
  "parse_local_bind arg =
     (if starts_with ''['' arg then
        (case split_once CHR '']'' arg of
           None \<Rightarrow> Err BadIpv6Bind
         | Some (s, r) \<Rightarrow> (case parse_ipv6 (tl s) of None \<Rightarrow> Err BadIpv6Bind | Some ip \<Rightarrow> bind_port_of (V6 ip) r))
      else
        (case unwrap_or (arg, []) (split_once CHR '':'' arg) of (s, r) \<Rightarrow>
           (case parse_ipv4 s of None \<Rightarrow> bind_port_of (V4 0x7F000001) arg | Some ip \<Rightarrow> bind_port_of (V4 ip) r)))"
  by (auto simp: parse_local_bind_def bind_port_of_def split: option.split prod.split)

lemma bind_port_of_show:
  assumes "sep \<in> {CHR '':'', CHR ''?''}" "xs \<in> {[], '':''}"
  shows "bind_port_of ip (xs @ show_u16 p @ sep # rest) = Ok (socket_addr_new ip p, rest)"
proof -
  obtain d r where d: "d < 10" "show_u16 p = digit_char d # r" using show_u16_hd by blast
  have "digit_char d \<noteq> CHR '':''" using d by (intro digit_char_not) simp_all
  then have t: "trim_start_matches CHR '':'' (xs @ show_u16 p @ sep # rest) = show_u16 p @ sep # rest"
    using assms(2) d by (auto simp: trim_start_matches_def)
  have "\<forall>x \<in> set (show_u16 p). \<not> x \<in> {CHR '':'', CHR ''?''}"
    using show_u16_no_char [of "CHR '':''" p] show_u16_no_char [of "CHR ''?''" p] by auto
  then have "split_once_by (\<lambda>c. c \<in> {CHR '':'', CHR ''?''}) (show_u16 p @ sep # rest) = Some (show_u16 p, rest)"
    using assms(1) by (rule split_once_append)
  then show ?thesis unfolding bind_port_of_def Let_def t by simp
qed

lemma parse_local_bind_text:
  assumes "bind_ip f = Some ip" "sep \<in> {CHR '':'', CHR ''?''}"
  shows "parse_local_bind (bind_text f @ show_u16 p @ sep # rest) = Ok (socket_addr_new ip p, rest)"
proof (cases f)
  case NoBind
  obtain d r where d: "d < 10" "show_u16 p = digit_char d # r" using show_u16_hd by blast
  have "digit_char d \<noteq> CHR ''[''" using d by (intro digit_char_not) simp_all
  then have nb: "\<not> starts_with ''['' (show_u16 p @ sep # rest)" using d by (simp add: starts_with_def)
  have "parse_ipv4 (fst (unwrap_or (show_u16 p @ sep # rest, []) (split_once CHR '':'' (show_u16 p @ sep # rest)))) = None"
  proof (cases "sep = CHR '':''")
    case True
    then have "split_once CHR '':'' (show_u16 p @ sep # rest) = Some (show_u16 p, rest)"
      using show_u16_no_char [of "CHR '':''" p] by (intro split_once_append) auto
    then show ?thesis by (simp add: parse_ipv4_show_u16)
  next
    case False
    then have q: "sep = CHR ''?''" using assms(2) by simp
    have "CHR ''?'' \<in> set (fst (unwrap_or (show_u16 p @ sep # rest, []) (split_once CHR '':'' (show_u16 p @ sep # rest))))"
    proof (cases "split_once CHR '':'' rest")
      case None
      then have "split_once CHR '':'' (show_u16 p @ sep # rest) = None"
        using show_u16_no_char [of "CHR '':''" p] q by (auto simp: split_once_by_None)
      then show ?thesis using q by simp
    next
      case (Some lr)
      obtain l r' where lr: "lr = (l, r')" by fastforce
      have "rest = l @ CHR '':'' # r' \<and> CHR '':'' \<notin> set l"
        using Some lr by (auto simp: split_once_by_Some)
      then have "split_once_by (\<lambda>x. x = CHR '':'') ((show_u16 p @ sep # l) @ CHR '':'' # r') = Some (show_u16 p @ sep # l, r')"
        using show_u16_no_char [of "CHR '':''" p] q by (intro split_once_append) auto
      then show ?thesis using \<open>rest = _ \<and> _\<close> q by simp
    qed
    then show ?thesis using parse_ipv4_no_char [where c = "CHR ''?''"] by fastforce
  qed
  then show ?thesis using assms NoBind nb bind_port_of_show [of sep "[]" ip p rest]
    by (auto simp: parse_local_bind_alt split: prod.split)
next
  case (BindV4 a)
  then obtain v where v: "parse_ipv4 a = Some v" "ip = V4 v" using assms by auto
  have "CHR '':'' \<notin> set a" "CHR ''['' \<notin> set a" using parse_ipv4_no_char [OF v(1)] by auto
  moreover have "a \<noteq> []" using parse_ipv4_chars [OF v(1)] by auto
  moreover have "split_once CHR '':'' (a @ CHR '':'' # (show_u16 p @ sep # rest)) = Some (a, show_u16 p @ sep # rest)"
    using \<open>CHR '':'' \<notin> set a\<close> by (intro split_once_append) auto
  ultimately show ?thesis
    using BindV4 v assms bind_port_of_show [of sep "[]" ip p rest]
    by (cases a) (auto simp: parse_local_bind_alt starts_with_def)
next
  case (BindV6 a)
  then obtain v where v: "parse_ipv6 a = Some v" "ip = V6 v" "CHR '']'' \<notin> set a" using assms by (auto split: if_splits)
  have "split_once CHR '']'' ((CHR ''['' # a) @ CHR '']'' # ('':'' @ show_u16 p @ sep # rest))
      = Some (CHR ''['' # a, '':'' @ show_u16 p @ sep # rest)"
    using v(3) by (intro split_once_append) auto
  then show ?thesis
    using BindV6 v assms bind_port_of_show [of sep "'':''" ip p rest]
    by (simp add: parse_local_bind_alt starts_with_def)
qed

lemma bind_and_dest_text:
  assumes "bind_ip f = Some ip" "parse_tunnel_dest U dest = Ok (h, q, opts)"
  shows "bind_and_dest U id pr (bind_text f @ show_u16 p @ '':'' @ dest) =
     Ok \<lparr>lr_protocol = pr opts, lr_local = socket_addr_new ip p, lr_remote = (h, q)\<rparr>"
  using parse_local_bind_text [OF assms(1), of "CHR '':''" p dest] assms(2) by (simp add: bind_and_dest_def)

lemma split_scheme: "CHR '':'' \<notin> set proto \<Longrightarrow> split_once_str ''://'' (proto @ ''://'' @ rest) = Some (proto, rest)"
  by (rule split_once_str_append) simp_all


text \<open>A URL library that knows one URL.\<close>

definition demo_arg_lib :: arg_lib where
  "demo_arg_lib =
     \<lparr>al_url = (\<lambda>s. if s = ''https://google.com:443''
        then Some \<lparr>url_scheme = ''https'', url_host = Some (Domain ''google.com''), url_port = None,
               url_port_or_known_default = Some 443, url_username = [], url_password = None,
               url_query_pairs = [], url_text = s\<rparr>
        else None),
      al_form = (\<lambda>_. []), al_uuid = (\<lambda>s. map_option of_nat (parse_uint (2 ^ 128) s)), al_dns_name = Some, al_base64 = id\<rparr>"

lemma demo_dest_parsed:
  "parse_tunnel_dest (al_url demo_arg_lib) ''google.com:443'' = Ok (Domain ''google.com'', 443, Map.empty)"
proof -
  have "ends_with '':443'' ''google.com:443''" by code_simp
  then show ?thesis by (simp add: parse_tunnel_dest_def demo_arg_lib_def options_of_def)
qed


section \<open>Directions\<close>

lemma parse_tunnel_arg_forward:
  assumes "parse_tunnel_arg L arg = Ok t"
  shows "\<not> is_reverse_tunnel (lr_protocol t)"
proof -
  have "\<not> is_reverse_tunnel (lr_protocol t)"
    if "bind_and_dest U d pr s = Ok t" "\<And>opt. \<not> is_reverse_tunnel (pr opt)" for U d pr s
    using that by (auto simp: bind_and_dest_def result_simps split: prod.split_asm)
  note b = this
  show ?thesis
    using assms
    by (auto simp: parse_tunnel_arg_def parse_tunnel_id_def Let_def result_simps
        split: option.split_asm prod.split_asm if_split_asm dest!: b)
qed

lemma parse_reverse_tunnel_arg_reverse:
  "parse_reverse_tunnel_arg L arg = Ok t \<Longrightarrow> is_reverse_tunnel (lr_protocol t)"
  by (auto simp: parse_reverse_tunnel_arg_def result_simps elim!: reverse_of.elims)

text \<open>A header argument with a valid value and an invalid name is not refused, it panics.\<close>

lemma parse_http_headers_panics:
  assumes "split_once CHR '':'' arg = Some (key, val)" "h_value_ok H (trim val)" "h_name H key = None"
  shows "\<exists>m. parse_http_headers H arg = Panics m"
  using assms by (simp add: parse_http_headers_def)

end
