(* ===== verification/Restrictions.thy ===== *)
theory Restrictions
  imports Tunnel
begin

text \<open>
  Access restrictions: the rules of \<open>restrictions/types.rs\<close>, their construction from the command line
  (\<open>RestrictionsRules::from_path_prefix\<close>), their field parsers, and the check a server runs on every
  tunnel request (\<open>tunnel/server/utils.rs\<close>).  The crates \<open>regex\<close> and \<open>ipnet\<close> are the parameter
  \<open>L\<close>; the facts about them that a lemma needs are collected in \<open>match_lib_ok\<close>.
\<close>

section \<open>The libraries the rules use\<close>

record ('re, 'net) match_lib =
  re_new :: "string \<Rightarrow> 're option"
  re_escape :: "string \<Rightarrow> string"
  re_is_match :: "'re \<Rightarrow> string \<Rightarrow> bool"
  net_new :: "ip_addr \<Rightarrow> nat \<Rightarrow> 'net option"
  net_contains :: "'net \<Rightarrow> ip_addr \<Rightarrow> bool"
  net_v4_default :: 'net
  net_v6_default :: 'net

section \<open>Rules\<close>

type_synonym port_range = "u16 \<times> u16"

datatype 're match_config =
    Any
  | PathPrefix 're
  | Authorization 're

datatype tunnel_config_protocol = TunnelTcp | TunnelUdp | TunnelUnknown

datatype reverse_tunnel_config_protocol =
  RevTcp | RevUdp | RevSocks5 | RevUnix | RevHttpProxy | RevUnknown

record ('re, 'net) allow_tunnel_config =
  at_protocol :: "tunnel_config_protocol list"
  at_port :: "port_range list"
  at_host :: 're
  at_cidr :: "'net list"

record ('re, 'net) allow_reverse_tunnel_config =
  art_protocol :: "reverse_tunnel_config_protocol list"
  art_port :: "port_range list"
  art_port_mapping :: "u16 \<rightharpoonup> u16"
  art_cidr :: "'net list"
  art_unix_path :: 're

datatype ('re, 'net) allow_config =
    AllowReverseTunnel "('re, 'net) allow_reverse_tunnel_config"
  | AllowTunnel "('re, 'net) allow_tunnel_config"

record ('re, 'net) restriction_config =
  rc_name :: string
  rc_match :: "'re match_config list"
  rc_allow :: "('re, 'net) allow_config list"

type_synonym ('re, 'net) restrictions_rules = "('re, 'net) restriction_config list"

fun reverse_protocol_of :: "local_protocol \<Rightarrow> reverse_tunnel_config_protocol" where
  "reverse_protocol_of ReverseTcp = RevTcp"
| "reverse_protocol_of (ReverseUdp _) = RevUdp"
| "reverse_protocol_of (ReverseSocks5 _ _) = RevSocks5"
| "reverse_protocol_of (ReverseUnix _) = RevUnix"
| "reverse_protocol_of (ReverseHttpProxy _ _) = RevHttpProxy"
| "reverse_protocol_of _ = RevUnknown"

fun tunnel_protocol_of :: "local_protocol \<Rightarrow> tunnel_config_protocol" where
  "tunnel_protocol_of (Tcp _) = TunnelTcp"
| "tunnel_protocol_of (Udp _) = TunnelUdp"
| "tunnel_protocol_of _ = TunnelUnknown"

section \<open>Field parsers of the configuration file\<close>

datatype de_error = ParseIntError | InvalidPortMapping string | EmptyList

definition de_u16 :: "string \<Rightarrow> (u16, de_error) result" where
  "de_u16 s = ok_or ParseIntError (parse_u16 s)"

definition port_range_of :: "string \<Rightarrow> (port_range, de_error) result" where
  "port_range_of s =
     (case split_once_str ''..'' s of
        Some (l, r) \<Rightarrow> and_then (de_u16 l) (\<lambda>a. and_then (de_u16 r) (\<lambda>b. Ok (a, b)))
      | None \<Rightarrow> and_then (de_u16 s) (\<lambda>p. Ok (p, p)))"

definition deserialize_port_range :: "string list \<Rightarrow> (port_range list, de_error) result" where
  "deserialize_port_range ss = collect (map port_range_of ss)"

definition port_mapping_of :: "string \<Rightarrow> (u16 \<times> u16, de_error) result" where
  "port_mapping_of s =
     (let parts = split CHR '':'' s in
      if length parts \<noteq> 2 then Err (InvalidPortMapping s)
      else and_then (de_u16 (parts ! 0)) (\<lambda>a. and_then (de_u16 (parts ! 1)) (\<lambda>b. Ok (a, b))))"

text \<open>Collecting pairs into a \<open>HashMap\<close>: the last pair for a key stays.\<close>

definition deserialize_port_mapping :: "string list \<Rightarrow> (u16 \<rightharpoonup> u16, de_error) result" where
  "deserialize_port_mapping ss = map_ok (\<lambda>ps. map_of (rev ps)) (collect (map port_mapping_of ss))"

definition deserialize_non_empty_vec :: "'a list \<Rightarrow> ('a list, de_error) result" where
  "deserialize_non_empty_vec v = (if v = [] then Err EmptyList else Ok v)"

section \<open>Rules from the command line\<close>

datatype rules_error = RegexError | PrefixLenError

definition default_host :: "('re, 'net) match_lib \<Rightarrow> 're run" where
  "default_host L = expect ''Regex::new'' (re_new L ''^.*$'')"

definition default_cidr :: "('re, 'net) match_lib \<Rightarrow> 'net list" where
  "default_cidr L = [net_v4_default L, net_v6_default L]"

definition regex_for :: "('re, 'net) match_lib \<Rightarrow> string \<Rightarrow> ('re, rules_error) result" where
  "regex_for L p = ok_or RegexError (re_new L p)"

definition restrict_to_entry ::
  "('re, 'net) match_lib \<Rightarrow> string \<times> u16 \<Rightarrow> (('re, 'net) allow_config list, rules_error) result" where
  "restrict_to_entry L hp =
     (case hp of (h, port) \<Rightarrow>
       (case parse_ip h of
          Some ip \<Rightarrow>
            and_then (regex_for L ''^$'') (\<lambda>re.
            and_then (ok_or PrefixLenError (net_new L ip (if is_ipv4 ip then 32 else 128))) (\<lambda>net.
              Ok [AllowTunnel \<lparr>at_protocol = [], at_port = [(port, port)], at_host = re, at_cidr = [net]\<rparr>]))
        | None \<Rightarrow>
            and_then (regex_for L (''^'' @ re_escape L h @ ''$'')) (\<lambda>re.
              Ok [AllowTunnel \<lparr>at_protocol = [], at_port = [(port, port)], at_host = re, at_cidr = []\<rparr>])))"

definition tunnels_restrictions ::
  "('re, 'net) match_lib \<Rightarrow> (string \<times> u16) list \<Rightarrow> (('re, 'net) allow_config list, rules_error) result run" where
  "tunnels_restrictions L restrict_to =
     (if restrict_to = [] then
        run_then (default_host L) (\<lambda>hre.
        run_then (default_host L) (\<lambda>ure.
          Returns (Ok
            [AllowTunnel \<lparr>at_protocol = [], at_port = [], at_host = hre, at_cidr = default_cidr L\<rparr>,
             AllowReverseTunnel
               \<lparr>art_protocol = [], art_port = [], art_port_mapping = Map.empty,
                art_cidr = default_cidr L, art_unix_path = ure\<rparr>])))
      else Returns (map_ok List.concat (collect (map (restrict_to_entry L) restrict_to))))"

definition path_prefix_rule ::
  "('re, 'net) match_lib \<Rightarrow> ('re, 'net) allow_config list \<Rightarrow> string \<Rightarrow> (('re, 'net) restriction_config, rules_error) result" where
  "path_prefix_rule L allow p =
     and_then (regex_for L (''^'' @ re_escape L p @ ''$'')) (\<lambda>re.
       Ok \<lparr>rc_name = ''Allow path prefix '' @ p, rc_match = [PathPrefix re], rc_allow = allow\<rparr>)"

definition from_path_prefix ::
  "('re, 'net) match_lib \<Rightarrow> string list \<Rightarrow> (string \<times> u16) list
   \<Rightarrow> (('re, 'net) restrictions_rules, rules_error) result run" where
  "from_path_prefix L path_prefixes restrict_to =
     run_then (tunnels_restrictions L restrict_to) (\<lambda>res.
       Returns (and_then res (\<lambda>allow.
         if path_prefixes = [] then
           Ok [\<lparr>rc_name = ''Allow All'', rc_match = [Any], rc_allow = allow\<rparr>]
         else collect (map (path_prefix_rule L allow) path_prefixes))))"

section \<open>The check of a request\<close>

definition in_range :: "port_range \<Rightarrow> u16 \<Rightarrow> bool" where
  "in_range r p = (fst r \<le> p \<and> p \<le> snd r)"

text \<open>The \<open>find_map\<close> of \<open>find_mapped_port\<close>.\<close>

fun find_port_mapping :: "('re, 'net) allow_config list \<Rightarrow> u16 \<Rightarrow> u16 option" where
  "find_port_mapping [] p = None"
| "find_port_mapping (AllowReverseTunnel a # as) p =
     (case art_port_mapping a p of Some q \<Rightarrow> Some q | None \<Rightarrow> find_port_mapping as p)"
| "find_port_mapping (AllowTunnel a # as) p = find_port_mapping as p"

definition find_mapped_port :: "u16 \<Rightarrow> ('re, 'net) restriction_config \<Rightarrow> u16" where
  "find_mapped_port req_port r = unwrap_or req_port (find_port_mapping (rc_allow r) req_port)"

fun match_one :: "('re, 'net) match_lib \<Rightarrow> string \<Rightarrow> string option \<Rightarrow> 're match_config \<Rightarrow> bool" where
  "match_one L path_prefix auth Any = True"
| "match_one L path_prefix auth (PathPrefix re) = re_is_match L re path_prefix"
| "match_one L path_prefix auth (Authorization re) =
     (case auth of None \<Rightarrow> False | Some v \<Rightarrow> re_is_match L re v)"

definition restriction_filter ::
  "('re, 'net) match_lib \<Rightarrow> ('re, 'net) restriction_config \<Rightarrow> string \<Rightarrow> string option \<Rightarrow> bool" where
  "restriction_filter L r path_prefix auth = list_all (match_one L path_prefix auth) (rc_match r)"

definition invalid_unix_path :: string where
  "invalid_unix_path = ''####INVALID_UNIX_PATH####''"

definition reverse_is_allowed ::
  "('re, 'net) match_lib \<Rightarrow> ('re, 'net) allow_reverse_tunnel_config \<Rightarrow> remote_addr \<Rightarrow> bool" where
  "reverse_is_allowed L a remote =
     (if \<not> is_reverse_tunnel (ra_protocol remote) then False
      else (case ra_protocol remote of
        ReverseUnix p \<Rightarrow> re_is_match L (art_unix_path a) (unwrap_or invalid_unix_path (utf8_to_str p))
      | _ \<Rightarrow>
         if art_port a \<noteq> [] \<and> \<not> list_ex (\<lambda>r. in_range r (ra_port remote)) (art_port a) then False
         else if art_protocol a \<noteq> []
                 \<and> reverse_protocol_of (ra_protocol remote) \<notin> set (art_protocol a) then False
         else (case ra_host remote of
                 Domain _ \<Rightarrow> False
               | Ipv4 ip \<Rightarrow> list_ex (\<lambda>c. net_contains L c (V4 ip)) (art_cidr a)
               | Ipv6 ip \<Rightarrow> list_ex (\<lambda>c. net_contains L c (V6 ip)) (art_cidr a))))"

definition tunnel_is_allowed ::
  "('re, 'net) match_lib \<Rightarrow> ('re, 'net) allow_tunnel_config \<Rightarrow> remote_addr \<Rightarrow> bool" where
  "tunnel_is_allowed L a remote =
     (if is_reverse_tunnel (ra_protocol remote) then False
      else if at_port a \<noteq> [] \<and> \<not> list_ex (\<lambda>r. in_range r (ra_port remote)) (at_port a) then False
      else if at_protocol a \<noteq> []
              \<and> tunnel_protocol_of (ra_protocol remote) \<notin> set (at_protocol a) then False
      else (case ra_host remote of
              Domain h \<Rightarrow> re_is_match L (at_host a) h
            | Ipv4 ip \<Rightarrow> list_ex (\<lambda>c. net_contains L c (V4 ip)) (at_cidr a)
            | Ipv6 ip \<Rightarrow> list_ex (\<lambda>c. net_contains L c (V6 ip)) (at_cidr a)))"

fun is_allowed :: "('re, 'net) match_lib \<Rightarrow> remote_addr \<Rightarrow> ('re, 'net) allow_config \<Rightarrow> bool" where
  "is_allowed L remote (AllowReverseTunnel a) = reverse_is_allowed L a remote"
| "is_allowed L remote (AllowTunnel a) = tunnel_is_allowed L a remote"

definition validate_tunnel ::
  "('re, 'net) match_lib \<Rightarrow> remote_addr \<Rightarrow> string \<Rightarrow> string option \<Rightarrow> ('re, 'net) restrictions_rules
   \<Rightarrow> ('re, 'net) restriction_config option" where
  "validate_tunnel L remote path_prefix auth rules =
     List.find (\<lambda>r. list_ex (is_allowed L remote) (rc_allow r))
       (filter (\<lambda>r. restriction_filter L r path_prefix auth) rules)"

datatype path_prefix_err = BadPathPrefix | BadUpgradeRequest

definition extract_path_prefix :: "string \<Rightarrow> (string, path_prefix_err) result" where
  "extract_path_prefix path =
     (if \<not> starts_with ''/'' path then Err BadPathPrefix
      else (case split_once CHR ''/'' (tl path) of
              None \<Rightarrow> Err BadUpgradeRequest
            | Some (l, r) \<Rightarrow> if ends_with ''events'' r then Ok l else Err BadUpgradeRequest))"

section \<open>What a rule grants\<close>

text \<open>A rule grants a request when all its matchers accept it and one of its allow entries admits it.\<close>

definition rule_grants ::
  "('re, 'net) match_lib \<Rightarrow> remote_addr \<Rightarrow> string \<Rightarrow> string option \<Rightarrow> ('re, 'net) restriction_config \<Rightarrow> bool" where
  "rule_grants L remote path_prefix auth r \<longleftrightarrow>
     (\<forall>m \<in> set (rc_match r). match_one L path_prefix auth m) \<and>
     (\<exists>a \<in> set (rc_allow r). is_allowed L remote a)"

lemma find_filter: "List.find P (filter Q xs) = List.find (\<lambda>x. Q x \<and> P x) xs"
  by (induction xs) auto

lemma find_Some_split:
  "List.find P xs = Some x \<longleftrightarrow> (\<exists>ys zs. xs = ys @ x # zs \<and> P x \<and> (\<forall>y \<in> set ys. \<not> P y))"
proof (induction xs)
  case (Cons a xs)
  show ?case
  proof (cases "P a")
    case True
    then show ?thesis by (auto simp: Cons_eq_append_conv)
  next
    case False
    have "(\<exists>ys zs. a # xs = ys @ x # zs \<and> P x \<and> (\<forall>y \<in> set ys. \<not> P y))
       \<longleftrightarrow> (\<exists>ys zs. xs = ys @ x # zs \<and> P x \<and> (\<forall>y \<in> set ys. \<not> P y))" (is "?l \<longleftrightarrow> ?r")
    proof
      assume ?l then show ?r using False by (auto simp: Cons_eq_append_conv)
    next
      assume ?r then obtain ys zs where "xs = ys @ x # zs" "P x" "\<forall>y \<in> set ys. \<not> P y" by blast
      with False have "a # xs = (a # ys) @ x # zs \<and> P x \<and> (\<forall>y \<in> set (a # ys). \<not> P y)" by simp
      then show ?l by blast
    qed
    with Cons False show ?thesis by simp
  qed
qed simp

lemma validate_tunnel_find:
  "validate_tunnel L remote pp auth rules = List.find (rule_grants L remote pp auth) rules"
  by (simp add: validate_tunnel_def find_filter rule_grants_def restriction_filter_def
      list_all_iff list_ex_iff cong: List.find_cong)

lemma validate_tunnel_granted:
  "validate_tunnel L remote pp auth rules \<noteq> None \<longleftrightarrow> (\<exists>r \<in> set rules. rule_grants L remote pp auth r)"
  by (auto simp: validate_tunnel_find find_None_iff)

lemma in_cidrs:
  "(case h of Domain d \<Rightarrow> P d | Ipv4 ip \<Rightarrow> list_ex (\<lambda>c. net_contains L c (V4 ip)) cs
            | Ipv6 ip \<Rightarrow> list_ex (\<lambda>c. net_contains L c (V6 ip)) cs)
   \<longleftrightarrow> (case host_ip h of None \<Rightarrow> (\<exists>d. h = Domain d \<and> P d) | Some ip \<Rightarrow> (\<exists>c \<in> set cs. net_contains L c ip))"
  by (cases h) (auto simp: list_ex_iff)

lemma reverse_is_allowed_reverse: "reverse_is_allowed L a remote \<Longrightarrow> is_reverse_tunnel (ra_protocol remote)"
  by (auto simp: reverse_is_allowed_def split: if_splits)

lemma tunnel_is_allowed_forward: "tunnel_is_allowed L a remote \<Longrightarrow> \<not> is_reverse_tunnel (ra_protocol remote)"
  by (auto simp: tunnel_is_allowed_def split: if_splits)

lemma tunnel_is_allowed_iff:
  "tunnel_is_allowed L a remote \<longleftrightarrow>
     \<not> is_reverse_tunnel (ra_protocol remote) \<and>
     (at_port a = [] \<or> (\<exists>r \<in> set (at_port a). in_range r (ra_port remote))) \<and>
     (at_protocol a = [] \<or> tunnel_protocol_of (ra_protocol remote) \<in> set (at_protocol a)) \<and>
     (case host_ip (ra_host remote) of
        None \<Rightarrow> (\<exists>d. ra_host remote = Domain d \<and> re_is_match L (at_host a) d)
      | Some ip \<Rightarrow> (\<exists>c \<in> set (at_cidr a). net_contains L c ip))"
  unfolding tunnel_is_allowed_def in_cidrs by (auto simp: list_ex_iff)

lemma reverse_is_allowed_iff:
  assumes "\<And>p. ra_protocol remote \<noteq> ReverseUnix p"
  shows "reverse_is_allowed L a remote \<longleftrightarrow>
     is_reverse_tunnel (ra_protocol remote) \<and>
     (art_port a = [] \<or> (\<exists>r \<in> set (art_port a). in_range r (ra_port remote))) \<and>
     (art_protocol a = [] \<or> reverse_protocol_of (ra_protocol remote) \<in> set (art_protocol a)) \<and>
     (\<exists>ip. host_ip (ra_host remote) = Some ip \<and> (\<exists>c \<in> set (art_cidr a). net_contains L c ip))"
  using assms unfolding reverse_is_allowed_def in_cidrs
  by (cases "ra_protocol remote") (auto simp: list_ex_iff split: option.splits)

section \<open>Rules from the command line, as a policy\<close>

text \<open>Documented behaviour of \<open>regex\<close> and \<open>ipnet\<close> that the rules rely on.\<close>

definition newline :: char where
  "newline = byte 10"

definition match_lib_ok :: "('re, 'net) match_lib \<Rightarrow> bool" where
  "match_lib_ok L \<longleftrightarrow>
     (\<forall>t r s. re_new L (''^'' @ re_escape L t @ ''$'') = Some r \<longrightarrow> re_is_match L r s = (s = t)) \<and>
     re_escape L [] = [] \<and>
     (\<exists>r. re_new L ''^.*$'' = Some r) \<and>
     (\<forall>r s. re_new L ''^.*$'' = Some r \<longrightarrow> re_is_match L r s = (newline \<notin> set s)) \<and>
     (\<forall>ip n a. net_new L ip (if is_ipv4 ip then 32 else 128) = Some n \<longrightarrow> net_contains L n a = (a = ip)) \<and>
     (\<forall>a. net_contains L (net_v4_default L) a = is_ipv4 a) \<and>
     (\<forall>a. net_contains L (net_v6_default L) a = is_ipv6 a)"

text \<open>
  The policy the two command-line options stand for.  Without \<open>--restrict-to\<close> every tunnel is open
  (up to names that contain a line break, which \<open>^.*$\<close> does not match, and reverse tunnels bound to
  a domain name); with it, only forward tunnels to one of the destinations.
\<close>

definition open_policy :: "remote_addr \<Rightarrow> bool" where
  "open_policy remote =
     (if is_reverse_tunnel (ra_protocol remote) then
        (case ra_protocol remote of
           ReverseUnix p \<Rightarrow> newline \<notin> set (unwrap_or invalid_unix_path (utf8_to_str p))
         | _ \<Rightarrow> host_ip (ra_host remote) \<noteq> None)
      else (case ra_host remote of Domain d \<Rightarrow> newline \<notin> set d | _ \<Rightarrow> True))"

definition destination_matches :: "remote_addr \<Rightarrow> string \<times> u16 \<Rightarrow> bool" where
  "destination_matches remote hp =
     (ra_port remote = snd hp \<and>
      (case parse_ip (fst hp) of
         Some ip \<Rightarrow> host_ip (ra_host remote) = Some ip \<or> ra_host remote = Domain []
       | None \<Rightarrow> ra_host remote = Domain (fst hp)))"

definition cli_policy :: "string list \<Rightarrow> (string \<times> u16) list \<Rightarrow> string \<Rightarrow> remote_addr \<Rightarrow> bool" where
  "cli_policy path_prefixes restrict_to pp remote =
     ((path_prefixes = [] \<or> pp \<in> set path_prefixes) \<and>
      (if restrict_to = [] then open_policy remote
       else \<not> is_reverse_tunnel (ra_protocol remote) \<and> list_ex (destination_matches remote) restrict_to))"

lemma match_lib_okD:
  assumes "match_lib_ok L"
  shows match_lib_literal: "re_new L (''^'' @ re_escape L t @ ''$'') = Some r \<Longrightarrow> re_is_match L r s \<longleftrightarrow> s = t"
    and match_lib_empty: "re_new L ''^$'' = Some r \<Longrightarrow> re_is_match L r s \<longleftrightarrow> s = []"
    and match_lib_any: "re_new L ''^.*$'' = Some r \<Longrightarrow> re_is_match L r s \<longleftrightarrow> newline \<notin> set s"
    and match_lib_single: "net_new L ip (if is_ipv4 ip then 32 else 128) = Some n \<Longrightarrow> net_contains L n a \<longleftrightarrow> a = ip"
    and match_lib_v4: "net_contains L (net_v4_default L) a \<longleftrightarrow> is_ipv4 a"
    and match_lib_v6: "net_contains L (net_v6_default L) a \<longleftrightarrow> is_ipv6 a"
proof -
  show "re_is_match L r s \<longleftrightarrow> s = []" if "re_new L ''^$'' = Some r"
    using assms that unfolding match_lib_ok_def
    by (elim conjE allE [where x = "[]"]) simp
qed (use assms in \<open>simp_all add: match_lib_ok_def\<close>)

lemma host_ip_None: "host_ip h = None \<longleftrightarrow> (\<exists>d. h = Domain d)"
  by (cases h) auto

lemma in_range_single [simp]: "in_range (p, p) q \<longleftrightarrow> q = p"
  by (auto simp: in_range_def)

lemma restrict_to_entry_grants:
  assumes "match_lib_ok L" "restrict_to_entry L hp = Ok as"
  shows "(\<exists>a \<in> set as. is_allowed L remote a)
    \<longleftrightarrow> \<not> is_reverse_tunnel (ra_protocol remote) \<and> destination_matches remote hp"
proof (cases "parse_ip (fst hp)")
  case None
  then show ?thesis
    using assms(2) match_lib_literal [OF assms(1), of "fst hp"]
    by (cases hp; cases "ra_host remote")
       (auto simp: restrict_to_entry_def regex_for_def result_simps destination_matches_def tunnel_is_allowed_iff)
next
  case (Some ip)
  then show ?thesis
    using assms(2) match_lib_empty [OF assms(1)] match_lib_single [OF assms(1), of ip]
    by (cases hp; cases "ra_host remote")
       (auto simp: restrict_to_entry_def regex_for_def result_simps destination_matches_def tunnel_is_allowed_iff)
qed

lemma tunnels_restrictions_grants:
  assumes "match_lib_ok L" "tunnels_restrictions L restrict_to = Returns (Ok as)"
  shows "(\<exists>a \<in> set as. is_allowed L remote a) \<longleftrightarrow> cli_policy [] restrict_to pp remote"
proof (cases "restrict_to = []")
  case True
  then obtain re where re: "re_new L ''^.*$'' = Some re" and as: "as =
      [AllowTunnel \<lparr>at_protocol = [], at_port = [], at_host = re, at_cidr = default_cidr L\<rparr>,
       AllowReverseTunnel \<lparr>art_protocol = [], art_port = [], art_port_mapping = Map.empty,
          art_cidr = default_cidr L, art_unix_path = re\<rparr>]"
    using assms(2) by (auto simp: tunnels_restrictions_def default_host_def result_simps)
  have cidr: "(\<exists>c \<in> set (default_cidr L). net_contains L c ip)" for ip
    by (auto simp: default_cidr_def match_lib_v4 [OF assms(1)] match_lib_v6 [OF assms(1)])
  show ?thesis
  proof (cases "\<exists>p. ra_protocol remote = ReverseUnix p")
    case True
    then show ?thesis using \<open>restrict_to = []\<close>
      by (auto simp: as cli_policy_def open_policy_def reverse_is_allowed_def tunnel_is_allowed_def match_lib_any [OF assms(1) re])
  next
    case False
    then show ?thesis using \<open>restrict_to = []\<close> cidr
      by (cases "ra_host remote"; cases "ra_protocol remote")
         (auto simp: as cli_policy_def open_policy_def reverse_is_allowed_iff tunnel_is_allowed_iff match_lib_any [OF assms(1) re])
  qed
next
  case False
  then obtain ass where ass: "map (restrict_to_entry L) restrict_to = map Ok ass" and as: "as = List.concat ass"
    using assms(2) by (auto simp: tunnels_restrictions_def result_simps collect_Ok)
  have "(\<exists>a \<in> set as. is_allowed L remote a) \<longleftrightarrow> (\<exists>as' \<in> set ass. \<exists>a \<in> set as'. is_allowed L remote a)"
    by (auto simp: as)
  also have "\<dots> \<longleftrightarrow> (\<exists>hp \<in> set restrict_to. \<not> is_reverse_tunnel (ra_protocol remote) \<and> destination_matches remote hp)"
    unfolding map_Ok_ex [OF ass] using map_Ok_all [OF ass] restrict_to_entry_grants [OF assms(1)] by metis
  finally show ?thesis using False by (auto simp: cli_policy_def list_ex_iff)
qed

text \<open>
  C6. A request is granted by the first rule of the list that grants it: the matchers of that rule all
  accept the path prefix and the authorization header, one of its allow entries admits the remote
  address, and no earlier rule does so.
\<close>

theorem validate_tunnel_first_match:
  "validate_tunnel L remote pp auth rules = Some r \<longleftrightarrow>
     (\<exists>before after. rules = before @ r # after \<and> rule_grants L remote pp auth r \<and>
        \<not> list_ex (rule_grants L remote pp auth) before)"
  by (simp add: validate_tunnel_find find_Some_split list_ex_iff)

text \<open>
  Forward and reverse tunnels are separated: the entry that admits a reverse tunnel is a
  \<open>ReverseTunnel\<close> entry and the one that admits a forward tunnel is a \<open>Tunnel\<close> entry of the rule.
\<close>

lemma validate_tunnel_direction:
  assumes "validate_tunnel L remote pp auth rules = Some r"
  shows "\<exists>a \<in> set (rc_allow r). is_allowed L remote a \<and>
           (is_reverse_tunnel (ra_protocol remote) \<longleftrightarrow> (\<exists>c. a = AllowReverseTunnel c))"
proof -
  obtain a where a: "a \<in> set (rc_allow r)" "is_allowed L remote a"
    using assms by (auto simp: validate_tunnel_find find_Some_split rule_grants_def)
  moreover have "is_reverse_tunnel (ra_protocol remote) \<longleftrightarrow> (\<exists>c. a = AllowReverseTunnel c)"
    using a(2) by (cases a) (auto dest: reverse_is_allowed_reverse tunnel_is_allowed_forward)
  ultimately show ?thesis by blast
qed

lemma from_path_prefix_grants:
  assumes "match_lib_ok L" and "from_path_prefix L path_prefixes restrict_to = Returns (Ok rules)"
  shows "validate_tunnel L remote pp auth rules \<noteq> None \<longleftrightarrow> cli_policy path_prefixes restrict_to pp remote"
proof -
  obtain as where as: "tunnels_restrictions L restrict_to = Returns (Ok as)"
    and rules: "(if path_prefixes = [] then
           Ok [\<lparr>rc_name = ''Allow All'', rc_match = [Any], rc_allow = as\<rparr>]
         else collect (map (path_prefix_rule L as) path_prefixes)) = Ok rules"
    using assms(2) by (auto simp: from_path_prefix_def result_simps)
  note grants = tunnels_restrictions_grants [OF assms(1) as, of remote pp]
  show ?thesis
  proof (cases "path_prefixes = []")
    case True
    then have "cli_policy path_prefixes restrict_to pp remote \<longleftrightarrow> (\<exists>a \<in> set as. is_allowed L remote a)"
      using grants by simp
    then show ?thesis using rules True
      unfolding validate_tunnel_granted by (auto simp: rule_grants_def)
  next
    case False
    then have m: "map (path_prefix_rule L as) path_prefixes = map Ok rules"
      using rules by (simp add: collect_Ok)
    have "(\<exists>r. path_prefix_rule L as p = Ok r \<and> rule_grants L remote pp auth r) \<longleftrightarrow>
        pp = p \<and> (\<exists>a \<in> set as. is_allowed L remote a)" if "p \<in> set path_prefixes" for p
      using map_Ok_all [OF m that] match_lib_literal [OF assms(1), of p]
      by (auto simp: path_prefix_rule_def regex_for_def result_simps rule_grants_def)
    moreover have "cli_policy path_prefixes restrict_to pp remote \<longleftrightarrow>
        pp \<in> set path_prefixes \<and> (\<exists>a \<in> set as. is_allowed L remote a)"
      using False unfolding grants by (simp add: cli_policy_def)
    ultimately show ?thesis
      unfolding validate_tunnel_granted map_Ok_ex [OF m] by blast
  qed
qed

text \<open>
  The rules built from \<open>--restrict-http-upgrade-path-prefix\<close> and \<open>--restrict-to\<close> implement
  exactly the policy those options stand for: the path prefix is one of the given ones (or none was
  given), and the destination is one of the given host and port pairs (or none was given).
\<close>

lemma from_path_prefix_policy:
  assumes "match_lib_ok L" and "from_path_prefix L path_prefixes restrict_to = Returns (Ok rules)"
  shows "validate_tunnel L remote pp auth rules \<noteq> None \<longleftrightarrow> cli_policy path_prefixes restrict_to pp remote"
  using from_path_prefix_grants [OF assms] .

section \<open>A concrete instance of the libraries\<close>

text \<open>
  The two shapes of expression the rules build, anchored literals and \<open>^.*$\<close>, and networks as an
  address with a prefix length; used to evaluate the definitions on concrete requests.
\<close>

datatype lit_re = AnyLine | Literal string

definition meta_char :: "char \<Rightarrow> bool" where
  "meta_char c = (c \<in> set (byte 92 # ''.+*?()|[]{}^$#&-~''))"

definition lit_escape :: "string \<Rightarrow> string" where
  "lit_escape s = List.concat (map (\<lambda>c. if meta_char c then [byte 92, c] else [c]) s)"

fun lit_unescape :: "string \<Rightarrow> string option" where
  "lit_unescape [] = Some []"
| "lit_unescape (c # s) =
     (if c = byte 92 then (case s of [] \<Rightarrow> None | d # s' \<Rightarrow> map_option ((#) d) (lit_unescape s'))
      else if meta_char c then None
      else map_option ((#) c) (lit_unescape s))"

definition lit_new :: "string \<Rightarrow> lit_re option" where
  "lit_new p =
     (if p = ''^.*$'' then Some AnyLine
      else if p \<noteq> [] \<and> hd p = CHR ''^'' \<and> last p = CHR ''$''
      then map_option Literal (lit_unescape (butlast (tl p))) else None)"

fun lit_match :: "lit_re \<Rightarrow> string \<Rightarrow> bool" where
  "lit_match AnyLine s = (newline \<notin> set s)"
| "lit_match (Literal t) s = (s = t)"

fun cidr_contains :: "ip_addr \<times> nat \<Rightarrow> ip_addr \<Rightarrow> bool" where
  "cidr_contains (V4 n, len) (V4 a) = (drop_bit (32 - len) a = drop_bit (32 - len) n)"
| "cidr_contains (V6 n, len) (V6 a) = (drop_bit (128 - len) a = drop_bit (128 - len) n)"
| "cidr_contains _ _ = False"

definition demo_lib :: "(lit_re, ip_addr \<times> nat) match_lib" where
  "demo_lib =
     \<lparr>re_new = lit_new, re_escape = lit_escape, re_is_match = lit_match,
      net_new = (\<lambda>ip len. if len \<le> (if is_ipv4 ip then 32 else 128) then Some (ip, len) else None),
      net_contains = cidr_contains, net_v4_default = (V4 0, 0), net_v6_default = (V6 0, 0)\<rparr>"

lemma lit_unescape_escape [simp]: "lit_unescape (lit_escape s) = Some s"
proof (induction s)
  case (Cons c s)
  have "meta_char (byte 92)" by (simp add: meta_char_def)
  with Cons show ?case by (auto simp: lit_escape_def)
qed (simp add: lit_escape_def)

lemma lit_new_literal: "lit_new (''^'' @ lit_escape t @ ''$'') = Some (Literal t)"
proof -
  have "lit_unescape ''.*'' = None" by code_simp
  then have "lit_escape t \<noteq> ''.*''" by (metis lit_unescape_escape option.distinct(1))
  then show ?thesis by (simp add: lit_new_def butlast_append append_eq_Cons_conv)
qed

lemma cidr_contains_single:
  "cidr_contains (ip, if is_ipv4 ip then 32 else 128) a \<longleftrightarrow> a = ip"
  by (cases ip; cases a) auto

lemma cidr_contains_default:
  "cidr_contains (V4 0, 0) a \<longleftrightarrow> is_ipv4 a" "cidr_contains (V6 0, 0) a \<longleftrightarrow> is_ipv6 a"
  by (cases a; simp add: drop_bit_word_beyond)+

lemma demo_lib_ok: "match_lib_ok demo_lib"
  unfolding match_lib_ok_def demo_lib_def
  using lit_new_literal cidr_contains_single cidr_contains_default
  by (auto simp: lit_escape_def lit_new_def)

definition demo_rules :: "(lit_re, ip_addr \<times> nat) restrictions_rules" where
  "demo_rules =
     [\<lparr>rc_name = ''Allow path prefix v1'', rc_match = [PathPrefix (Literal ''v1'')],
       rc_allow =
         [AllowTunnel \<lparr>at_protocol = [], at_port = [(443, 443)], at_host = Literal ''google.com'', at_cidr = []\<rparr>,
          AllowTunnel \<lparr>at_protocol = [], at_port = [(22, 22)], at_host = Literal [], at_cidr = [(V4 0x0A000001, 32)]\<rparr>]\<rparr>]"

definition demo_remote :: remote_addr where
  "demo_remote = \<lparr>ra_protocol = Tcp False, ra_host = Domain ''google.com'', ra_port = 443\<rparr>"

lemma demo_rules_from_cli:
  "from_path_prefix demo_lib [''v1''] [(''google.com'', 443), (''10.0.0.1'', 22)] = Returns (Ok demo_rules)"
proof -
  have "lit_new ''^$'' = Some (Literal [])" by code_simp
  moreover have "parse_ip ''google.com'' = None" "parse_ip ''10.0.0.1'' = Some (V4 0x0A000001)" by code_simp+
  moreover note lit_new_literal [of "''google.com''"] lit_new_literal [of "''v1''"]
  ultimately show ?thesis
    by (simp add: from_path_prefix_def tunnels_restrictions_def restrict_to_entry_def path_prefix_rule_def
        regex_for_def demo_rules_def demo_lib_def)
qed

lemma demo_remote_granted: "validate_tunnel demo_lib demo_remote ''v1'' None demo_rules = Some (hd demo_rules)"
  by (simp add: validate_tunnel_find rule_grants_def demo_rules_def demo_remote_def demo_lib_def
      tunnel_is_allowed_def in_range_def)

lemma validate_tunnel_direction_instance:
  "\<exists>a \<in> set (rc_allow (hd demo_rules)). is_allowed demo_lib demo_remote a \<and>
     (is_reverse_tunnel (ra_protocol demo_remote) \<longleftrightarrow> (\<exists>c. a = AllowReverseTunnel c))"
  by (rule validate_tunnel_direction [OF demo_remote_granted])

lemma from_path_prefix_policy_instance:
  "(validate_tunnel demo_lib demo_remote ''v1'' None demo_rules \<noteq> None) \<and>
   (validate_tunnel demo_lib demo_remote ''v2'' None demo_rules = None)"
  using from_path_prefix_policy [OF demo_lib_ok demo_rules_from_cli, of demo_remote "''v1''" None]
    from_path_prefix_policy [OF demo_lib_ok demo_rules_from_cli, of demo_remote "''v2''" None]
    demo_remote_granted
  by (simp add: cli_policy_def)

section \<open>Ports of the configuration file\<close>

definition range_text :: "port_range \<Rightarrow> string" where
  "range_text r = (if fst r = snd r then show_u16 (fst r) else show_u16 (fst r) @ ''..'' @ show_u16 (snd r))"

definition mapping_text :: "u16 \<times> u16 \<Rightarrow> string" where
  "mapping_text m = show_u16 (fst m) @ '':'' @ show_u16 (snd m)"

lemma port_range_of_text: "port_range_of (range_text r) = Ok r"
proof -
  have dot: "CHR ''.'' \<notin> set (show_u16 p)" for p by (rule show_u16_no_char) simp
  then have "split_once_str ''..'' (show_u16 p @ ''..'' @ show_u16 q) = Some (show_u16 p, show_u16 q)" for p q
    by (intro split_once_str_append) auto
  moreover have "split_once_str ''..'' (show_u16 p) = None" for p
    using dot by (intro split_once_str_None) auto
  ultimately show ?thesis
    by (cases r) (auto simp: range_text_def port_range_of_def de_u16_def)
qed

lemma port_mapping_of_text: "port_mapping_of (mapping_text m) = Ok m"
proof -
  have "CHR '':'' \<notin> set (show_u16 p)" for p by (rule show_u16_no_char) simp
  then have "split CHR '':'' (mapping_text m) = [show_u16 (fst m), show_u16 (snd m)]"
    by (simp add: mapping_text_def split_two_iff)
  then show ?thesis by (simp add: port_mapping_of_def de_u16_def)
qed

text \<open>
  The port ranges of a configuration file are inclusive: a list written as ports and \<open>l..r\<close> is read
  back as it was written, and the ports it admits are those between the two bounds, both included.
\<close>

lemma deserialize_port_range_roundtrip:
  "deserialize_port_range (map range_text rs) = Ok rs \<and>
   list_ex (\<lambda>r. in_range r p) rs = (\<exists>l u. (l, u) \<in> set rs \<and> unat l \<le> unat p \<and> unat p \<le> unat u)"
  by (simp add: deserialize_port_range_def comp_def port_range_of_text list_ex_iff in_range_def word_le_nat_alt
      Bex_def split_paired_Ex)

text \<open>
  A list of \<open>from:to\<close> entries is read as the map with these entries, the last entry for a port
  winning, and a port with no entry is not mapped.
\<close>

lemma deserialize_port_mapping_roundtrip:
  "deserialize_port_mapping (map mapping_text ms) = Ok (map_of (rev ms))"
  by (simp add: deserialize_port_mapping_def comp_def port_mapping_of_text)

lemma find_port_mapping_unmapped:
  "find_port_mapping as p = None \<longleftrightarrow> (\<forall>a. AllowReverseTunnel a \<in> set as \<longrightarrow> art_port_mapping a p = None)"
  by (induction as p rule: find_port_mapping.induct) (auto split: option.splits)

lemma find_port_mapping_Some:
  "find_port_mapping as p = Some q \<Longrightarrow> \<exists>a. AllowReverseTunnel a \<in> set as \<and> art_port_mapping a p = Some q"
  by (induction as p rule: find_port_mapping.induct) (auto split: option.splits)

section \<open>The path of an upgrade request\<close>

lemma extract_path_prefix_Ok:
  "extract_path_prefix path = Ok l \<longleftrightarrow>
     (\<exists>r. path = ''/'' @ l @ ''/'' @ r \<and> CHR ''/'' \<notin> set l \<and> suffix ''events'' r)"
proof (cases path)
  case (Cons c cs)
  have "extract_path_prefix path = Ok l \<longleftrightarrow>
      c = CHR ''/'' \<and> (\<exists>r. split_once CHR ''/'' cs = Some (l, r) \<and> suffix ''events'' r)"
    by (auto simp: Cons extract_path_prefix_def starts_with_def ends_with_def split: option.splits if_splits)
  also have "\<dots> \<longleftrightarrow> (\<exists>r. path = ''/'' @ l @ ''/'' @ r \<and> CHR ''/'' \<notin> set l \<and> suffix ''events'' r)"
    unfolding split_once_by_Some Cons by simp blast
  finally show ?thesis .
qed (simp add: extract_path_prefix_def starts_with_def)

text \<open>
  A path is accepted exactly when it is a slash, a segment without slash, a slash and a rest that
  ends with \<open>events\<close>; the prefix that is checked against the rules is that segment.
\<close>

lemma extract_path_prefix_iff:
  "extract_path_prefix path = Ok l \<longleftrightarrow>
     (\<exists>r. path = ''/'' @ l @ ''/'' @ r \<and> CHR ''/'' \<notin> set l \<and> suffix ''events'' r)"
  by (rule extract_path_prefix_Ok)

end
