(* ===== verification/Resolver.thy ===== *)
theory Resolver
  imports Http_Msg Dns
begin

text \<open>
  Tunnel identifiers: the registry of the tunnel server (crate \<open>tunnel-server\<close>: \<open>state.rs\<close>,
  \<open>watcher.rs\<close>, \<open>api.rs\<close>), fed by pod events, and the lookup a wstunnel server makes in it
  (\<open>tunnel/server/tunnel_resolver.rs\<close>).  HTTP, YAML and URL handling are the parameters \<open>R\<close>.
\<close>

section \<open>The registry\<close>

record tunnel_entry =
  te_host :: string
  te_port :: u16
  te_upload_m :: "u16 option"
  te_download_m :: "u16 option"

type_synonym registry = "u128 \<rightharpoonup> tunnel_entry"

record pod_status =
  ps_pod_ip :: "string option"
  ps_phase :: "string option"

record pod =
  pod_name :: "string option"
  pod_annotations :: "(string \<rightharpoonup> string) option"
  pod_status_of :: "pod_status option"
  pod_deletion_timestamp :: "string option"

definition ANN_TUNNEL_ID :: string where
  "ANN_TUNNEL_ID = ''wstunnel.io/tunnel-id''"
definition ANN_TUNNEL_PORT :: string where
  "ANN_TUNNEL_PORT = ''wstunnel.io/tunnel-port''"
definition ANN_TUNNEL_RATE_LIMIT :: string where
  "ANN_TUNNEL_RATE_LIMIT = ''wstunnel.io/tunnel-rate-limit''"
definition ANN_TUNNEL_RATE_LIMIT_UPLOAD :: string where
  "ANN_TUNNEL_RATE_LIMIT_UPLOAD = ''wstunnel.io/tunnel-rate-limit-upload''"
definition ANN_TUNNEL_RATE_LIMIT_DOWNLOAD :: string where
  "ANN_TUNNEL_RATE_LIMIT_DOWNLOAD = ''wstunnel.io/tunnel-rate-limit-download''"
definition DEFAULT_TUNNEL_PORT :: u16 where
  "DEFAULT_TUNNEL_PORT = 22"
definition MAX_RATE_LIMIT_M :: u16 where
  "MAX_RATE_LIMIT_M = 10"

definition parse_rate_limit :: "string option \<Rightarrow> u16 option" where
  "parse_rate_limit v = map_option (\<lambda>n. min n MAX_RATE_LIMIT_M) (Option.bind v (\<lambda>s. parse_u16 (trim s)))"

definition pod_ip :: "pod \<Rightarrow> string" where
  "pod_ip p = unwrap_or [] (Option.bind (pod_status_of p) ps_pod_ip)"

definition pod_is_running :: "pod \<Rightarrow> bool" where
  "pod_is_running p = (Option.bind (pod_status_of p) ps_phase = Some ''Running'')"

definition pod_entry :: "pod \<Rightarrow> (string \<rightharpoonup> string) \<Rightarrow> tunnel_entry" where
  "pod_entry p ann =
     (let legacy = parse_rate_limit (ann ANN_TUNNEL_RATE_LIMIT) in
      \<lparr>te_host = pod_ip p,
       te_port = unwrap_or DEFAULT_TUNNEL_PORT (Option.bind (ann ANN_TUNNEL_PORT) parse_u16),
       te_upload_m = or_else (parse_rate_limit (ann ANN_TUNNEL_RATE_LIMIT_UPLOAD)) legacy,
       te_download_m = or_else (parse_rate_limit (ann ANN_TUNNEL_RATE_LIMIT_DOWNLOAD)) legacy\<rparr>)"

definition handle_pod_event :: "(string \<Rightarrow> u128 option) \<Rightarrow> registry \<Rightarrow> pod \<Rightarrow> registry" where
  "handle_pod_event uuid_parse m p =
     (case pod_annotations p of
        None \<Rightarrow> m
      | Some ann \<Rightarrow>
         (case ann ANN_TUNNEL_ID of
            None \<Rightarrow> m
          | Some id_str \<Rightarrow>
             (case uuid_parse id_str of
                None \<Rightarrow> m
              | Some tunnel_id \<Rightarrow>
                  if pod_ip p = [] \<or> \<not> pod_is_running p \<or> pod_deletion_timestamp p \<noteq> None
                  then m(tunnel_id := None)
                  else m(tunnel_id \<mapsto> pod_entry p ann))))"

text \<open>The watch stream: pods, errors, and its end.\<close>

datatype 'e pod_event = PodApplied pod | PodStreamEnded | PodStreamError 'e

fun watch_pods :: "(string \<Rightarrow> u128 option) \<Rightarrow> registry \<Rightarrow> 'e pod_event list \<Rightarrow> registry" where
  "watch_pods uuid_parse m [] = m"
| "watch_pods uuid_parse m (PodApplied p # es) = watch_pods uuid_parse (handle_pod_event uuid_parse m p) es"
| "watch_pods uuid_parse m (PodStreamEnded # es) = m"
| "watch_pods uuid_parse m (PodStreamError e # es) = watch_pods uuid_parse m es"

definition rate_line :: "string \<Rightarrow> u16 option \<Rightarrow> string" where
  "rate_line name v = (case v of None \<Rightarrow> [] | Some m \<Rightarrow> name @ '': '' @ show_u16 m @ [byte 10])"

definition tunnel_body :: "tunnel_entry \<Rightarrow> string" where
  "tunnel_body e =
     ''host: '' @ te_host e @ [byte 10] @ ''port: '' @ show_u16 (te_port e) @ [byte 10]
     @ rate_line ''rate_limit_upload_m'' (te_upload_m e) @ rate_line ''rate_limit_download_m'' (te_download_m e)"

definition get_tunnel :: "registry \<Rightarrow> u128 \<Rightarrow> response" where
  "get_tunnel m uuid =
     (case m uuid of
        None \<Rightarrow> \<lparr>rs_status = 404, rs_headers = [], rs_body = []\<rparr>
      | Some e \<Rightarrow>
          \<lparr>rs_status = 200, rs_headers = [(''content-type'', ''text/yaml; charset=utf-8'')], rs_body = tunnel_body e\<rparr>)"

section \<open>The lookup\<close>

record tunnel_endpoint =
  ep_host :: host
  ep_port :: u16
  ep_upload_m :: "u16 option"
  ep_download_m :: "u16 option"

record tunnel_endpoint_response =
  er_host :: string
  er_port :: u16
  er_upload_m :: "u16 option"
  er_download_m :: "u16 option"
  er_rate_limit_m :: "u16 option"

text \<open>
  \<open>r_push\<close> appends a path segment to a URL (\<open>None\<close> if it cannot be a base), \<open>r_uri\<close> parses the URI,
  \<open>r_get\<close> is the answer to a GET request with an optional authorization header (status and body), and
  \<open>r_yaml\<close> reads the answer.
\<close>

record 'e resolver_lib =
  r_push :: "url \<Rightarrow> string \<Rightarrow> url option"
  r_uri :: "string \<Rightarrow> string option"
  r_get :: "string \<Rightarrow> string option \<Rightarrow> (nat \<times> (string, 'e) result, 'e) result"
  r_yaml :: "string \<Rightarrow> tunnel_endpoint_response option"

datatype 'e resolve_error =
    NotHttp string
  | CannotAppendPath
  | InvalidUri
  | RequestFailed 'e
  | Rejected nat string
  | BodyFailed 'e
  | BadYaml
  | EmptyHost

definition parse_host :: "string \<Rightarrow> host option" where
  "parse_host s =
     (let h = trim s in
      if h = [] then None
      else (case parse_ip h of
              Some (V4 ip) \<Rightarrow> Some (Ipv4 ip)
            | Some (V6 ip) \<Rightarrow> Some (Ipv6 ip)
            | None \<Rightarrow> Some (Domain h)))"

definition cap_rate :: "u16 option \<Rightarrow> u16 option" where
  "cap_rate v = map_option (\<lambda>n. min n 10) v"

definition read_endpoint :: "'e resolver_lib \<Rightarrow> string \<Rightarrow> (tunnel_endpoint, 'e resolve_error) result" where
  "read_endpoint R body =
     (case r_yaml R (unwrap_or [] (utf8_to_str body)) of
        None \<Rightarrow> Err BadYaml
      | Some p \<Rightarrow>
          and_then (ok_or EmptyHost (parse_host (er_host p))) (\<lambda>h.
            Ok \<lparr>ep_host = h, ep_port = er_port p,
                ep_upload_m = cap_rate (or_else (er_upload_m p) (er_rate_limit_m p)),
                ep_download_m = cap_rate (or_else (er_download_m p) (er_rate_limit_m p))\<rparr>))"

definition resolve_tunnel_over_http ::
  "http_lib \<Rightarrow> token_lib \<Rightarrow> 'e resolver_lib \<Rightarrow> url \<Rightarrow> u128 \<Rightarrow> string option
   \<Rightarrow> (tunnel_endpoint, 'e resolve_error) result run" where
  "resolve_tunnel_over_http H J R base uuid authorization =
     (if url_scheme base \<noteq> ''http'' then Returns (Err (NotHttp (url_scheme base)))
      else (case r_push R base (j_uuid_to_string J uuid) of
        None \<Rightarrow> Returns (Err CannotAppendPath)
      | Some u \<Rightarrow>
         (case r_uri R (url_text u) of
            None \<Rightarrow> Returns (Err InvalidUri)
          | Some uri \<Rightarrow>
             (let auth = (case authorization of Some a \<Rightarrow> if a \<noteq> [] then Some a else None | None \<Rightarrow> None) in
              if (case auth of Some a \<Rightarrow> \<not> h_value_ok H a | None \<Rightarrow> False)
              then Panics ''failed to build resolver request''
              else Returns
                (case r_get R uri auth of
                   Err e \<Rightarrow> Err (RequestFailed e)
                 | Ok (status, body) \<Rightarrow>
                    (case body of
                       Err e \<Rightarrow> Err (BodyFailed e)
                     | Ok b \<Rightarrow>
                        if \<not> (200 \<le> status \<and> status < 300) then Err (Rejected status b)
                        else read_endpoint R b))))))"

section \<open>Entries of the registry\<close>

definition entry_ok :: "tunnel_entry \<Rightarrow> bool" where
  "entry_ok e \<longleftrightarrow> te_host e \<noteq> [] \<and>
     (case te_upload_m e of None \<Rightarrow> True | Some n \<Rightarrow> n \<le> 10) \<and>
     (case te_download_m e of None \<Rightarrow> True | Some n \<Rightarrow> n \<le> 10)"

lemma parse_rate_limit_le: "parse_rate_limit v = Some n \<Longrightarrow> n \<le> 10"
  by (auto simp: parse_rate_limit_def MAX_RATE_LIMIT_M_def)

lemma pod_entry_ok: "pod_ip p \<noteq> [] \<Longrightarrow> entry_ok (pod_entry p ann)"
  by (auto simp: entry_ok_def pod_entry_def Let_def or_else_eq split: option.splits dest: parse_rate_limit_le)

lemma handle_pod_event_ok:
  "(\<forall>t e. m t = Some e \<longrightarrow> entry_ok e) \<Longrightarrow> handle_pod_event up m p t = Some e \<Longrightarrow> entry_ok e"
  by (auto simp: handle_pod_event_def pod_entry_ok split: option.splits if_splits)

text \<open>
  Whatever pod events arrive, every tunnel of the registry has a host and rates of at most 10 MiB/s.
\<close>

lemma registry_entries_ok:
  assumes "watch_pods uuid_parse Map.empty es t = Some e"
  shows "entry_ok e"
proof -
  have keep: "(\<forall>t e. m t = Some e \<longrightarrow> entry_ok e) \<Longrightarrow> watch_pods uuid_parse m es t = Some e \<Longrightarrow> entry_ok e" for m
  proof (induction uuid_parse m es rule: watch_pods.induct)
    case (2 up m p es)
    then show ?case by (metis handle_pod_event_ok watch_pods.simps(2))
  qed auto
  show ?thesis by (rule keep [OF _ assms]) simp
qed

definition pod_tunnel_id :: "(string \<Rightarrow> u128 option) \<Rightarrow> pod \<Rightarrow> u128 option" where
  "pod_tunnel_id uuid_parse p =
     Option.bind (Option.bind (pod_annotations p) (\<lambda>ann. ann ANN_TUNNEL_ID)) uuid_parse"

text \<open>
  A pod that is replaced takes its successor's tunnel down: once the successor with the same tunnel
  identifier is registered, the event of the old pod that ends (deleted, or no longer running) removes
  the entry, although the successor is running.
\<close>

lemma ended_pod_removes_successor:
  assumes "pod_tunnel_id uuid_parse old = Some t" "pod_tunnel_id uuid_parse new = Some t"
    and "pod_ip new \<noteq> []" "pod_is_running new" "pod_deletion_timestamp new = None"
    and "pod_deletion_timestamp old \<noteq> None \<or> \<not> pod_is_running old"
  shows "watch_pods uuid_parse m [PodApplied new] t \<noteq> None \<and>
         watch_pods uuid_parse m [PodApplied new, PodApplied old] t = None"
  using assms by (auto simp: pod_tunnel_id_def handle_pod_event_def bind_eq_Some_conv)

definition demo_pod :: "string \<Rightarrow> string option \<Rightarrow> pod" where
  "demo_pod ip del =
     \<lparr>pod_name = Some ''p'', pod_annotations = Some [ANN_TUNNEL_ID \<mapsto> ''7'', ANN_TUNNEL_RATE_LIMIT \<mapsto> '' 99 ''],
      pod_status_of = Some \<lparr>ps_pod_ip = Some ip, ps_phase = Some ''Running''\<rparr>, pod_deletion_timestamp = del\<rparr>"

definition demo_uuid_parse :: "string \<Rightarrow> u128 option" where
  "demo_uuid_parse s = map_option of_nat (parse_uint (2 ^ 128) s)"

lemma demo_uuid_parse_7: "demo_uuid_parse ''7'' = Some 7"
  by code_simp

lemma demo_pod_facts:
  "pod_tunnel_id demo_uuid_parse (demo_pod ip del) = Some 7" "pod_is_running (demo_pod ip del)"
  "pod_ip (demo_pod ip del) = ip" "pod_deletion_timestamp (demo_pod ip del) = del"
  by (simp_all add: pod_tunnel_id_def demo_pod_def demo_uuid_parse_7 pod_is_running_def pod_ip_def
      ANN_TUNNEL_ID_def ANN_TUNNEL_RATE_LIMIT_def)

lemma demo_entry:
  "watch_pods demo_uuid_parse Map.empty [PodApplied (demo_pod ''10.0.0.5'' None)] 7 =
     Some \<lparr>te_host = ''10.0.0.5'', te_port = 22, te_upload_m = Some 10, te_download_m = Some 10\<rparr>"
proof -
  have "parse_rate_limit (Some '' 99 '') = Some 10" by code_simp
  then show ?thesis
    by (simp add: handle_pod_event_def demo_pod_def demo_uuid_parse_7 pod_is_running_def pod_ip_def pod_entry_def
        Let_def parse_rate_limit_def [of None] DEFAULT_TUNNEL_PORT_def
        ANN_TUNNEL_ID_def ANN_TUNNEL_RATE_LIMIT_def ANN_TUNNEL_PORT_def
        ANN_TUNNEL_RATE_LIMIT_UPLOAD_def ANN_TUNNEL_RATE_LIMIT_DOWNLOAD_def)
qed

lemma registry_entries_ok_instance:
  "entry_ok \<lparr>te_host = ''10.0.0.5'', te_port = 22, te_upload_m = Some 10, te_download_m = Some 10\<rparr>"
  by (rule registry_entries_ok [OF demo_entry])

lemma ended_pod_removes_successor_instance:
  "watch_pods demo_uuid_parse Map.empty [PodApplied (demo_pod ''10.0.0.6'' None)] 7 \<noteq> None \<and>
   watch_pods demo_uuid_parse Map.empty
     [PodApplied (demo_pod ''10.0.0.6'' None), PodApplied (demo_pod ''10.0.0.5'' (Some ''t''))] 7 = None"
  by (rule ended_pod_removes_successor) (simp_all add: demo_pod_facts)

section \<open>From the registry to the server\<close>

lemma cap_rate_le: "(case v of None \<Rightarrow> True | Some n \<Rightarrow> n \<le> 10) \<Longrightarrow> cap_rate v = v"
  by (cases v) (auto simp: cap_rate_def min_def)

lemma tunnel_body_utf8: "valid_utf8 (te_host e) \<Longrightarrow> valid_utf8 (tunnel_body e)"
proof -
  have lit: "valid_utf8 ''host: ''" "valid_utf8 ''port: ''" "valid_utf8 [byte 10]" "valid_utf8 '': ''"
    "valid_utf8 ''rate_limit_upload_m''" "valid_utf8 ''rate_limit_download_m''" by code_simp+
  have num: "valid_utf8 (show_u16 p)" for p
    unfolding show_u16_def by (rule valid_utf8_ascii) (rule show_nat_ascii)
  have "valid_utf8 (rate_line n v)" if "valid_utf8 n" for n v
  proof (cases v)
    case (Some p)
    have "valid_utf8 (n @ '': '' @ show_u16 p @ [byte 10])"
      using that lit num by (simp only: valid_utf8_append)
    then show ?thesis by (simp add: Some rate_line_def)
  qed (simp add: rate_line_def valid_utf8_def)
  then show "valid_utf8 (te_host e) \<Longrightarrow> valid_utf8 (tunnel_body e)"
    unfolding tunnel_body_def using lit num by (simp only: valid_utf8_append)
qed

text \<open>
  A server that looks up a registered tunnel gets the entry of the registry: its host, read as an
  IP address or as a name, its port, and its two rates, which no cap changes.
\<close>

lemma resolve_registered_tunnel:
  assumes "\<And>t e. m t = Some e \<Longrightarrow> entry_ok e" and "m uuid = Some e" and "valid_utf8 (te_host e)"
    and "url_scheme base = ''http''" "r_push R base (j_uuid_to_string J uuid) = Some u" "r_uri R (url_text u) = Some uri"
    and "r_get R uri None = Ok (rs_status (get_tunnel m uuid), Ok (rs_body (get_tunnel m uuid)))"
    and "r_yaml R (tunnel_body e) = Some \<lparr>er_host = te_host e, er_port = te_port e,
           er_upload_m = te_upload_m e, er_download_m = te_download_m e, er_rate_limit_m = None\<rparr>"
    and "parse_host (te_host e) = Some h"
  shows "resolve_tunnel_over_http H J R base uuid None =
     Returns (Ok \<lparr>ep_host = h, ep_port = te_port e, ep_upload_m = te_upload_m e, ep_download_m = te_download_m e\<rparr>)"
proof -
  have "utf8_to_str (tunnel_body e) = Some (tunnel_body e)"
    using tunnel_body_utf8 [OF assms(3)] by (simp add: utf8_to_str_def)
  moreover have "cap_rate (te_upload_m e) = te_upload_m e" "cap_rate (te_download_m e) = te_download_m e"
    using assms(1) [OF assms(2)] by (auto simp: entry_ok_def cap_rate_le)
  moreover have "or_else v None = v" for v :: "u16 option" by (cases v) auto
  ultimately have "read_endpoint R (tunnel_body e) = Ok \<lparr>ep_host = h, ep_port = te_port e,
      ep_upload_m = te_upload_m e, ep_download_m = te_download_m e\<rparr>"
    using assms(8, 9) by (simp add: read_endpoint_def)
  then show ?thesis using assms(2, 4-7) by (simp add: resolve_tunnel_over_http_def get_tunnel_def)
qed

definition demo_tunnel :: tunnel_entry where
  "demo_tunnel = \<lparr>te_host = ''10.0.0.5'', te_port = 22, te_upload_m = Some 10, te_download_m = None\<rparr>"

definition demo_base :: url where
  "demo_base =
     \<lparr>url_scheme = ''http'', url_host = Some (Domain ''registry''), url_port = None,
      url_port_or_known_default = Some 80, url_username = [], url_password = None,
      url_query_pairs = [], url_text = ''http://registry/tunnels''\<rparr>"

definition demo_resolver :: "string resolver_lib" where
  "demo_resolver =
     \<lparr>r_push = (\<lambda>u s. Some (u\<lparr>url_text := url_text u @ ''/'' @ s\<rparr>)), r_uri = Some,
      r_get = (\<lambda>_ _. Ok (200, Ok (tunnel_body demo_tunnel))),
      r_yaml = (\<lambda>s. if s = tunnel_body demo_tunnel
         then Some \<lparr>er_host = ''10.0.0.5'', er_port = 22, er_upload_m = Some 10, er_download_m = None, er_rate_limit_m = None\<rparr>
         else None)\<rparr>"

lemma resolve_registered_tunnel_instance:
  "resolve_tunnel_over_http demo_http (demo_tokens demo_jwt) demo_resolver demo_base 7 None =
     Returns (Ok \<lparr>ep_host = Ipv4 0x0A000005, ep_port = te_port demo_tunnel, ep_upload_m = te_upload_m demo_tunnel,
       ep_download_m = te_download_m demo_tunnel\<rparr>)"
proof (rule resolve_registered_tunnel [where m = "[7 \<mapsto> demo_tunnel]"])
  fix t e assume "[7 \<mapsto> demo_tunnel] (t :: u128) = Some e"
  then show "entry_ok e"
    by (auto simp: demo_tunnel_def entry_ok_def split: if_splits)
next
  show "valid_utf8 (te_host demo_tunnel)" "parse_host (te_host demo_tunnel) = Some (Ipv4 0x0A000005)" by code_simp+
  show "r_push demo_resolver demo_base (j_uuid_to_string (demo_tokens demo_jwt) 7)
      = Some (demo_base\<lparr>url_text := url_text demo_base @ ''/'' @ j_uuid_to_string (demo_tokens demo_jwt) 7\<rparr>)"
    by (simp add: demo_resolver_def)
qed (simp_all add: demo_resolver_def demo_base_def get_tunnel_def demo_tunnel_def)

end
