(* ===== verification/Tcp.thy ===== *)
theory Tcp
  imports Dns
begin

text \<open>
  Outgoing connections: socket options (\<open>protocols/tcp/server.rs\<close>, \<open>somark.rs\<close>), the staggered
  connection attempts of \<open>tcp::connect\<close> and \<open>udp::connect\<close>, and the \<open>CONNECT\<close> exchange with an HTTP
  proxy.  What the operating system answers is the parameter \<open>N\<close>: the outcome of every system call,
  and for every address how long a connection attempt takes and how it ends.
\<close>

section \<open>The operating system\<close>

datatype sockopt =
    TcpNodelay bool
  | TcpKeepalive duration duration nat
  | SoMarkOpt u32
  | IpTransparent bool

datatype 'e attempt = Connects duration | Fails duration 'e | Silent

datatype 'e read_event = ReadBytes string | ReadErr 'e | ReadTimeout

record 'e net_env =
  n_setsockopt :: "sockopt \<Rightarrow> (unit, 'e) result"
  n_tcp_socket :: "bool \<Rightarrow> (unit, 'e) result"
  n_udp_bind :: "bool \<Rightarrow> (unit, 'e) result"
  n_tcp_connect :: "socket_addr \<Rightarrow> 'e attempt"
  n_udp_connect :: "socket_addr \<Rightarrow> 'e attempt"
  n_listen :: "socket_addr \<Rightarrow> (unit, 'e) result"

section \<open>Socket options\<close>

datatype 'e socket_error =
    CannotSetNoDelay 'e
  | CannotSetKeepalive 'e
  | CannotSetSoMark 'e

fun map_err :: "('e \<Rightarrow> 'f) \<Rightarrow> ('a, 'e) result \<Rightarrow> ('a, 'f) result" where
  "map_err f (Ok x) = Ok x"
| "map_err f (Err e) = Err (f e)"

lemma map_err_Ok [result_simps]: "map_err f r = Ok x \<longleftrightarrow> r = Ok x"
  by (cases r) auto

definition set_mark :: "'e net_env \<Rightarrow> so_mark \<Rightarrow> (unit, 'e) result" where
  "set_mark N mark = (case mark of None \<Rightarrow> Ok () | Some m \<Rightarrow> n_setsockopt N (SoMarkOpt m))"

definition configure_socket :: "'e net_env \<Rightarrow> so_mark \<Rightarrow> (unit, 'e socket_error) result" where
  "configure_socket N mark =
     and_then (map_err CannotSetNoDelay (n_setsockopt N (TcpNodelay True))) (\<lambda>_.
     and_then (map_err CannotSetKeepalive
                 (n_setsockopt N (TcpKeepalive (from_secs 60) (from_secs 10) 3))) (\<lambda>_.
     map_err CannotSetSoMark (set_mark N mark)))"

section \<open>Staggered attempts\<close>

text \<open>
  An attempt that was spawned finishes at a time, counted from the start of the attempts, with an
  outcome.  The attempt with index \<open>ix\<close> starts after \<open>250 ms * ix\<close> and is given \<open>connect_timeout\<close>.
\<close>

datatype 'e outcome = Connected socket_addr | Refused socket_addr 'e | TimedOut socket_addr

definition run_attempt :: "(socket_addr \<Rightarrow> 'e attempt) \<Rightarrow> duration \<Rightarrow> nat \<Rightarrow> socket_addr \<Rightarrow> duration \<times> 'e outcome" where
  "run_attempt conn connect_timeout ix addr =
     (let start = (if ix > 0 then from_millis (250 * ix) else 0) in
      case conn addr of
        Connects d \<Rightarrow>
          if d \<le> connect_timeout then (start + d, Connected addr) else (start + connect_timeout, TimedOut addr)
      | Fails d e \<Rightarrow>
          if d \<le> connect_timeout then (start + d, Refused addr e) else (start + connect_timeout, TimedOut addr)
      | Silent \<Rightarrow> (start + connect_timeout, TimedOut addr))"

text \<open>
  The loop over \<open>join_set.join_next()\<close>: outcomes in the order they finish, until one is a connection.
\<close>

fun join_loop :: "'e outcome list \<Rightarrow> 'e option \<Rightarrow> socket_addr option \<times> 'e option" where
  "join_loop [] last_err = (None, last_err)"
| "join_loop (Connected a # os) last_err = (Some a, last_err)"
| "join_loop (Refused a e # os) last_err = join_loop os (Some e)"
| "join_loop (TimedOut a # os) last_err = join_loop os last_err"

definition by_finish_time :: "(duration \<times> 'e outcome) list \<Rightarrow> 'e outcome list" where
  "by_finish_time ts = map snd (sort_key fst ts)"

datatype 'e connect_error =
    CannotResolve string 'e
  | CannotConfigure "'e socket_error"
  | CannotConnect host u16 "'e option"

text \<open>The loop of \<open>tcp::connect\<close> that opens the sockets and spawns the attempts.\<close>

fun tcp_spawn ::
  "'e net_env \<Rightarrow> so_mark \<Rightarrow> duration \<Rightarrow> nat \<Rightarrow> socket_addr list \<Rightarrow> 'e option
   \<Rightarrow> ((duration \<times> 'e outcome) list \<times> 'e option, 'e connect_error) result" where
  "tcp_spawn N mark tmo ix [] last_err = Ok ([], last_err)"
| "tcp_spawn N mark tmo ix (a # as) last_err =
     (case n_tcp_socket N (is_v6_addr a) of
        Err e \<Rightarrow> tcp_spawn N mark tmo (ix + 1) as (Some e)
      | Ok _ \<Rightarrow>
         and_then (map_err CannotConfigure (configure_socket N mark)) (\<lambda>_.
           map_ok (\<lambda>(ts, l). (run_attempt (n_tcp_connect N) tmo ix a # ts, l))
             (tcp_spawn N mark tmo (ix + 1) as last_err)))"

definition host_addrs ::
  "('sys, 'ech, 'e) dns_lib \<Rightarrow> 'sys dns_resolver \<Rightarrow> host \<Rightarrow> u16 \<Rightarrow> (socket_addr list, 'e connect_error) result" where
  "host_addrs D dns h port =
     (case h of
        Domain d \<Rightarrow> map_err (CannotResolve d) (lookup_host D dns d port)
      | Ipv4 ip \<Rightarrow> Ok [SocketAddrV4 ip port]
      | Ipv6 ip \<Rightarrow> Ok [SocketAddrV6 ip port 0 0])"

definition tcp_connect ::
  "'e net_env \<Rightarrow> ('sys, 'ech, 'e) dns_lib \<Rightarrow> host \<Rightarrow> u16 \<Rightarrow> so_mark \<Rightarrow> duration \<Rightarrow> 'sys dns_resolver
   \<Rightarrow> (socket_addr, 'e connect_error) result" where
  "tcp_connect N D h port mark tmo dns =
     and_then (host_addrs D dns h port) (\<lambda>addrs.
     and_then (tcp_spawn N mark tmo 0 addrs None) (\<lambda>(ts, last_err).
       case join_loop (by_finish_time ts) last_err of
         (Some a, _) \<Rightarrow> Ok a
       | (None, l) \<Rightarrow> Err (CannotConnect h port l)))"

text \<open>\<open>udp::connect\<close>: the same attempts on bound sockets; only the mark is set on them.\<close>

fun udp_spawn ::
  "'e net_env \<Rightarrow> so_mark \<Rightarrow> duration \<Rightarrow> nat \<Rightarrow> socket_addr list
   \<Rightarrow> ((duration \<times> 'e outcome) list, 'e connect_error) result" where
  "udp_spawn N mark tmo ix [] = Ok []"
| "udp_spawn N mark tmo ix (a # as) =
     (case n_udp_bind N (is_v6_addr a) of
        Err e \<Rightarrow> udp_spawn N mark tmo (ix + 1) as
      | Ok _ \<Rightarrow>
         and_then (map_err (\<lambda>e. CannotConfigure (CannotSetSoMark e)) (set_mark N mark)) (\<lambda>_.
           map_ok (\<lambda>ts. run_attempt (n_udp_connect N) tmo ix a # ts)
             (udp_spawn N mark tmo (ix + 1) as)))"

definition udp_connect ::
  "'e net_env \<Rightarrow> ('sys, 'ech, 'e) dns_lib \<Rightarrow> host \<Rightarrow> u16 \<Rightarrow> duration \<Rightarrow> so_mark \<Rightarrow> 'sys dns_resolver
   \<Rightarrow> (socket_addr, 'e connect_error) result" where
  "udp_connect N D h port tmo mark dns =
     and_then (host_addrs D dns h port) (\<lambda>addrs.
     and_then (udp_spawn N mark tmo 0 addrs) (\<lambda>ts.
       case join_loop (by_finish_time ts) None of
         (Some a, _) \<Rightarrow> Ok a
       | (None, l) \<Rightarrow> Err (CannotConnect h port l)))"

section \<open>The HTTP proxy\<close>

text \<open>The crates that print hosts, decode URL escapes and encode base64.\<close>

record text_lib =
  t_host :: "host \<Rightarrow> string"
  t_urldecode :: "string \<Rightarrow> string option"
  t_base64 :: "string \<Rightarrow> string"
  t_base64_decode :: "string \<Rightarrow> string option"

datatype 'e proxy_error =
    NoProxyHost
  | ProxyUnreachable "'e connect_error"
  | BadProxyCredentials
  | ProxyWriteError 'e
  | ProxyClosed
  | ProxyReadError 'e
  | ProxyTooSlow
  | ProxyRefused string

definition crlf :: string where
  "crlf = [byte 13, byte 10]"

definition proxy_authorization :: "text_lib \<Rightarrow> url \<Rightarrow> string option" where
  "proxy_authorization T proxy =
     (case url_password proxy of
        None \<Rightarrow> Some []
      | Some p \<Rightarrow>
         Option.bind (t_urldecode T (url_username proxy)) (\<lambda>user.
         Option.bind (t_urldecode T p) (\<lambda>password.
           Some (''Proxy-Authorization: Basic '' @ t_base64 T (user @ '':'' @ password) @ crlf))))"

definition connect_request :: "text_lib \<Rightarrow> host \<Rightarrow> u16 \<Rightarrow> string \<Rightarrow> string" where
  "connect_request T h port authorization =
     ''CONNECT '' @ t_host T h @ '':'' @ show_u16 port @ '' HTTP/1.0'' @ crlf
     @ ''Host: '' @ t_host T h @ '':'' @ show_u16 port @ crlf @ authorization @ crlf"

text \<open>
  The loop that reads the answer.  The list holds the results of the successive reads; at its end the
  proxy stays silent and the read times out.
\<close>

fun proxy_read_loop ::
  "string \<Rightarrow> 'e read_event list \<Rightarrow> (string \<times> 'e read_event list, 'e proxy_error) result" where
  "proxy_read_loop buf [] = Err ProxyTooSlow"
| "proxy_read_loop buf (ReadTimeout # rs) = Err ProxyTooSlow"
| "proxy_read_loop buf (ReadErr e # rs) = Err (ProxyReadError e)"
| "proxy_read_loop buf (ReadBytes bs # rs) =
     (if bs = [] then Err ProxyClosed
      else if length (buf @ bs) > 50 * 1024 \<or> contains_str (crlf @ crlf) (buf @ bs) then Ok (buf @ bs, rs)
      else proxy_read_loop (buf @ bs) rs)"

definition proxy_accepts :: "string \<Rightarrow> bool" where
  "proxy_accepts buf = (contains_str ''HTTP/1.0 200 '' buf \<or> contains_str ''HTTP/1.1 200 '' buf)"

text \<open>
  \<open>X\<close> is the proxy: for the address connected to and the request sent, the result of the write and of
  the reads that follow.  The connection that is returned goes on with the reads left over.
\<close>

definition connect_with_http_proxy ::
  "'e net_env \<Rightarrow> ('sys, 'ech, 'e) dns_lib \<Rightarrow> text_lib
   \<Rightarrow> (socket_addr \<Rightarrow> string \<Rightarrow> (unit, 'e) result \<times> 'e read_event list)
   \<Rightarrow> url \<Rightarrow> host \<Rightarrow> u16 \<Rightarrow> so_mark \<Rightarrow> duration \<Rightarrow> 'sys dns_resolver
   \<Rightarrow> (socket_addr \<times> 'e read_event list, 'e proxy_error) result" where
  "connect_with_http_proxy N D T X proxy h port mark tmo dns =
     and_then (ok_or NoProxyHost (url_host proxy)) (\<lambda>proxy_host.
     and_then (map_err ProxyUnreachable
        (tcp_connect N D proxy_host (unwrap_or 80 (url_port_or_known_default proxy)) mark tmo dns)) (\<lambda>socket.
     and_then (ok_or BadProxyCredentials (proxy_authorization T proxy)) (\<lambda>authorization.
     case X socket (connect_request T h port authorization) of (written, reads) \<Rightarrow>
     and_then (map_err ProxyWriteError written) (\<lambda>_.
     and_then (proxy_read_loop [] reads) (\<lambda>(buf, rest).
       if proxy_accepts buf then Ok (socket, rest) else Err (ProxyRefused buf))))))"

text \<open>\<open>tcp::run_server\<close>: bind, and in TProxy mode make the listener transparent.\<close>

definition tcp_run_server :: "'e net_env \<Rightarrow> socket_addr \<Rightarrow> bool \<Rightarrow> (socket_addr, 'e) result" where
  "tcp_run_server N bind ip_transparent =
     and_then (n_listen N bind) (\<lambda>_.
       if ip_transparent then map_ok (\<lambda>_. bind) (n_setsockopt N (IpTransparent True)) else Ok bind)"

section \<open>Connections of the resolver\<close>

text \<open>
  \<open>TokioRuntimeProviderWithSoMark\<close>: the resolver's own connections, through the proxy where one is
  configured.
\<close>

definition ip_host :: "ip_addr \<Rightarrow> host" where
  "ip_host ip = (case ip of V4 a \<Rightarrow> Ipv4 a | V6 a \<Rightarrow> Ipv6 a)"

datatype 'e resolver_io_error = DirectError "'e connect_error" | ViaProxyError "'e proxy_error"

definition resolver_connect_tcp ::
  "'e net_env \<Rightarrow> ('sys, 'ech, 'e) dns_lib \<Rightarrow> text_lib
   \<Rightarrow> (socket_addr \<Rightarrow> string \<Rightarrow> (unit, 'e) result \<times> 'e read_event list)
   \<Rightarrow> url option \<Rightarrow> so_mark \<Rightarrow> socket_addr \<Rightarrow> duration option
   \<Rightarrow> (socket_addr \<times> 'e read_event list, 'e resolver_io_error) result" where
  "resolver_connect_tcp N D T X proxy mark server_addr tmo =
     (let h = ip_host (addr_ip server_addr); port = addr_port server_addr;
          t = unwrap_or (from_secs 10) tmo in
      case proxy of
        Some p \<Rightarrow> map_err ViaProxyError (connect_with_http_proxy N D T X p h port mark t System)
      | None \<Rightarrow> map_ok (\<lambda>a. (a, [])) (map_err DirectError (tcp_connect N D h port mark t System)))"

definition resolver_bind_udp :: "'e net_env \<Rightarrow> so_mark \<Rightarrow> socket_addr \<Rightarrow> (unit, 'e) result" where
  "resolver_bind_udp N mark local_addr = and_then (n_udp_bind N (is_v6_addr local_addr)) (\<lambda>_. set_mark N mark)"

section \<open>Who wins the race\<close>

lemma join_loop_Some:
  "fst (join_loop os l) = Some a \<longleftrightarrow>
     (\<exists>pre post. os = pre @ Connected a # post \<and> (\<forall>b. Connected b \<notin> set pre))"
proof (induction os l rule: join_loop.induct)
  case (2 b os l)
  then show ?case by (auto simp: Cons_eq_append_conv)
next
  case (3 b e os l)
  have "(\<exists>pre post. Refused b e # os = pre @ Connected a # post \<and> (\<forall>b. Connected b \<notin> set pre)) \<longleftrightarrow>
      (\<exists>pre post. os = pre @ Connected a # post \<and> (\<forall>b. Connected b \<notin> set pre))"
    by (auto simp: Cons_eq_append_conv) (metis list.set_intros(1) set_ConsD outcome.distinct(1) append_Cons)+
  with 3 show ?case by simp
next
  case (4 b os l)
  have "(\<exists>pre post. TimedOut b # os = pre @ Connected a # post \<and> (\<forall>b. Connected b \<notin> set pre)) \<longleftrightarrow>
      (\<exists>pre post. os = pre @ Connected a # post \<and> (\<forall>b. Connected b \<notin> set pre))"
    by (auto simp: Cons_eq_append_conv) (metis list.set_intros(1) set_ConsD outcome.distinct(3) append_Cons)+
  with 4 show ?case by simp
qed simp

lemma join_loop_None: "fst (join_loop os l) = None \<longleftrightarrow> (\<forall>a. Connected a \<notin> set os)"
  by (induction os l rule: join_loop.induct) auto

lemma join_by_finish_time:
  assumes "fst (join_loop (by_finish_time ts) l) = Some a"
  shows "\<exists>t. (t, Connected a) \<in> set ts \<and> (\<forall>t' b. (t', Connected b) \<in> set ts \<longrightarrow> t \<le> t')"
proof -
  obtain pre post where "map snd (sort_key fst ts) = pre @ Connected a # post"
    and none: "\<forall>b. Connected b \<notin> set pre"
    using assms by (auto simp: join_loop_Some by_finish_time_def)
  then obtain pre' t post' where s: "sort_key fst ts = pre' @ (t, Connected a) # post'" and p: "pre = map snd pre'"
    by (auto simp: map_eq_append_conv map_eq_Cons_conv)
  have "sorted (map fst (pre' @ (t, Connected a) # post'))"
    by (metis s sorted_sort_key)
  then have "t \<le> t'" if "(t', Connected b) \<in> set post'" for t' b
    using that by (auto simp: sorted_append)
  moreover have "(t', Connected b) \<notin> set pre'" for t' b
    using none by (force simp: p)
  moreover have "set ts = set (pre' @ (t, Connected a) # post')"
    by (metis s set_sort)
  ultimately show ?thesis by (intro exI [of _ t]) auto
qed

lemma run_attempt_connected:
  "run_attempt conn tmo ix a = (t, Connected b) \<longleftrightarrow>
     b = a \<and> (\<exists>d. conn a = Connects d \<and> d \<le> tmo \<and> t = from_millis (250 * ix) + d)"
  by (auto simp: run_attempt_def from_millis_def Let_def split: attempt.splits if_splits)

text \<open>The address at index \<open>i\<close> accepts a connection in time, at time \<open>t\<close>.\<close>

definition responds ::
  "(socket_addr \<Rightarrow> 'e attempt) \<Rightarrow> (socket_addr \<Rightarrow> bool) \<Rightarrow> duration \<Rightarrow> socket_addr list \<Rightarrow> nat \<Rightarrow> duration \<Rightarrow> bool" where
  "responds conn opens tmo addrs i t \<longleftrightarrow>
     i < length addrs \<and> opens (addrs ! i) \<and>
     (case conn (addrs ! i) of Connects d \<Rightarrow> d \<le> tmo \<and> t = from_millis (250 * i) + d | _ \<Rightarrow> False)"

text \<open>
  The contract of the two loops that open sockets and spawn attempts: an attempt that was spawned is
  that of an address at its index, and every address whose socket could be opened has one.
\<close>

locale dialer =
  fixes spawn :: "duration \<Rightarrow> nat \<Rightarrow> socket_addr list \<Rightarrow> 'e option
      \<Rightarrow> ((duration \<times> 'e outcome) list \<times> 'e option, 'x) result"
    and conn :: "socket_addr \<Rightarrow> 'e attempt"
    and opens :: "socket_addr \<Rightarrow> bool"
  assumes spawn_sound:
      "spawn tmo ix addrs l = Ok (ts, l') \<Longrightarrow> x \<in> set ts
       \<Longrightarrow> \<exists>i < length addrs. opens (addrs ! i) \<and> x = run_attempt conn tmo (ix + i) (addrs ! i)"
    and spawn_complete:
      "spawn tmo ix addrs l = Ok (ts, l') \<Longrightarrow> i < length addrs \<Longrightarrow> opens (addrs ! i)
       \<Longrightarrow> run_attempt conn tmo (ix + i) (addrs ! i) \<in> set ts"
begin

lemma spawned_connected:
  assumes "spawn tmo 0 addrs l = Ok (ts, l')"
  shows "(t, Connected a) \<in> set ts \<longleftrightarrow> (\<exists>i. responds conn opens tmo addrs i t \<and> addrs ! i = a)"
proof
  assume "(t, Connected a) \<in> set ts"
  then obtain i where i: "i < length addrs" "opens (addrs ! i)"
    "run_attempt conn tmo i (addrs ! i) = (t, Connected a)"
    using spawn_sound [OF assms, of "(t, Connected a)"] by auto
  then show "\<exists>i. responds conn opens tmo addrs i t \<and> addrs ! i = a"
    by (auto simp: responds_def run_attempt_connected)
next
  assume "\<exists>i. responds conn opens tmo addrs i t \<and> addrs ! i = a"
  then obtain i where i: "responds conn opens tmo addrs i t" "addrs ! i = a" by blast
  then have "run_attempt conn tmo i (addrs ! i) = (t, Connected a)"
    by (auto simp: responds_def run_attempt_connected split: attempt.splits)
  then show "(t, Connected a) \<in> set ts"
    using spawn_complete [OF assms, of i] i(1) by (simp add: responds_def)
qed

lemma winner:
  assumes "spawn tmo 0 addrs l = Ok (ts, l')"
  shows "case fst (join_loop (by_finish_time ts) l') of
           Some a \<Rightarrow> \<exists>i t. responds conn opens tmo addrs i t \<and> addrs ! i = a \<and> (\<forall>j t'. responds conn opens tmo addrs j t' \<longrightarrow> t \<le> t')
         | None \<Rightarrow> \<forall>i t. \<not> responds conn opens tmo addrs i t"
proof (cases "fst (join_loop (by_finish_time ts) l')")
  case None
  then have "\<forall>t a. (t, Connected a) \<notin> set ts"
    by (force simp: join_loop_None by_finish_time_def)
  then show ?thesis using None spawned_connected [OF assms] by auto
next
  case (Some a)
  then show ?thesis
    using join_by_finish_time [OF Some] spawned_connected [OF assms] by (simp, blast)
qed

end

lemma tcp_spawn_sound:
  "tcp_spawn N mark tmo ix addrs l = Ok (ts, l') \<Longrightarrow> x \<in> set ts
   \<Longrightarrow> \<exists>i < length addrs. n_tcp_socket N (is_v6_addr (addrs ! i)) = Ok () \<and>
        x = run_attempt (n_tcp_connect N) tmo (ix + i) (addrs ! i)"
proof (induction N mark tmo ix addrs l arbitrary: ts l' rule: tcp_spawn.induct)
  case (2 N mark tmo ix a as l)
  show ?case
  proof (cases "n_tcp_socket N (is_v6_addr a)")
    case (Err e)
    then show ?thesis using 2(2) [OF Err, of ts l'] 2(3, 4) by fastforce
  next
    case (Ok u)
    then obtain ts' where ts': "tcp_spawn N mark tmo (ix + 1) as l = Ok (ts', l')"
      and ts: "ts = run_attempt (n_tcp_connect N) tmo ix a # ts'"
      using 2(3) by (auto simp: result_simps)
    then show ?thesis using 2(1) [OF Ok, of ts' l'] 2(4) Ok by fastforce
  qed
qed simp

lemma tcp_spawn_complete:
  "tcp_spawn N mark tmo ix addrs l = Ok (ts, l') \<Longrightarrow> i < length addrs
   \<Longrightarrow> n_tcp_socket N (is_v6_addr (addrs ! i)) = Ok ()
   \<Longrightarrow> run_attempt (n_tcp_connect N) tmo (ix + i) (addrs ! i) \<in> set ts"
proof (induction N mark tmo ix addrs l arbitrary: ts l' i rule: tcp_spawn.induct)
  case (2 N mark tmo ix a as l)
  then show ?case
    by (cases i; cases "n_tcp_socket N (is_v6_addr a)") (fastforce simp: result_simps)+
qed simp

lemma udp_spawn_sound:
  "udp_spawn N mark tmo ix addrs = Ok ts \<Longrightarrow> x \<in> set ts
   \<Longrightarrow> \<exists>i < length addrs. n_udp_bind N (is_v6_addr (addrs ! i)) = Ok () \<and>
        x = run_attempt (n_udp_connect N) tmo (ix + i) (addrs ! i)"
proof (induction N mark tmo ix addrs arbitrary: ts rule: udp_spawn.induct)
  case (2 N mark tmo ix a as)
  show ?case
  proof (cases "n_udp_bind N (is_v6_addr a)")
    case (Err e)
    then show ?thesis using 2(2) [OF Err, of ts] 2(3, 4) by fastforce
  next
    case (Ok u)
    then obtain ts' where ts': "udp_spawn N mark tmo (ix + 1) as = Ok ts'"
      and ts: "ts = run_attempt (n_udp_connect N) tmo ix a # ts'"
      using 2(3) by (auto simp: result_simps)
    then show ?thesis using 2(1) [OF Ok, of ts'] 2(4) Ok by fastforce
  qed
qed simp

lemma udp_spawn_complete:
  "udp_spawn N mark tmo ix addrs = Ok ts \<Longrightarrow> i < length addrs
   \<Longrightarrow> n_udp_bind N (is_v6_addr (addrs ! i)) = Ok ()
   \<Longrightarrow> run_attempt (n_udp_connect N) tmo (ix + i) (addrs ! i) \<in> set ts"
proof (induction N mark tmo ix addrs arbitrary: ts i rule: udp_spawn.induct)
  case (2 N mark tmo ix a as)
  then show ?case
    by (cases i; cases "n_udp_bind N (is_v6_addr a)") (fastforce simp: result_simps)+
qed simp

interpretation tcp_dial: dialer "tcp_spawn N mark" "n_tcp_connect N"
    "\<lambda>a. n_tcp_socket N (is_v6_addr a) = Ok ()" for N mark
  by unfold_locales (rule tcp_spawn_sound, assumption+, rule tcp_spawn_complete, assumption+)

interpretation udp_dial: dialer "\<lambda>tmo ix addrs l. map_ok (\<lambda>ts. (ts, l)) (udp_spawn N mark tmo ix addrs)"
    "n_udp_connect N" "\<lambda>a. n_udp_bind N (is_v6_addr a) = Ok ()" for N mark
proof unfold_locales
  fix tmo ix addrs l ts l' x
  assume "map_ok (\<lambda>ts. (ts, l)) (udp_spawn N mark tmo ix addrs) = Ok (ts, l')" "x \<in> set ts"
  then show "\<exists>i < length addrs. n_udp_bind N (is_v6_addr (addrs ! i)) = Ok () \<and>
      x = run_attempt (n_udp_connect N) tmo (ix + i) (addrs ! i)"
    by (intro udp_spawn_sound) (auto simp: result_simps)
qed (auto simp: result_simps intro: udp_spawn_complete)

definition tcp_responds :: "'e net_env \<Rightarrow> duration \<Rightarrow> socket_addr list \<Rightarrow> nat \<Rightarrow> duration \<Rightarrow> bool" where
  "tcp_responds N = responds (n_tcp_connect N) (\<lambda>a. n_tcp_socket N (is_v6_addr a) = Ok ())"

definition udp_responds :: "'e net_env \<Rightarrow> duration \<Rightarrow> socket_addr list \<Rightarrow> nat \<Rightarrow> duration \<Rightarrow> bool" where
  "udp_responds N = responds (n_udp_connect N) (\<lambda>a. n_udp_bind N (is_v6_addr a) = Ok ())"

lemma tcp_spawn_configured:
  "configure_socket N mark = Ok () \<Longrightarrow> \<exists>ts l'. tcp_spawn N mark tmo ix addrs l = Ok (ts, l')"
proof (induction addrs arbitrary: ix l)
  case (Cons a addrs)
  show ?case
  proof (cases "n_tcp_socket N (is_v6_addr a)")
    case (Ok u)
    obtain ts l' where "tcp_spawn N mark tmo (ix + 1) addrs l = Ok (ts, l')"
      using Cons by blast
    then show ?thesis using Ok Cons.prems by simp
  qed (use Cons in simp)
qed simp

lemma udp_spawn_configured:
  "set_mark N mark = Ok () \<Longrightarrow> \<exists>ts. udp_spawn N mark tmo ix addrs = Ok ts"
proof (induction addrs arbitrary: ix)
  case (Cons a addrs)
  show ?case
  proof (cases "n_udp_bind N (is_v6_addr a)")
    case (Ok u)
    obtain ts where "udp_spawn N mark tmo (ix + 1) addrs = Ok ts"
      using Cons by blast
    then show ?thesis using Ok Cons.prems by simp
  qed (use Cons in simp)
qed simp

text \<open>
  C35. A TCP connection goes to the address that answers first, counting the stagger of 250 ms per
  position, and fails only when no address answers within its timeout.
\<close>

theorem tcp_connect_earliest:
  assumes "host_addrs D dns h port = Ok addrs" and "configure_socket N mark = Ok ()"
  shows "case tcp_connect N D h port mark tmo dns of
           Ok a \<Rightarrow> \<exists>i t. tcp_responds N tmo addrs i t \<and> addrs ! i = a \<and> (\<forall>j t'. tcp_responds N tmo addrs j t' \<longrightarrow> t \<le> t')
         | Err _ \<Rightarrow> \<forall>i t. \<not> tcp_responds N tmo addrs i t"
proof -
  obtain ts l where ts: "tcp_spawn N mark tmo 0 addrs None = Ok (ts, l)"
    using tcp_spawn_configured [OF assms(2)] by blast
  obtain c e where c: "join_loop (by_finish_time ts) l = (c, e)" by fastforce
  show ?thesis
    using tcp_dial.winner [OF ts] assms(1) ts unfolding tcp_responds_def
    by (cases c) (simp_all add: tcp_connect_def c)
qed

text \<open>The same for UDP sockets, whose only option is the mark.\<close>

lemma udp_connect_earliest:
  assumes "host_addrs D dns h port = Ok addrs" and "set_mark N mark = Ok ()"
  shows "case udp_connect N D h port tmo mark dns of
           Ok a \<Rightarrow> \<exists>i t. udp_responds N tmo addrs i t \<and> addrs ! i = a \<and> (\<forall>j t'. udp_responds N tmo addrs j t' \<longrightarrow> t \<le> t')
         | Err _ \<Rightarrow> \<forall>i t. \<not> udp_responds N tmo addrs i t"
proof -
  obtain ts where ts: "udp_spawn N mark tmo 0 addrs = Ok ts"
    using udp_spawn_configured [OF assms(2)] by blast
  then have ts': "map_ok (\<lambda>ts. (ts, None)) (udp_spawn N mark tmo 0 addrs) = Ok (ts, None)" by simp
  obtain c e where c: "join_loop (by_finish_time ts) None = (c, e)" by fastforce
  show ?thesis
    using udp_dial.winner [OF ts'] assms(1) ts unfolding udp_responds_def
    by (cases c) (simp_all add: udp_connect_def c)
qed

section \<open>What the proxy exchange accepts\<close>

fun read_text :: "'e read_event list \<Rightarrow> string" where
  "read_text [] = []"
| "read_text (ReadBytes bs # rs) = bs @ read_text rs"
| "read_text (_ # rs) = read_text rs"

lemma proxy_read_loop_Ok:
  "proxy_read_loop buf reads = Ok (answer, rest) \<Longrightarrow>
     \<exists>taken. reads = taken @ rest \<and> taken \<noteq> [] \<and> answer = buf @ read_text taken \<and>
       (length answer > 50 * 1024 \<or> contains_str (crlf @ crlf) answer)"
proof (induction buf reads rule: proxy_read_loop.induct)
  case (4 buf bs rs)
  show ?case
  proof (cases "length (buf @ bs) > 50 * 1024 \<or> contains_str (crlf @ crlf) (buf @ bs)")
    case True
    then show ?thesis using 4(2) by (intro exI [of _ "[ReadBytes bs]"]) (auto split: if_splits)
  next
    case False
    then obtain taken where "rs = taken @ rest" "taken \<noteq> []" "answer = (buf @ bs) @ read_text taken"
      "length answer > 50 * 1024 \<or> contains_str (crlf @ crlf) answer"
      using 4 by (auto split: if_splits)
    then show ?thesis by (intro exI [of _ "ReadBytes bs # taken"]) auto
  qed
qed auto

text \<open>
  A connection through a proxy is handed out only after the proxy's answer was read up to the end
  of its header (or beyond 50 KiB) and contains a status line \<open>HTTP/1.0 200\<close> or \<open>HTTP/1.1 200\<close>.
\<close>

lemma connect_with_http_proxy_accepted:
  assumes "connect_with_http_proxy N D T X proxy h port mark tmo dns = Ok (socket, rest)"
  shows "\<exists>authorization taken.
     proxy_authorization T proxy = Some authorization \<and>
     X socket (connect_request T h port authorization) = (Ok (), taken @ rest) \<and>
     proxy_accepts (read_text taken) \<and>
     (length (read_text taken) > 50 * 1024 \<or> contains_str (crlf @ crlf) (read_text taken))"
proof -
  obtain s auth where s: "proxy_authorization T proxy = Some auth"
    and step: "(case X s (connect_request T h port auth) of (written, reads) \<Rightarrow>
      and_then (map_err ProxyWriteError written) (\<lambda>_.
      and_then (proxy_read_loop [] reads) (\<lambda>(buf, rest).
        if proxy_accepts buf then Ok (s, rest) else Err (ProxyRefused buf)))) = Ok (socket, rest)"
    using assms unfolding connect_with_http_proxy_def and_then_Ok ok_or_Ok by blast
  obtain written reads where x: "X s (connect_request T h port auth) = (written, reads)" by fastforce
  then obtain buf where a: "written = Ok ()" "s = socket" "proxy_read_loop [] reads = Ok (buf, rest)" "proxy_accepts buf"
    using step by (auto simp: result_simps split: if_splits)
  show ?thesis using proxy_read_loop_Ok [OF a(3)] a x s by auto
qed

text \<open>
  The bytes the destination sends right behind the proxy's answer, in the same read, are lost: the
  connection that is handed out goes on with the next read, whatever \<open>early\<close> was.
\<close>

lemma proxy_early_data_lost:
  assumes "url_host proxy = Some proxy_host"
    and "tcp_connect N D proxy_host (unwrap_or 80 (url_port_or_known_default proxy)) mark tmo dns = Ok socket"
    and "proxy_authorization T proxy = Some authorization"
    and "X socket (connect_request T h port authorization)
         = (Ok (), ReadBytes (''HTTP/1.1 200 OK'' @ crlf @ crlf @ early) # rest)"
  shows "connect_with_http_proxy N D T X proxy h port mark tmo dns = Ok (socket, rest)"
proof -
  let ?answer = "''HTTP/1.1 200 OK'' @ crlf @ crlf @ early"
  have "contains_str (crlf @ crlf) ?answer"
    unfolding contains_str_iff by (intro exI [of _ "''HTTP/1.1 200 OK''"] exI [of _ early]) simp
  then have "proxy_read_loop [] (ReadBytes ?answer # rest) = Ok (?answer, rest)" by simp
  moreover have "proxy_accepts ?answer"
    unfolding proxy_accepts_def contains_str_iff
    by (intro disjI2 exI [of _ "[]"] exI [of _ "''OK'' @ crlf @ crlf @ early"]) simp
  ultimately show ?thesis using assms by (simp add: connect_with_http_proxy_def)
qed

section \<open>A concrete network\<close>

text \<open>A host with an IPv6 address that never answers and an IPv4 address that does, behind a proxy.\<close>

definition demo_net :: "string net_env" where
  "demo_net =
     \<lparr>n_setsockopt = (\<lambda>_. Ok ()), n_tcp_socket = (\<lambda>_. Ok ()), n_udp_bind = (\<lambda>_. Ok ()),
      n_tcp_connect = (\<lambda>a. if is_v6_addr a then Silent else Connects (from_millis 30)),
      n_udp_connect = (\<lambda>a. if is_v6_addr a then Silent else Connects 0),
      n_listen = (\<lambda>_. Ok ())\<rparr>"

definition demo_dns :: "(unit, unit, string) dns_lib" where
  "demo_dns =
     \<lparr>d_system_lookup = (\<lambda>_. Ok [SocketAddrV6 1 80 0 0, SocketAddrV4 0x0A000001 80]),
      d_lookup_ip = (\<lambda>_ _. Ok [V4 0x0A000001, V6 1]),
      d_lookup_https = (\<lambda>_ _. Ok []), d_ech_new = (\<lambda>_. None)\<rparr>"

definition demo_text :: text_lib where
  "demo_text =
     \<lparr>t_host = (\<lambda>h. case h of Domain d \<Rightarrow> d | _ \<Rightarrow> ''ip''), t_urldecode = Some, t_base64 = (\<lambda>s. s),
      t_base64_decode = Some\<rparr>"

definition demo_proxy :: url where
  "demo_proxy =
     \<lparr>url_scheme = ''http'', url_host = Some (Ipv4 0x0A000001), url_port = Some 3128,
      url_port_or_known_default = Some 3128, url_username = ''u'', url_password = None,
      url_query_pairs = [], url_text = ''http://10.0.0.1:3128''\<rparr>"

definition demo_proxy_io :: "socket_addr \<Rightarrow> string \<Rightarrow> (unit, string) result \<times> string read_event list" where
  "demo_proxy_io socket request =
     (Ok (), [ReadBytes (''HTTP/1.1 200 OK'' @ crlf @ crlf @ ''SSH-2.0''), ReadBytes ''more''])"

theorem tcp_connect_earliest_witness:
  "case tcp_connect demo_net demo_dns (Domain ''h'') 80 None (from_secs 10) System of
     Ok a \<Rightarrow> \<exists>i t. tcp_responds demo_net (from_secs 10) [SocketAddrV6 1 80 0 0, SocketAddrV4 0x0A000001 80] i t \<and>
         [SocketAddrV6 1 80 0 0, SocketAddrV4 0x0A000001 80] ! i = a \<and>
         (\<forall>j t'. tcp_responds demo_net (from_secs 10) [SocketAddrV6 1 80 0 0, SocketAddrV4 0x0A000001 80] j t' \<longrightarrow> t \<le> t')
   | Err _ \<Rightarrow> \<forall>i t. \<not> tcp_responds demo_net (from_secs 10) [SocketAddrV6 1 80 0 0, SocketAddrV4 0x0A000001 80] i t"
  by (rule tcp_connect_earliest)
     (simp_all add: host_addrs_def lookup_host_def demo_dns_def configure_socket_def set_mark_def demo_net_def)

lemma udp_connect_earliest_instance:
  "case udp_connect demo_net demo_dns (Domain ''h'') 80 (from_secs 10) None System of
     Ok a \<Rightarrow> \<exists>i t. udp_responds demo_net (from_secs 10) [SocketAddrV6 1 80 0 0, SocketAddrV4 0x0A000001 80] i t \<and>
         [SocketAddrV6 1 80 0 0, SocketAddrV4 0x0A000001 80] ! i = a \<and>
         (\<forall>j t'. udp_responds demo_net (from_secs 10) [SocketAddrV6 1 80 0 0, SocketAddrV4 0x0A000001 80] j t' \<longrightarrow> t \<le> t')
   | Err _ \<Rightarrow> \<forall>i t. \<not> udp_responds demo_net (from_secs 10) [SocketAddrV6 1 80 0 0, SocketAddrV4 0x0A000001 80] i t"
  by (rule udp_connect_earliest)
     (simp_all add: host_addrs_def lookup_host_def demo_dns_def set_mark_def demo_net_def)

lemma demo_tcp_connect:
  "tcp_connect demo_net demo_dns (Ipv4 0x0A000001) 3128 None (from_secs 10) System = Ok (SocketAddrV4 0x0A000001 3128)"
  by (simp add: tcp_connect_def host_addrs_def configure_socket_def set_mark_def demo_net_def run_attempt_def
      by_finish_time_def from_secs_def from_millis_def)

lemma proxy_early_data_lost_instance:
  "connect_with_http_proxy demo_net demo_dns demo_text demo_proxy_io demo_proxy (Domain ''h'') 22 None (from_secs 10) System
   = Ok (SocketAddrV4 0x0A000001 3128, [ReadBytes ''more''])"
  using demo_tcp_connect
  by (intro proxy_early_data_lost [where early = "''SSH-2.0''" and authorization = "[]"])
     (simp_all add: demo_proxy_def proxy_authorization_def demo_proxy_io_def)

lemma connect_with_http_proxy_accepted_instance:
  "\<exists>authorization taken.
     proxy_authorization demo_text demo_proxy = Some authorization \<and>
     demo_proxy_io (SocketAddrV4 0x0A000001 3128) (connect_request demo_text (Domain ''h'') 22 authorization)
       = (Ok (), taken @ [ReadBytes ''more'']) \<and>
     proxy_accepts (read_text taken) \<and>
     (length (read_text taken) > 50 * 1024 \<or> contains_str (crlf @ crlf) (read_text taken))"
proof (rule connect_with_http_proxy_accepted)
  have "proxy_accepts (''HTTP/1.1 200 OK'' @ crlf @ crlf @ ''SSH-2.0'')"
    "contains_str (crlf @ crlf) (''HTTP/1.1 200 OK'' @ crlf @ crlf @ ''SSH-2.0'')" by code_simp+
  then show "connect_with_http_proxy demo_net demo_dns demo_text demo_proxy_io demo_proxy (Domain ''h'') 22 None
      (from_secs 10) System = Ok (SocketAddrV4 0x0A000001 3128, [ReadBytes ''more''])"
    using demo_tcp_connect
    by (simp add: connect_with_http_proxy_def demo_proxy_def proxy_authorization_def demo_proxy_io_def)
qed

end
