(* ===== verification/Connectors.thy ===== *)
theory Connectors
  imports Tcp
begin

text \<open>
  The connectors of \<open>tunnel/connectors\<close>: how an endpoint opens the connection a tunnel carries.  The
  locale states the contract of the trait \<open>TunnelConnector\<close>: a connection leads to an address of the
  requested destination and nowhere else.
\<close>

section \<open>Connections\<close>

text \<open>A connection: its kind, its peer, and what is still to be read of an exchange with a proxy.\<close>

datatype 'e conn = TcpConn socket_addr "'e read_event list" | UdpConn socket_addr

fun conn_peer :: "'e conn \<Rightarrow> socket_addr" where
  "conn_peer (TcpConn a rs) = a"
| "conn_peer (UdpConn a) = a"

datatype 'e connector_error =
    ConnectFailed "'e connect_error"
  | ProxyFailed "'e proxy_error"
  | ProxyNotSupported
  | MissingRemote
  | InvalidSocks5Protocol local_protocol
  | UdpCannotUseProxy

type_synonym 'e proxy_io = "socket_addr \<Rightarrow> string \<Rightarrow> (unit, 'e) result \<times> 'e read_event list"

record 'sys tunnel_connector =
  tc_host :: host
  tc_port :: u16
  tc_so_mark :: so_mark
  tc_timeout :: duration
  tc_dns :: "'sys dns_resolver"

record 'sys socks5_connector =
  sc_so_mark :: so_mark
  sc_timeout :: duration
  sc_dns :: "'sys dns_resolver"

section \<open>Operations\<close>

definition connector_dest :: "'sys tunnel_connector \<Rightarrow> remote_addr option \<Rightarrow> host \<times> u16" where
  "connector_dest c remote =
     (case remote of Some r \<Rightarrow> (ra_host r, ra_port r) | None \<Rightarrow> (tc_host c, tc_port c))"

definition tcp_connector_connect ::
  "'e net_env \<Rightarrow> ('sys, 'ech, 'e) dns_lib \<Rightarrow> 'sys tunnel_connector \<Rightarrow> remote_addr option
   \<Rightarrow> ('e conn, 'e connector_error) result" where
  "tcp_connector_connect N D c remote =
     (case connector_dest c remote of (h, p) \<Rightarrow>
        map_ok (\<lambda>a. TcpConn a []) (map_err ConnectFailed
          (tcp_connect N D h p (tc_so_mark c) (tc_timeout c) (tc_dns c))))"

definition tcp_connector_connect_with_http_proxy ::
  "'e net_env \<Rightarrow> ('sys, 'ech, 'e) dns_lib \<Rightarrow> text_lib \<Rightarrow> 'e proxy_io \<Rightarrow> 'sys tunnel_connector \<Rightarrow> url \<Rightarrow> remote_addr option
   \<Rightarrow> ('e conn, 'e connector_error) result" where
  "tcp_connector_connect_with_http_proxy N D T X c proxy remote =
     (case connector_dest c remote of (h, p) \<Rightarrow>
        map_ok (\<lambda>(a, rs). TcpConn a rs) (map_err ProxyFailed
          (connect_with_http_proxy N D T X proxy h p (tc_so_mark c) (tc_timeout c) (tc_dns c))))"

definition udp_connector_connect ::
  "'e net_env \<Rightarrow> ('sys, 'ech, 'e) dns_lib \<Rightarrow> 'sys tunnel_connector \<Rightarrow> remote_addr option
   \<Rightarrow> ('e conn, 'e connector_error) result" where
  "udp_connector_connect N D c remote =
     map_ok UdpConn (map_err ConnectFailed
       (udp_connect N D (tc_host c) (tc_port c) (tc_timeout c) (tc_so_mark c) (tc_dns c)))"

text \<open>The default implementation of the trait, which UDP keeps.\<close>

definition udp_connector_connect_with_http_proxy ::
  "'sys tunnel_connector \<Rightarrow> url \<Rightarrow> remote_addr option \<Rightarrow> ('e conn, 'e connector_error) result" where
  "udp_connector_connect_with_http_proxy c proxy remote = Err ProxyNotSupported"

definition socks5_connector_connect ::
  "'e net_env \<Rightarrow> ('sys, 'ech, 'e) dns_lib \<Rightarrow> 'sys socks5_connector \<Rightarrow> remote_addr option
   \<Rightarrow> ('e conn, 'e connector_error) result" where
  "socks5_connector_connect N D c remote =
     (case remote of
        None \<Rightarrow> Err MissingRemote
      | Some r \<Rightarrow>
         (case ra_protocol r of
            Tcp _ \<Rightarrow> map_ok (\<lambda>a. TcpConn a []) (map_err ConnectFailed
                       (tcp_connect N D (ra_host r) (ra_port r) (sc_so_mark c) (sc_timeout c) (sc_dns c)))
          | Udp _ \<Rightarrow> map_ok UdpConn (map_err ConnectFailed
                       (udp_connect N D (ra_host r) (ra_port r) (sc_timeout c) (sc_so_mark c) (sc_dns c)))
          | p \<Rightarrow> Err (InvalidSocks5Protocol p)))"

definition socks5_connector_connect_with_http_proxy ::
  "'e net_env \<Rightarrow> ('sys, 'ech, 'e) dns_lib \<Rightarrow> text_lib \<Rightarrow> 'e proxy_io \<Rightarrow> 'sys socks5_connector \<Rightarrow> url \<Rightarrow> remote_addr option
   \<Rightarrow> ('e conn, 'e connector_error) result" where
  "socks5_connector_connect_with_http_proxy N D T X c proxy remote =
     (case remote of
        None \<Rightarrow> Err MissingRemote
      | Some r \<Rightarrow>
         (case ra_protocol r of
            Tcp _ \<Rightarrow> map_ok (\<lambda>(a, rs). TcpConn a rs) (map_err ProxyFailed
               (connect_with_http_proxy N D T X proxy (ra_host r) (ra_port r) (sc_so_mark c) (sc_timeout c) (sc_dns c)))
          | _ \<Rightarrow> Err UdpCannotUseProxy))"

section \<open>The contract\<close>

lemma tcp_connect_addr:
  assumes "tcp_connect N D h port mark tmo dns = Ok a"
  shows "\<exists>addrs. host_addrs D dns h port = Ok addrs \<and> a \<in> set addrs"
proof -
  obtain addrs where addrs: "host_addrs D dns h port = Ok addrs"
    using assms by (cases "host_addrs D dns h port") (auto simp: tcp_connect_def)
  obtain ts l where ts: "tcp_spawn N mark tmo 0 addrs None = Ok (ts, l)"
    using assms addrs by (cases "tcp_spawn N mark tmo 0 addrs None") (auto simp: tcp_connect_def)
  have a: "fst (join_loop (by_finish_time ts) l) = Some a"
    using assms addrs ts by (auto simp: tcp_connect_def split: prod.split_asm option.split_asm)
  show ?thesis
    using tcp_dial.winner [OF ts] a addrs by (auto simp: responds_def)
qed

lemma udp_connect_addr:
  assumes "udp_connect N D h port tmo mark dns = Ok a"
  shows "\<exists>addrs. host_addrs D dns h port = Ok addrs \<and> a \<in> set addrs"
proof -
  obtain addrs where addrs: "host_addrs D dns h port = Ok addrs"
    using assms by (cases "host_addrs D dns h port") (auto simp: udp_connect_def)
  obtain ts where ts: "udp_spawn N mark tmo 0 addrs = Ok ts"
    using assms addrs by (cases "udp_spawn N mark tmo 0 addrs") (auto simp: udp_connect_def)
  have a: "fst (join_loop (by_finish_time ts) None) = Some a"
    using assms addrs ts by (auto simp: udp_connect_def split: prod.split_asm option.split_asm)
  have ts': "map_ok (\<lambda>ts. (ts, None)) (udp_spawn N mark tmo 0 addrs) = Ok (ts, None)" using ts by simp
  show ?thesis
    using udp_dial.winner [OF ts'] a addrs by (auto simp: responds_def)
qed

locale connector =
  fixes dial :: "'c \<Rightarrow> remote_addr option \<Rightarrow> ('e conn, 'e connector_error) result"
    and resolve :: "'c \<Rightarrow> host \<Rightarrow> u16 \<Rightarrow> (socket_addr list, 'e connect_error) result"
    and dest :: "'c \<Rightarrow> remote_addr option \<Rightarrow> (host \<times> u16) option"
  assumes dial_dest: "dial c remote = Ok cn \<Longrightarrow>
      \<exists>h p addrs. dest c remote = Some (h, p) \<and> resolve c h p = Ok addrs \<and> conn_peer cn \<in> set addrs"
    and resolve_ip: "host_ip h = Some ip \<Longrightarrow> resolve c h p = Ok [socket_addr_new ip p]"
begin

text \<open>A destination that is an IP address is reached at that very address and port.\<close>

lemma dial_ip:
  assumes "dial c remote = Ok cn" "dest c remote = Some (h, p)" "host_ip h = Some ip"
  shows "conn_peer cn = socket_addr_new ip p"
  using dial_dest [OF assms(1)] assms(2) resolve_ip [OF assms(3)] by auto

end

lemma host_addrs_ip: "host_ip h = Some ip \<Longrightarrow> host_addrs D dns h p = Ok [socket_addr_new ip p]"
  by (cases h) (auto simp: host_addrs_def)

definition socks5_dest :: "'sys socks5_connector \<Rightarrow> remote_addr option \<Rightarrow> (host \<times> u16) option" where
  "socks5_dest c remote = map_option (\<lambda>r. (ra_host r, ra_port r)) remote"

interpretation tcp_connector: connector "tcp_connector_connect N D" "\<lambda>c. host_addrs D (tc_dns c)"
    "\<lambda>c r. Some (connector_dest c r)" for N D
  by unfold_locales
     (auto simp: tcp_connector_connect_def result_simps host_addrs_ip dest!: tcp_connect_addr split: prod.splits)

interpretation udp_connector: connector "udp_connector_connect N D" "\<lambda>c. host_addrs D (tc_dns c)"
    "\<lambda>c r. Some (tc_host c, tc_port c)" for N D
  by unfold_locales
     (auto simp: udp_connector_connect_def result_simps host_addrs_ip dest!: udp_connect_addr)

interpretation socks5_connector: connector "socks5_connector_connect N D" "\<lambda>c. host_addrs D (sc_dns c)"
    socks5_dest for N D
  by unfold_locales
     (auto simp: socks5_connector_connect_def socks5_dest_def result_simps host_addrs_ip
       dest!: tcp_connect_addr udp_connect_addr split: option.splits local_protocol.splits)

text \<open>
  A reverse SOCKS5 tunnel connects to the destination the server names and to nothing else: with an
  IP destination the peer is that address and port, and a request without destination or for another
  protocol than TCP and UDP is refused.
\<close>

lemma socks5_connector_reaches_destination:
  assumes "socks5_connector_connect N D c remote = Ok cn"
  shows "\<exists>r. remote = Some r \<and> ((\<exists>b. ra_protocol r = Tcp b) \<or> (\<exists>t. ra_protocol r = Udp t)) \<and>
     (\<forall>ip. host_ip (ra_host r) = Some ip \<longrightarrow> conn_peer cn = socket_addr_new ip (ra_port r))"
proof -
  obtain r where r: "remote = Some r" "(\<exists>b. ra_protocol r = Tcp b) \<or> (\<exists>t. ra_protocol r = Udp t)"
    using assms by (auto simp: socks5_connector_connect_def split: option.splits local_protocol.splits)
  then show ?thesis
    using socks5_connector.dial_ip [OF assms] by (auto simp: socks5_dest_def)
qed

lemma socks5_connector_reaches_destination_instance:
  "\<exists>r. Some \<lparr>ra_protocol = Tcp False, ra_host = Ipv4 0x0A000001, ra_port = 3128\<rparr> = Some r \<and>
     ((\<exists>b. ra_protocol r = Tcp b) \<or> (\<exists>t. ra_protocol r = Udp t)) \<and>
     (\<forall>ip. host_ip (ra_host r) = Some ip \<longrightarrow>
        conn_peer (TcpConn (SocketAddrV4 0x0A000001 3128) [] :: string conn) = socket_addr_new ip (ra_port r))"
  using demo_tcp_connect
  by (intro socks5_connector_reaches_destination
       [of demo_net demo_dns "\<lparr>sc_so_mark = None, sc_timeout = from_secs 10, sc_dns = System\<rparr>"])
     (simp add: socks5_connector_connect_def)

end
