(* ===== verification/Rate_Limiter.thy ===== *)
theory Rate_Limiter
  imports Prelude
begin

text \<open>
  Bandwidth limits per tunnel (\<open>tunnel/rate_limiter.rs\<close>): the pool of limiters shared by the
  connections of a tunnel, the jittered request sizes, and the gate in front of every read and write.
  The crate \<open>governor\<close> is a parameter: the state \<open>'l\<close> of a limiter and \<open>check_n\<close>, which charges a
  request to it.
\<close>

unbundle bit_operations_syntax

section \<open>Quotas\<close>

definition CHUNK :: u32 where
  "CHUNK = 16384"

definition REQUEST_JITTER_PERCENT :: u32 where
  "REQUEST_JITTER_PERCENT = 10"

record quota =
  q_per_second :: u32
  q_burst :: u32

text \<open>
  The limiter for \<open>v\<close> MiB/s.  The cast of \<open>bytes_per_sec\<close> to \<open>u32\<close> wraps.  The product with 1.2 is a
  double, whose cast saturates: its relative error is below \<open>2^-53\<close>, so the cast gives the integer part
  of the exact product, \<open>6/5\<close> of the rate, for every \<open>u16\<close>.
\<close>

definition build_limiter :: "u16 option \<Rightarrow> quota option" where
  "build_limiter m =
     map_option (\<lambda>v.
       let bytes_per_sec = (ucast v :: u64) * 1024 * 1024;
           bps = max (ucast bytes_per_sec :: u32) 1;
           burst = max (of_nat (min (unat bytes_per_sec * 6 div 5) (2 ^ 32 - 1)) :: u32) 1
       in \<lparr>q_per_second = bps, q_burst = burst\<rparr>) m"

section \<open>The pool\<close>

text \<open>
  Limiters are shared handles: the pool hands out the identifiers of limiters, \<open>rp_quotas\<close> holds the
  quota each was made with and \<open>rp_next\<close> the next free identifier.
\<close>

record directional_limiters =
  dl_read :: "nat option"
  dl_write :: "nat option"

record rate_limiter_pool =
  rp_limiters :: "u128 \<rightharpoonup> directional_limiters"
  rp_quotas :: "nat \<rightharpoonup> quota"
  rp_next :: nat

definition pool_new :: rate_limiter_pool where
  "pool_new = \<lparr>rp_limiters = Map.empty, rp_quotas = Map.empty, rp_next = 0\<rparr>"

definition alloc_limiter :: "u16 option \<Rightarrow> rate_limiter_pool \<Rightarrow> nat option \<times> rate_limiter_pool" where
  "alloc_limiter m p =
     (case build_limiter m of
        None \<Rightarrow> (None, p)
      | Some q \<Rightarrow> (Some (rp_next p), p\<lparr>rp_quotas := (rp_quotas p)(rp_next p \<mapsto> q), rp_next := rp_next p + 1\<rparr>))"

definition pool_wrap ::
  "rate_limiter_pool \<Rightarrow> u128 \<Rightarrow> u16 option \<Rightarrow> u16 option \<Rightarrow> (nat option \<times> nat option) \<times> rate_limiter_pool" where
  "pool_wrap p tunnel_id upload_m download_m =
     (case rp_limiters p tunnel_id of
        Some l \<Rightarrow> ((dl_read l, dl_write l), p)
      | None \<Rightarrow>
         (case alloc_limiter download_m p of (r, p1) \<Rightarrow>
          (case alloc_limiter upload_m p1 of (w, p2) \<Rightarrow>
             ((r, w), p2\<lparr>rp_limiters := (rp_limiters p2)(tunnel_id \<mapsto> \<lparr>dl_read = r, dl_write = w\<rparr>)\<rparr>))))"

section \<open>Jitter\<close>

definition JITTER_STATE :: u64 where
  "JITTER_STATE = 0x9E3779B97F4A7C15"

definition xorshift :: "u64 \<Rightarrow> u64" where
  "xorshift cur =
     (let x = cur XOR push_bit 13 cur;
          x = x XOR drop_bit 7 x
      in x XOR push_bit 17 x)"

text \<open>
  The compare-and-exchange loop: \<open>actual\<close> lists the values other threads stored each time the exchange
  failed.  The result is the state that was stored and the roll.
\<close>

fun next_jitter_roll :: "u64 \<Rightarrow> u64 list \<Rightarrow> u64 \<times> u32" where
  "next_jitter_roll cur [] = (xorshift cur, ucast (xorshift cur))"
| "next_jitter_roll cur (actual # rest) = next_jitter_roll actual rest"

definition clamp :: "'a::linorder \<Rightarrow> 'a \<Rightarrow> 'a \<Rightarrow> 'a" where
  "clamp x lo hi = (if x < lo then lo else if x > hi then hi else x)"

definition jittered_chunk :: "u32 \<Rightarrow> u32 \<Rightarrow> u32" where
  "jittered_chunk base roll =
     (let base = clamp base 1 CHUNK;
          span = REQUEST_JITTER_PERCENT * 2 + 1;
          pct = 100 - REQUEST_JITTER_PERCENT + (roll mod span);
          n = ucast (((ucast base :: u64) * (ucast pct :: u64)) div 100) :: u32
      in clamp n 1 CHUNK)"

section \<open>The gate\<close>

datatype check_result = InsufficientCapacity | NotUntil duration | Conforms

text \<open>
  \<open>limiter\<close> is the limiter of the direction, \<open>sleep\<close> the time until which the stream waits.  A poll at
  time \<open>now\<close> with \<open>room\<close> bytes to transfer either waits, or lets at most the returned number of bytes
  through; a request for zero bytes panics in \<open>NonZeroU32::new\<close>.
\<close>

record limited =
  lm_limiter :: "nat option"
  lm_sleep :: "duration option"

definition request_size :: "u64 \<Rightarrow> u32 \<Rightarrow> u32" where
  "request_size room roll =
     (let r = (ucast room :: u32) in min (jittered_chunk (max (min r CHUNK) 1) roll) r)"

datatype gate = Wait | Pass u32

definition gate_poll ::
  "('l \<Rightarrow> duration \<Rightarrow> u32 \<Rightarrow> check_result \<times> 'l) \<Rightarrow> duration \<Rightarrow> u32 \<Rightarrow> u64 \<Rightarrow> limited \<Rightarrow> (nat \<Rightarrow> 'l)
   \<Rightarrow> (gate \<times> limited \<times> (nat \<Rightarrow> 'l)) run" where
  "gate_poll check_n now roll room s ls =
     (if (case lm_sleep s of None \<Rightarrow> False | Some t \<Rightarrow> now < t) then Returns (Wait, s, ls)
      else
        (let s = s\<lparr>lm_sleep := None\<rparr>; n = request_size room roll in
         case lm_limiter s of
           None \<Rightarrow> Returns (Pass n, s, ls)
         | Some i \<Rightarrow>
             if n = 0 then Panics ''called `Option::unwrap()` on a `None` value''
             else (case check_n (ls i) now n of
                (InsufficientCapacity, l) \<Rightarrow>
                  Returns (Wait, s\<lparr>lm_sleep := Some (now + from_millis 10)\<rparr>, ls(i := l))
              | (NotUntil wait, l) \<Rightarrow> Returns (Wait, s\<lparr>lm_sleep := Some (now + wait)\<rparr>, ls(i := l))
              | (Conforms, l) \<Rightarrow> Returns (Pass n, s, ls(i := l)))))"

text \<open>
  \<open>poll_read\<close>: the inner reader is offered a buffer of \<open>n\<close> bytes; what it filled is appended to
  \<open>filled\<close>.  \<open>poll_write\<close>: the inner writer is offered the first \<open>n\<close> bytes.
\<close>

definition rl_poll_read ::
  "('l \<Rightarrow> duration \<Rightarrow> u32 \<Rightarrow> check_result \<times> 'l) \<Rightarrow> duration \<Rightarrow> u32 \<Rightarrow> (nat \<Rightarrow> (bytes, 'e) result poll)
   \<Rightarrow> limited \<Rightarrow> (nat \<Rightarrow> 'l) \<Rightarrow> u64 \<Rightarrow> bytes
   \<Rightarrow> ((unit, 'e) result poll \<times> bytes \<times> limited \<times> (nat \<Rightarrow> 'l)) run" where
  "rl_poll_read check_n now roll inner s ls room filled =
     run_then (gate_poll check_n now roll room s ls) (\<lambda>(g, s, ls).
       case g of
         Wait \<Rightarrow> Returns (Pending, filled, s, ls)
       | Pass n \<Rightarrow>
          (case inner (unat n) of
             Pending \<Rightarrow> Returns (Pending, filled, s, ls)
           | Ready (Err e) \<Rightarrow> Returns (Ready (Err e), filled, s, ls)
           | Ready (Ok bs) \<Rightarrow> Returns (Ready (Ok ()), filled @ take (unat n) bs, s, ls)))"

definition rl_poll_write ::
  "('l \<Rightarrow> duration \<Rightarrow> u32 \<Rightarrow> check_result \<times> 'l) \<Rightarrow> duration \<Rightarrow> u32 \<Rightarrow> (bytes \<Rightarrow> (nat, 'e) result poll)
   \<Rightarrow> limited \<Rightarrow> (nat \<Rightarrow> 'l) \<Rightarrow> bytes \<Rightarrow> ((nat, 'e) result poll \<times> limited \<times> (nat \<Rightarrow> 'l)) run" where
  "rl_poll_write check_n now roll inner s ls buf =
     run_then (gate_poll check_n now roll (of_nat (length buf)) s ls) (\<lambda>(g, s, ls).
       case g of
         Wait \<Rightarrow> Returns (Pending, s, ls)
       | Pass n \<Rightarrow> Returns (inner (take (unat n) buf), s, ls))"

section \<open>Quotas of the configured rates\<close>

lemma unat_ucast_up: "LENGTH('a::len) \<le> LENGTH('b::len) \<Longrightarrow> unat (ucast (w :: 'a word) :: 'b word) = unat w"
proof -
  assume "LENGTH('a) \<le> LENGTH('b)"
  then have "unat w < 2 ^ LENGTH('b)"
    using unsigned_less [of w, where ?'a = nat] by (meson less_le_trans one_le_numeral power_increasing)
  then show ?thesis by (simp add: unsigned_ucast_eq take_bit_nat_eq_self)
qed

lemma unat_rate: "unat ((ucast (v :: u16) :: u64) * 1024 * 1024) = unat v * 2 ^ 20"
proof -
  have "unat v < 2 ^ 16" using unsigned_less [of v, where ?'a = nat] by simp
  then show ?thesis by (simp add: unat_word_ariths unat_ucast_up)
qed

text \<open>
  For the rates a tunnel can have (1 to 10 MiB/s) the quota is exact: \<open>v * 2^20\<close> bytes per second
  and bursts of \<open>6/5\<close> of it; no cast loses anything, and every request of at most a chunk fits the burst.
\<close>

lemma build_limiter_exact:
  assumes "1 \<le> v" "v \<le> 10"
  shows "\<exists>q. build_limiter (Some v) = Some q \<and> unat (q_per_second q) = unat v * 2 ^ 20 \<and>
           unat (q_burst q) = unat v * 2 ^ 20 * 6 div 5 \<and> CHUNK \<le> q_burst q"
proof -
  have v: "1 \<le> unat v" "unat v \<le> 10" using assms by (simp_all add: word_le_nat_alt)
  define r where "r = unat v * 2 ^ 20"
  have r: "1 \<le> r" "r \<le> 10 * 2 ^ 20" using v by (simp_all add: r_def)
  have "of_nat r = (of_nat (unat ((ucast v :: u64) * 1024 * 1024)) :: u64)"
    unfolding unat_rate r_def ..
  then have rate: "(ucast v :: u64) * 1024 * 1024 = of_nat r"
    by (simp only: of_nat_unat ucast_id)
  have big: "16384 \<le> r * 6 div 5" using v by (simp add: r_def)
  have casts: "unat (of_nat r :: u64) = r" "(ucast (of_nat r :: u64) :: u32) = of_nat r"
    using r by (simp_all add: unat_of_nat_eq_iff unsigned_of_nat take_bit_nat_eq_self)
  have q: "build_limiter (Some v) = Some \<lparr>q_per_second = max (of_nat r) 1,
      q_burst = max (of_nat (min (r * 6 div 5) (2 ^ 32 - 1))) 1\<rparr>"
    unfolding build_limiter_def option.map Let_def rate casts ..
  have 1: "unat (max (of_nat r :: u32) 1) = r"
    using r by (simp add: max_def word_le_nat_alt unat_of_nat_eq_iff)
  have 2: "unat (max (of_nat (min (r * 6 div 5) (2 ^ 32 - 1)) :: u32) 1) = r * 6 div 5"
    using r big by (simp add: max_def word_le_nat_alt unat_of_nat_eq_iff)
  show ?thesis
    unfolding q word_le_nat_alt [of CHUNK] r_def [symmetric] using 1 2 big by (simp add: CHUNK_def)
qed

lemma build_limiter_exact_instance:
  "\<exists>q. build_limiter (Some 10) = Some q \<and> unat (q_per_second q) = unat (10 :: u16) * 2 ^ 20 \<and>
     unat (q_burst q) = unat (10 :: u16) * 2 ^ 20 * 6 div 5 \<and> CHUNK \<le> q_burst q"
  by (rule build_limiter_exact) simp_all

section \<open>Sharing of limiters\<close>

text \<open>
  Every limiter of the pool is allocated, and no limiter serves two tunnels or both directions of one.
\<close>

definition slot :: "rate_limiter_pool \<Rightarrow> u128 \<times> bool \<Rightarrow> nat option" where
  "slot p kd = (case rp_limiters p (fst kd) of
      None \<Rightarrow> None | Some l \<Rightarrow> if snd kd then dl_read l else dl_write l)"

definition pool_inv :: "rate_limiter_pool \<Rightarrow> bool" where
  "pool_inv p \<longleftrightarrow> (\<forall>kd i. slot p kd = Some i \<longrightarrow> i < rp_next p) \<and>
     (\<forall>kd kd' i. slot p kd = Some i \<longrightarrow> slot p kd' = Some i \<longrightarrow> kd = kd')"

lemma pool_inv_new: "pool_inv pool_new"
  by (simp add: pool_inv_def slot_def pool_new_def)

lemma alloc_limiter_props:
  assumes "alloc_limiter m p = (i, p')"
  shows "rp_limiters p' = rp_limiters p" "rp_next p \<le> rp_next p'"
    "i = (if m = None then None else Some (rp_next p))" "m \<noteq> None \<Longrightarrow> rp_next p' = rp_next p + 1"
  using assms by (auto simp: alloc_limiter_def build_limiter_def split: option.splits)

lemma pool_wrap_new_slot:
  assumes "pool_wrap p t u d = ((r, w), p')" "rp_limiters p t = None"
  shows "slot p' kd = (if fst kd = t then (if snd kd then r else w) else slot p kd)"
    and "r = Some i \<Longrightarrow> rp_next p \<le> i \<and> i < rp_next p'" and "w = Some j \<Longrightarrow> rp_next p \<le> j \<and> j < rp_next p'"
    and "r = Some i \<Longrightarrow> w = Some j \<Longrightarrow> i < j" and "rp_next p \<le> rp_next p'"
proof -
  obtain p1 where p1: "alloc_limiter d p = (r, p1)" using assms by (auto simp: pool_wrap_def split: prod.splits)
  obtain p2 where p2: "alloc_limiter u p1 = (w, p2)"
    and p': "p' = p2\<lparr>rp_limiters := (rp_limiters p2)(t \<mapsto> \<lparr>dl_read = r, dl_write = w\<rparr>)\<rparr>"
    using assms p1 by (auto simp: pool_wrap_def split: prod.splits)
  note a = alloc_limiter_props [OF p1] and b = alloc_limiter_props [OF p2]
  show "slot p' kd = (if fst kd = t then (if snd kd then r else w) else slot p kd)"
    using a(1) b(1) by (auto simp: slot_def p')
  show "r = Some i \<Longrightarrow> rp_next p \<le> i \<and> i < rp_next p'" "w = Some j \<Longrightarrow> rp_next p \<le> j \<and> j < rp_next p'"
    "r = Some i \<Longrightarrow> w = Some j \<Longrightarrow> i < j" "rp_next p \<le> rp_next p'"
    using a(2-4) b(2-4) by (auto simp: p' split: if_splits)
qed

lemma pool_inv_wrap:
  assumes "pool_inv p" "pool_wrap p t u d = (rw, p')"
  shows "pool_inv p'"
proof (cases "rp_limiters p t")
  case (Some l)
  then show ?thesis using assms by (auto simp: pool_wrap_def)
next
  case None
  obtain r w where rw: "rw = (r, w)" by fastforce
  note n = pool_wrap_new_slot [OF assms(2) [unfolded rw] None]
  have lt: "slot p kd = Some i \<Longrightarrow> i < rp_next p" for kd i using assms(1) unfolding pool_inv_def by blast
  show ?thesis unfolding pool_inv_def n(1)
  proof (intro conjI allI impI)
    fix kd i assume "(if fst kd = t then if snd kd then r else w else slot p kd) = Some i"
    then show "i < rp_next p'" using n(2, 3, 5) lt by (fastforce split: if_splits)
  next
    fix kd kd' i
    assume "(if fst kd = t then if snd kd then r else w else slot p kd) = Some i"
      "(if fst kd' = t then if snd kd' then r else w else slot p kd') = Some i"
    then show "kd = kd'"
      using n(2-4) lt assms(1) unfolding pool_inv_def
      by (cases kd; cases kd') (fastforce split: if_splits)
  qed
qed

text \<open>A sequence of connections: tunnel, upload and download rate of each.\<close>

fun pool_run :: "rate_limiter_pool \<Rightarrow> (u128 \<times> u16 option \<times> u16 option) list \<Rightarrow> rate_limiter_pool" where
  "pool_run p [] = p"
| "pool_run p ((t, u, d) # cs) = pool_run (snd (pool_wrap p t u d)) cs"

lemma pool_inv_run: "pool_inv p \<Longrightarrow> pool_inv (pool_run p cs)"
  by (induction p cs rule: pool_run.induct) (auto intro: pool_inv_wrap [OF _ prod.collapse [symmetric]])

lemma pool_wrap_stable: "slot p kd = Some i \<Longrightarrow> slot (snd (pool_wrap p t u d)) kd = Some i"
  by (auto simp: pool_wrap_def slot_def alloc_limiter_def split: option.splits prod.splits if_splits)

lemma pool_run_stable: "slot p kd = Some i \<Longrightarrow> slot (pool_run p cs) kd = Some i"
  by (induction p cs rule: pool_run.induct) (simp_all add: pool_wrap_stable)

lemma pool_wrap_slot: "pool_wrap p t u d = ((r, w), p') \<Longrightarrow> slot p' (t, True) = r \<and> slot p' (t, False) = w"
  by (auto simp: pool_wrap_def slot_def alloc_limiter_def split: option.splits prod.splits)



section \<open>The jitter generator\<close>

lemma xor_push_bit_eq_0:
  assumes "(x :: 'a::len word) XOR push_bit n x = 0" "0 < n"
  shows "x = 0"
proof -
  have e: "push_bit n x = x" using assms(1) by (metis xor.assoc xor.left_neutral xor_self_eq)
  have "\<not> bit x k" for k
  proof (induction k rule: less_induct)
    case (less k)
    have "bit x k \<longleftrightarrow> bit (push_bit n x) k" by (simp add: e)
    also have "\<dots> \<longleftrightarrow> n \<le> k \<and> k < LENGTH('a) \<and> bit x (k - n)" by (auto simp: bit_push_bit_iff)
    finally show ?case using less [of "k - n"] assms(2) by auto
  qed
  then show ?thesis by (simp add: bit_eq_iff)
qed

lemma xor_drop_bit_eq_0:
  assumes "(x :: 'a::len word) XOR drop_bit n x = 0" "0 < n"
  shows "x = 0"
proof -
  have e: "drop_bit n x = x" using assms(1) by (metis xor.assoc xor.left_neutral xor_self_eq)
  have "\<not> bit x (LENGTH('a) - k)" if "k \<le> LENGTH('a)" for k
    using that
  proof (induction k rule: less_induct)
    case (less k)
    have "bit x (LENGTH('a) - k) \<longleftrightarrow> bit (drop_bit n x) (LENGTH('a) - k)" by (simp add: e)
    also have "\<dots> \<longleftrightarrow> bit x (LENGTH('a) - k + n)" by (simp add: bit_drop_bit_eq add.commute)
    finally have s: "bit x (LENGTH('a) - k) \<longleftrightarrow> bit x (LENGTH('a) - k + n)" .
    show ?case
    proof (cases "n \<le> k")
      case True
      then have "LENGTH('a) - k + n = LENGTH('a) - (k - n)" using less.prems by simp
      then show ?thesis using s less.IH [of "k - n"] assms(2) True less.prems by (cases "k = 0") auto
    next
      case False
      then have "LENGTH('a) \<le> LENGTH('a) - k + n" by simp
      then show ?thesis using s by (metis bit_imp_le_length not_less)
    qed
  qed
  then have "\<not> bit x j" for j
    by (metis bit_imp_le_length diff_diff_cancel diff_le_self less_imp_le)
  then show ?thesis by (simp add: bit_eq_iff)
qed

lemma xorshift_nonzero: "cur \<noteq> 0 \<Longrightarrow> xorshift cur \<noteq> 0"
  unfolding xorshift_def Let_def
  using xor_push_bit_eq_0 [where n = 13 and x = cur] xor_push_bit_eq_0 [where n = 17 and 'a = 64]
    xor_drop_bit_eq_0 [where n = 7 and 'a = 64] by (metis zero_less_numeral)

text \<open>The states the generator goes through, with the stores of other threads interleaved.\<close>

inductive jitter_reachable :: "u64 \<Rightarrow> bool" where
  jitter_init: "jitter_reachable JITTER_STATE"
| jitter_roll: "jitter_reachable cur \<Longrightarrow> (\<forall>a \<in> set actuals. jitter_reachable a)
         \<Longrightarrow> jitter_reachable (fst (next_jitter_roll cur actuals))"

lemma next_jitter_roll_nonzero: "cur \<noteq> 0 \<Longrightarrow> 0 \<notin> set actuals \<Longrightarrow> fst (next_jitter_roll cur actuals) \<noteq> 0"
  by (induction cur actuals rule: next_jitter_roll.induct) (auto dest: xorshift_nonzero)

text \<open>
  The jitter generator never reaches its fixed point 0, from which it would only ever roll 0,
  whatever the other threads interleave.
\<close>

lemma jitter_never_stuck: "jitter_reachable x \<Longrightarrow> x \<noteq> 0"
proof (induction rule: jitter_reachable.induct)
  case jitter_init
  then show ?case by (simp add: JITTER_STATE_def)
next
  case (jitter_roll cur actuals)
  then show ?case by (intro next_jitter_roll_nonzero) auto
qed

lemma jitter_never_stuck_instance: "fst (next_jitter_roll JITTER_STATE [JITTER_STATE]) \<noteq> 0"
  by (rule jitter_never_stuck, rule jitter_roll) (auto intro: jitter_init)

lemma clamp_nat: "clamp x lo hi \<le> hi \<and> lo \<le> clamp x lo hi" if "lo \<le> hi" for x :: "'a::linorder"
  using that by (auto simp: clamp_def)

lemma unat_clamp: "unat (clamp (x :: u32) 1 CHUNK) = clamp (unat x) 1 16384"
  by (simp add: clamp_def CHUNK_def word_less_nat_alt)

text \<open>
  A request size is the requested number of bytes, limited to a chunk, varied by at most 10 percent
  and limited again: no intermediate value overflows its type.
\<close>

lemma jittered_chunk_exact:
  "unat (jittered_chunk base roll) =
     clamp (clamp (unat base) 1 16384 * (90 + unat roll mod 21) div 100) 1 16384"
proof -
  define b where "b = clamp base 1 CHUNK"
  have b: "unat b = clamp (unat base) 1 16384" unfolding b_def by (rule unat_clamp)
  then have ble: "unat b \<le> 16384" using clamp_nat [of 1 16384 "unat base"] by simp
  define pct where "pct = 100 - REQUEST_JITTER_PERCENT + (roll mod (REQUEST_JITTER_PERCENT * 2 + 1))"
  have m: "unat (roll mod 21) = unat roll mod 21" by (simp add: unat_mod)
  have ml: "unat roll mod 21 < 21" by simp
  have pct: "unat pct = 90 + unat roll mod 21"
    unfolding pct_def REQUEST_JITTER_PERCENT_def using m ml by (simp add: unat_word_ariths(1))
  have prod: "unat b * unat pct \<le> 16384 * 110"
    using ble pct ml by (intro mult_le_mono) auto
  have "unat ((ucast b :: u64) * ucast pct) = unat b * unat pct"
    using prod by (simp add: unat_word_ariths unat_ucast_up)
  then have q: "unat (((ucast b :: u64) * ucast pct) div 100) = unat b * unat pct div 100"
    by (simp add: unat_div)
  moreover have "unat b * unat pct div 100 < 2 ^ 32" using prod by simp
  ultimately have "unat (ucast (((ucast b :: u64) * ucast pct) div 100) :: u32) = unat b * unat pct div 100"
    by (simp add: unsigned_ucast_eq take_bit_nat_eq_self)
  then show ?thesis
    unfolding jittered_chunk_def Let_def b_def [symmetric] pct_def [symmetric] unat_clamp by (simp add: b pct)
qed

lemma jittered_chunk_range: "1 \<le> jittered_chunk base roll \<and> jittered_chunk base roll \<le> CHUNK"
proof -
  have "clamp x 1 CHUNK \<le> CHUNK \<and> 1 \<le> clamp x 1 CHUNK" for x :: u32
    by (rule clamp_nat) (simp add: CHUNK_def)
  then show ?thesis by (simp add: jittered_chunk_def Let_def)
qed

lemma request_size_le: "request_size room roll \<le> CHUNK \<and> request_size room roll \<le> ucast room"
  unfolding request_size_def Let_def
  using jittered_chunk_range [of "max (min (ucast room) CHUNK) 1" roll]
  by (meson min.cobounded1 min.cobounded2 order_trans)

lemma request_size_zero: "request_size room roll = 0 \<longleftrightarrow> (ucast room :: u32) = 0"
proof -
  have "jittered_chunk b roll \<noteq> 0" for b
    using jittered_chunk_range [of b roll] by auto
  then show ?thesis by (auto simp: request_size_def Let_def min_def)
qed

section \<open>What passes the gate is paid for\<close>

lemma gate_poll_Pass:
  assumes "gate_poll check_n now roll room s ls = Returns (Pass n, s', ls')"
  shows "n = request_size room roll \<and> lm_limiter s' = lm_limiter s \<and>
    (case lm_limiter s of
       None \<Rightarrow> ls' = ls
     | Some i \<Rightarrow> \<exists>l. check_n (ls i) now n = (Conforms, l) \<and> ls' = ls(i := l))"
  using assms
  by (auto simp: gate_poll_def Let_def split: if_splits option.splits prod.splits check_result.splits)

lemma gate_poll_limiter: "gate_poll check_n now roll room s ls = Returns (g, s', ls') \<Longrightarrow> lm_limiter s' = lm_limiter s"
  by (auto simp: gate_poll_def Let_def split: if_splits option.splits prod.splits check_result.splits)

text \<open>
  A sequence of reads through one limited stream: the time, roll and room of each poll and the inner
  reader's answer.  Beside the bytes received, the run adds up what the limiter granted.
\<close>

definition granted :: "(gate \<times> limited \<times> (nat \<Rightarrow> 'l)) run \<Rightarrow> nat" where
  "granted g = (case g of Returns (Pass n, _, _) \<Rightarrow> unat n | _ \<Rightarrow> 0)"

fun read_run ::
  "('l \<Rightarrow> duration \<Rightarrow> u32 \<Rightarrow> check_result \<times> 'l)
   \<Rightarrow> (duration \<times> u32 \<times> u64 \<times> (nat \<Rightarrow> (bytes, 'e) result poll)) list
   \<Rightarrow> limited \<Rightarrow> (nat \<Rightarrow> 'l) \<Rightarrow> bytes \<Rightarrow> nat \<Rightarrow> (bytes \<times> nat) run" where
  "read_run check_n [] s ls filled paid = Returns (filled, paid)"
| "read_run check_n ((now, roll, room, inner) # ps) s ls filled paid =
     run_then (rl_poll_read check_n now roll inner s ls room filled) (\<lambda>(_, filled', s', ls').
       read_run check_n ps s' ls' filled' (paid + granted (gate_poll check_n now roll room s ls)))"

lemma rl_poll_read_length:
  assumes "rl_poll_read check_n now roll inner s ls room filled = Returns (res, filled', s', ls')"
  shows "length filled' \<le> length filled + granted (gate_poll check_n now roll room s ls)"
proof -
  obtain g s1 ls1 where g: "gate_poll check_n now roll room s ls = Returns (g, s1, ls1)"
    using assms by (auto simp: rl_poll_read_def result_simps)
  show ?thesis
  proof (cases g)
    case Wait
    then show ?thesis using assms g by (simp add: rl_poll_read_def)
  next
    case (Pass n)
    then show ?thesis using assms g
      by (auto simp: rl_poll_read_def granted_def split: poll.splits result.splits)
  qed
qed


text \<open>A bucket of tokens as a limiter: requests conform while tokens are left.\<close>

definition demo_check :: "nat \<Rightarrow> duration \<Rightarrow> u32 \<Rightarrow> check_result \<times> nat" where
  "demo_check tokens now n = (if unat n \<le> tokens then (Conforms, tokens - unat n) else (NotUntil (from_millis 1), tokens))"

definition demo_read :: "nat \<Rightarrow> (bytes, unit) result poll" where
  "demo_read n = Ready (Ok (replicate (min n 3) 7))"

lemma demo_read_run:
  "read_run demo_check [(0, 0, 8, demo_read), (0, 0, 8, demo_read)] \<lparr>lm_limiter = Some 0, lm_sleep = None\<rparr>
     (\<lambda>_. 10) [] 0 = Returns ([7, 7, 7], 7)"
  by code_simp


text \<open>
  A limiter is charged for a read that transfers nothing: when the inner reader is not ready, the
  poll returns \<open>Pending\<close> with the buffer unchanged and the request has been paid for, so that the next
  poll pays again.
\<close>

lemma pending_read_is_charged:
  assumes "lm_limiter s = Some i" "lm_sleep s = None" "request_size room roll \<noteq> 0"
    and "check_n (ls i) now (request_size room roll) = (Conforms, l)"
    and "inner (unat (request_size room roll)) = Pending"
  shows "rl_poll_read check_n now roll inner s ls room filled = Returns (Pending, filled, s\<lparr>lm_sleep := None\<rparr>, ls(i := l))"
  using assms by (simp add: rl_poll_read_def gate_poll_def Let_def)

lemma pending_read_is_charged_instance:
  "rl_poll_read demo_check 0 0 (\<lambda>_. Pending :: (bytes, unit) result poll) \<lparr>lm_limiter = Some 0, lm_sleep = None\<rparr>
     (\<lambda>_. 10) 8 [] = Returns (Pending, [], \<lparr>lm_limiter = Some 0, lm_sleep = None\<rparr>, (\<lambda>_. 10)(0 := 3))"
proof -
  have n: "request_size 8 0 = 7" by code_simp
  show ?thesis
    using pending_read_is_charged [of "\<lparr>lm_limiter = Some 0, lm_sleep = None\<rparr>" 0 8 0 demo_check "\<lambda>_. 10" 0 3
        "\<lambda>_. Pending :: (bytes, unit) result poll" "[]"]
    by (simp add: n demo_check_def)
qed

text \<open>
  A limited stream panics on an empty buffer: a write of zero bytes asks the limiter for zero bytes,
  which \<open>NonZeroU32::new(0).unwrap()\<close> does not allow.
\<close>

lemma empty_write_panics:
  "\<exists>m. rl_poll_write check_n now roll inner \<lparr>lm_limiter = Some i, lm_sleep = None\<rparr> ls [] = Panics m"
proof -
  have "request_size 0 roll = 0" by (simp add: request_size_zero)
  then show ?thesis by (simp add: rl_poll_write_def gate_poll_def Let_def)
qed

end
