(* ===== verification/Listeners.thy ===== *)
theory Listeners
  imports Http_Msg
begin

text \<open>
  The listeners of \<open>tunnel/listeners\<close>, which turn accepted connections into tunnel requests, and the
  loop \<open>WsClient::run_tunnel\<close> that serves them.  The trait \<open>TunnelListener\<close> is the locale
  \<open>listener\<close>: what a listener emits can be put into a token.  \<open>'s\<close> is the type of an accepted stream;
  what the socket underneath answers to a poll is an argument.
\<close>

section \<open>Listeners\<close>

type_synonym ('s, 'e) accept = "('s, 'e) result option poll"
type_synonym ('s, 'e) emit = "('s \<times> remote_addr, 'e) result option poll"

fun emit_with :: "('a \<Rightarrow> 's \<times> remote_addr) \<Rightarrow> ('a, 'e) accept \<Rightarrow> ('s, 'e) emit" where
  "emit_with f Pending = Pending"
| "emit_with f (Ready None) = Ready None"
| "emit_with f (Ready (Some (Err e))) = Ready (Some (Err e))"
| "emit_with f (Ready (Some (Ok a))) = Ready (Some (Ok (f a)))"

record dest_listener =
  dl_dest :: "host \<times> u16"
  dl_proxy_protocol :: bool

definition tcp_listener_poll :: "dest_listener \<Rightarrow> ('s, 'e) accept \<Rightarrow> ('s, 'e) emit" where
  "tcp_listener_poll l =
     emit_with (\<lambda>s. (s, \<lparr>ra_protocol = Tcp (dl_proxy_protocol l), ra_host = fst (dl_dest l), ra_port = snd (dl_dest l)\<rparr>))"

definition unix_listener_poll :: "dest_listener \<Rightarrow> ('s, 'e) accept \<Rightarrow> ('s, 'e) emit" where
  "unix_listener_poll l =
     emit_with (\<lambda>s. (s, \<lparr>ra_protocol = Tcp (dl_proxy_protocol l), ra_host = fst (dl_dest l), ra_port = snd (dl_dest l)\<rparr>))"

record udp_listener =
  ul_dest :: "host \<times> u16"
  ul_timeout :: "duration option"

definition udp_listener_poll :: "udp_listener \<Rightarrow> ('s, 'e) accept \<Rightarrow> ('s, 'e) emit" where
  "udp_listener_poll l =
     emit_with (\<lambda>s. (s, \<lparr>ra_protocol = Udp (ul_timeout l), ra_host = fst (ul_dest l), ra_port = snd (ul_dest l)\<rparr>))"

text \<open>The HTTP proxy and the SOCKS5 server hand over the destination their client asked for.\<close>

definition http_proxy_listener_poll :: "bool \<Rightarrow> ('s \<times> host \<times> u16, 'e) accept \<Rightarrow> ('s, 'e) emit" where
  "http_proxy_listener_poll proxy_protocol =
     emit_with (\<lambda>(s, h, p). (s, \<lparr>ra_protocol = Tcp proxy_protocol, ra_host = h, ra_port = p\<rparr>))"

text \<open>\<open>Socks5Stream::local_protocol\<close>: a stream is either TCP or UDP.\<close>

datatype 's socks5_stream = Socks5Tcp 's | Socks5Udp 's "duration option"

fun socks5_local_protocol :: "'s socks5_stream \<Rightarrow> local_protocol" where
  "socks5_local_protocol (Socks5Tcp s) = Tcp False"
| "socks5_local_protocol (Socks5Udp s t) = Udp t"

definition socks5_listener_poll :: "('s socks5_stream \<times> host \<times> u16, 'e) accept \<Rightarrow> ('s socks5_stream, 'e) emit" where
  "socks5_listener_poll =
     emit_with (\<lambda>(s, h, p). (s, \<lparr>ra_protocol = socks5_local_protocol s, ra_host = h, ra_port = p\<rparr>))"

text \<open>
  Transparent proxying: the destination is the local address of the accepted stream, whose lookup is
  unwrapped.
\<close>

fun tproxy_emit :: "local_protocol \<Rightarrow> ('s \<times> socket_addr option, 'e) accept \<Rightarrow> ('s, 'e) emit run" where
  "tproxy_emit pr (Ready (Some (Ok (s, a)))) =
     run_then (expect ''called `Result::unwrap()` on an `Err` value'' a) (\<lambda>addr.
       Returns (Ready (Some (Ok (s, \<lparr>ra_protocol = pr, ra_host = fst (to_host_port addr),
         ra_port = snd (to_host_port addr)\<rparr>)))))"
| "tproxy_emit pr Pending = Returns Pending"
| "tproxy_emit pr (Ready None) = Returns (Ready None)"
| "tproxy_emit pr (Ready (Some (Err e))) = Returns (Ready (Some (Err e)))"

definition tproxy_tcp_listener_poll :: "bool \<Rightarrow> ('s \<times> socket_addr option, 'e) accept \<Rightarrow> ('s, 'e) emit run" where
  "tproxy_tcp_listener_poll proxy_protocol = tproxy_emit (Tcp proxy_protocol)"

definition tproxy_udp_listener_poll :: "duration option \<Rightarrow> ('s \<times> socket_addr option, 'e) accept \<Rightarrow> ('s, 'e) emit run" where
  "tproxy_udp_listener_poll timeout = tproxy_emit (Udp timeout)"

text \<open>Standard input and output: one stream, taken by the first poll.\<close>

record 's stdio_listener =
  sl_listener :: "'s option"
  sl_dest :: "host \<times> u16"
  sl_proxy_protocol :: bool

definition stdio_listener_poll :: "'s stdio_listener \<Rightarrow> 's stdio_listener \<times> ('s, 'e) emit" where
  "stdio_listener_poll l =
     (l\<lparr>sl_listener := None\<rparr>,
      Ready (map_option (\<lambda>s. Ok (s, \<lparr>ra_protocol = Tcp (sl_proxy_protocol l),
               ra_host = fst (sl_dest l), ra_port = snd (sl_dest l)\<rparr>)) (sl_listener l)))"

record 's tunnel_stdio_listener =
  tsl_listener :: "'s option"
  tsl_dest :: "host \<times> u16"
  tsl_proxy_protocol :: bool
  tsl_timeout :: "duration option"

definition tunnel_stdio_listener_poll :: "'s tunnel_stdio_listener \<Rightarrow> 's tunnel_stdio_listener \<times> ('s, 'e) emit" where
  "tunnel_stdio_listener_poll l =
     (l\<lparr>tsl_listener := None\<rparr>,
      Ready (map_option (\<lambda>s. Ok (s, \<lparr>ra_protocol = TunnelStdio (tsl_proxy_protocol l) (tsl_timeout l),
               ra_host = fst (tsl_dest l), ra_port = snd (tsl_dest l)\<rparr>)) (tsl_listener l)))"

section \<open>The loop over a listener\<close>

text \<open>
  \<open>run_tunnel\<close>: every connection the listener emits gets a task of its own with a fresh identifier;
  errors are skipped, the end of the stream ends the loop.  The result is the list of tasks spawned for
  the given answers of the listener's socket.
\<close>

fun run_tunnel ::
  "('l \<Rightarrow> 'i \<Rightarrow> ('l \<times> ('s, 'e) emit) run) \<Rightarrow> (nat \<Rightarrow> u128) \<Rightarrow> nat \<Rightarrow> 'l \<Rightarrow> 'i list
   \<Rightarrow> (u128 \<times> remote_addr \<times> 's) list run" where
  "run_tunnel poll uuid n l [] = Returns []"
| "run_tunnel poll uuid n l (i # is) =
     run_then (poll l i) (\<lambda>(l', e).
       case e of
         Pending \<Rightarrow> run_tunnel poll uuid n l' is
       | Ready None \<Rightarrow> Returns []
       | Ready (Some (Err _)) \<Rightarrow> run_tunnel poll uuid n l' is
       | Ready (Some (Ok (s, r))) \<Rightarrow>
           run_then (run_tunnel poll uuid (n + 1) l' is) (\<lambda>ts. Returns ((uuid n, r, s) # ts)))"

locale listener =
  fixes poll :: "'l \<Rightarrow> 'i \<Rightarrow> ('l \<times> ('s, 'e) emit) run"
  assumes emits: "poll l i = Returns (l', Ready (Some (Ok (s, r)))) \<Longrightarrow>
      jwt_encodable (ra_protocol r) \<and> \<not> is_reverse_tunnel (ra_protocol r)"
begin

lemma run_tunnel_emits:
  "run_tunnel poll uuid n l is = Returns ts \<Longrightarrow> (u, r, s) \<in> set ts \<Longrightarrow>
     jwt_encodable (ra_protocol r) \<and> \<not> is_reverse_tunnel (ra_protocol r)"
proof (induction "is" arbitrary: n l ts)
  case (Cons i "is")
  obtain l' e where p: "poll l i = Returns (l', e)"
    using Cons.prems(1) by (cases "poll l i") auto
  show ?case
  proof (cases e)
    case Pending
    then show ?thesis using Cons p by simp
  next
    case (Ready x)
    show ?thesis
    proof (cases x)
      case None
      then show ?thesis using Cons.prems p Ready by simp
    next
      case (Some res)
      show ?thesis
      proof (cases res)
        case (Ok sr)
        obtain s' r' where sr: "sr = (s', r')" by fastforce
        obtain ts' where ts': "run_tunnel poll uuid (n + 1) l' is = Returns ts'" "ts = (uuid n, r', s') # ts'"
          using Cons.prems(1) p Ready Some Ok sr by (auto simp: result_simps)
        have "jwt_encodable (ra_protocol r') \<and> \<not> is_reverse_tunnel (ra_protocol r')"
          using emits p Ready Some Ok sr by blast
        then show ?thesis using Cons.IH [OF ts'(1)] Cons.prems(2) ts'(2) by auto
      next
        case (Err er)
        then show ?thesis using Cons p Ready Some by simp
      qed
    qed
  qed
qed simp

lemma run_tunnel_tokens:
  assumes "run_tunnel poll uuid n l is = Returns ts" "(u, r, s) \<in> set ts"
  shows "\<exists>t. tunnel_to_jwt_token J u r = Returns t"
  using run_tunnel_emits [OF assms] tunnel_to_jwt_token_encodable by blast

end

section \<open>Every listener\<close>

text \<open>
  The listeners a client can start, with the socket underneath each; the dispatch is the one of the
  trait object.
\<close>

datatype 's any_listener =
    TcpListener dest_listener
  | UnixListener dest_listener
  | UdpListener udp_listener
  | HttpProxyListener bool
  | Socks5Listener
  | TproxyTcpListener bool
  | TproxyUdpListener "duration option"
  | StdioListener "'s stdio_listener"
  | TunnelStdioListener "'s tunnel_stdio_listener"

datatype ('s, 'e) socket_event =
    Accepted "('s, 'e) accept"
  | AcceptedTo "('s \<times> host \<times> u16, 'e) accept"
  | AcceptedSocks "('s socks5_stream \<times> host \<times> u16, 'e) accept"
  | AcceptedAt "('s \<times> socket_addr option, 'e) accept"

fun socks5_inner :: "'s socks5_stream \<Rightarrow> 's" where
  "socks5_inner (Socks5Tcp s) = s"
| "socks5_inner (Socks5Udp s t) = s"

fun map_stream :: "('a \<Rightarrow> 'b) \<Rightarrow> ('a, 'e) emit \<Rightarrow> ('b, 'e) emit" where
  "map_stream f (Ready (Some (Ok (s, r)))) = Ready (Some (Ok (f s, r)))"
| "map_stream f (Ready (Some (Err e))) = Ready (Some (Err e))"
| "map_stream f (Ready None) = Ready None"
| "map_stream f Pending = Pending"

fun any_listener_poll :: "'s any_listener \<Rightarrow> ('s, 'e) socket_event \<Rightarrow> ('s any_listener \<times> ('s, 'e) emit) run" where
  "any_listener_poll (TcpListener l) (Accepted a) = Returns (TcpListener l, tcp_listener_poll l a)"
| "any_listener_poll (UnixListener l) (Accepted a) = Returns (UnixListener l, unix_listener_poll l a)"
| "any_listener_poll (UdpListener l) (Accepted a) = Returns (UdpListener l, udp_listener_poll l a)"
| "any_listener_poll (HttpProxyListener b) (AcceptedTo a) = Returns (HttpProxyListener b, http_proxy_listener_poll b a)"
| "any_listener_poll Socks5Listener (AcceptedSocks a) =
     Returns (Socks5Listener, map_stream socks5_inner (socks5_listener_poll a))"
| "any_listener_poll (TproxyTcpListener b) (AcceptedAt a) =
     run_then (tproxy_tcp_listener_poll b a) (\<lambda>e. Returns (TproxyTcpListener b, e))"
| "any_listener_poll (TproxyUdpListener t) (AcceptedAt a) =
     run_then (tproxy_udp_listener_poll t a) (\<lambda>e. Returns (TproxyUdpListener t, e))"
| "any_listener_poll (StdioListener l) _ =
     (case stdio_listener_poll l of (l', e) \<Rightarrow> Returns (StdioListener l', e))"
| "any_listener_poll (TunnelStdioListener l) _ =
     (case tunnel_stdio_listener_poll l of (l', e) \<Rightarrow> Returns (TunnelStdioListener l', e))"
| "any_listener_poll l _ = Returns (l, Pending)"

lemma emit_with_Ok: "emit_with f a = Ready (Some (Ok x)) \<longleftrightarrow> (\<exists>y. a = Ready (Some (Ok y)) \<and> x = f y)"
  by (induction f a rule: emit_with.induct) auto

lemma tproxy_emit_Ok: "tproxy_emit pr a = Returns (Ready (Some (Ok (s, r)))) \<Longrightarrow> ra_protocol r = pr"
  by (induction pr a rule: tproxy_emit.induct) (auto simp: result_simps)

lemma map_stream_Ok: "map_stream f a = Ready (Some (Ok (s, r))) \<longleftrightarrow> (\<exists>t. a = Ready (Some (Ok (t, r))) \<and> s = f t)"
  by (induction f a rule: map_stream.induct) auto

lemma socks5_local_protocol_forward:
  "jwt_encodable (socks5_local_protocol s)" "\<not> is_reverse_tunnel (socks5_local_protocol s)"
  by (cases s; simp)+

lemma any_listener_emits:
  "any_listener_poll l i = Returns (l', Ready (Some (Ok (s, r)))) \<Longrightarrow>
     jwt_encodable (ra_protocol r) \<and> \<not> is_reverse_tunnel (ra_protocol r)"
proof (induction l i rule: any_listener_poll.induct)
  case (5 a)
  then show ?case
    by (auto simp: socks5_listener_poll_def emit_with_Ok map_stream_Ok socks5_local_protocol_forward)
next
  case (6 b a)
  then show ?case by (auto simp: tproxy_tcp_listener_poll_def result_simps dest: tproxy_emit_Ok)
next
  case (7 t a)
  then show ?case by (auto simp: tproxy_udp_listener_poll_def result_simps dest: tproxy_emit_Ok)
qed (auto simp: tcp_listener_poll_def unix_listener_poll_def udp_listener_poll_def http_proxy_listener_poll_def
    stdio_listener_poll_def tunnel_stdio_listener_poll_def emit_with_Ok)

interpretation any_listener: listener any_listener_poll
  by unfold_locales (rule any_listener_emits)

text \<open>
  No local listener ever makes the client panic: for every connection that any listener emits, of
  whatever protocol, the token of its tunnel request is built, and the request is for a forward tunnel.
\<close>

lemma listeners_never_panic_tokens:
  assumes "run_tunnel any_listener_poll uuid n l is = Returns ts" "(u, r, s) \<in> set ts"
  shows "(\<exists>t. tunnel_to_jwt_token J u r = Returns t) \<and> \<not> is_reverse_tunnel (ra_protocol r)"
  using any_listener.run_tunnel_tokens [OF assms] any_listener.run_tunnel_emits [OF assms] by blast

lemma listeners_never_panic_tokens_instance:
  "(\<exists>t. tunnel_to_jwt_token (demo_tokens demo_jwt) 7 demo_dest = Returns t) \<and>
   \<not> is_reverse_tunnel (ra_protocol demo_dest)"
proof (rule listeners_never_panic_tokens)
  show "run_tunnel any_listener_poll (\<lambda>_. 7) 0
      (TcpListener \<lparr>dl_dest = (Domain ''google.com'', 443), dl_proxy_protocol = False\<rparr>)
      [Accepted (Ready (Some (Ok ()))) :: (unit, string) socket_event] = Returns [(7, demo_dest, ())]"
    by (simp add: tcp_listener_poll_def demo_dest_def)
qed simp

end
