(* ===== verification/Reverse_Tunnel.thy ===== *)
theory Reverse_Tunnel
  imports Std_Net
begin

text \<open>
  Listening servers of reverse tunnels (\<open>tunnel/server/reverse_tunnel.rs\<close>): clients that ask for the
  same address share one listening server, which queues accepted connections in a channel of capacity
  10 until a client takes one.  The tasks run concurrently: an event is one step of one task between two
  points where another task can run, and a state is the shared map, the tasks with their channels, and
  what each client is doing.  \<open>'c\<close> is the type of an accepted connection.
\<close>

section \<open>State\<close>

text \<open>
  A server task and its channel: \<open>tk_open\<close> while the task holds the sender, \<open>tk_started\<close> once the task
  has run (from then on its scope guard is armed), \<open>tk_abort\<close> once \<open>abort\<close> was called on it.  The two
  histories record what went through the channel.
\<close>

record 'c server_task =
  tk_key :: socket_addr
  tk_queue :: "'c list"
  tk_open :: bool
  tk_started :: bool
  tk_abort :: bool
  tk_seen :: nat
  tk_accepted :: "'c list"
  tk_delivered :: "'c list"

datatype 'c client = Binding socket_addr | Spawned socket_addr nat | Waiting nat | Got 'c | Failed

record 'c rt_state =
  rt_servers :: "socket_addr \<rightharpoonup> nat"
  rt_tasks :: "'c server_task list"
  rt_clients :: "'c client list"

definition rt_init :: "'c rt_state" where
  "rt_init = \<lparr>rt_servers = Map.empty, rt_tasks = [], rt_clients = []\<rparr>"

definition channel_capacity :: nat where
  "channel_capacity = 10"

text \<open>
  \<open>tx.receiver_count()\<close>: the receiver of the item, held by the map or by the client about to insert it,
  and one clone per waiting client.
\<close>

fun holds_item :: "nat \<Rightarrow> 'c client \<Rightarrow> bool" where
  "holds_item t (Spawned a t') = (t' = t)"
| "holds_item t _ = False"

fun waits_on :: "nat \<Rightarrow> 'c client \<Rightarrow> bool" where
  "waits_on t (Waiting t') = (t' = t)"
| "waits_on t _ = False"

definition item_alive :: "'c rt_state \<Rightarrow> nat \<Rightarrow> bool" where
  "item_alive s t =
     (list_ex (holds_item t) (rt_clients s) \<or>
      (t < length (rt_tasks s) \<and> rt_servers s (tk_key (rt_tasks s ! t)) = Some t))"

definition receiver_count :: "'c rt_state \<Rightarrow> nat \<Rightarrow> nat" where
  "receiver_count s t =
     (if item_alive s t then 1 else 0) + length (filter (waits_on t) (rt_clients s))"

section \<open>Steps\<close>

definition upd_task :: "nat \<Rightarrow> ('c server_task \<Rightarrow> 'c server_task) \<Rightarrow> 'c rt_state \<Rightarrow> 'c rt_state" where
  "upd_task t f s = s\<lparr>rt_tasks := (rt_tasks s)[t := f (rt_tasks s ! t)]\<rparr>"

definition set_client :: "nat \<Rightarrow> 'c client \<Rightarrow> 'c rt_state \<Rightarrow> 'c rt_state" where
  "set_client c v s = s\<lparr>rt_clients := (rt_clients s)[c := v]\<rparr>"

text \<open>Dropping the item of a task aborts the task.\<close>

definition drop_item :: "nat option \<Rightarrow> 'c rt_state \<Rightarrow> 'c rt_state" where
  "drop_item item s = (case item of None \<Rightarrow> s | Some t \<Rightarrow> upd_task t (\<lambda>k. k\<lparr>tk_abort := True\<rparr>) s)"

text \<open>The scope guard: remove the entry of the task's address, whatever it is, and drop it.\<close>

definition run_guard :: "socket_addr \<Rightarrow> 'c rt_state \<Rightarrow> 'c rt_state" where
  "run_guard a s = drop_item (rt_servers s a) (s\<lparr>rt_servers := (rt_servers s)(a := None)\<rparr>)"

text \<open>The end of a task: its guard runs if it has started, and the sender is dropped.\<close>

definition stop_task :: "nat \<Rightarrow> 'c rt_state \<Rightarrow> 'c rt_state" where
  "stop_task t s =
     (let s' = upd_task t (\<lambda>k. k\<lparr>tk_open := False\<rparr>) s in
      if tk_started (rt_tasks s ! t) then run_guard (tk_key (rt_tasks s ! t)) s' else s')"

definition running :: "'c rt_state \<Rightarrow> nat \<Rightarrow> bool" where
  "running s t = (t < length (rt_tasks s) \<and> tk_open (rt_tasks s ! t))"

definition start_task :: "nat \<Rightarrow> 'c rt_state \<Rightarrow> 'c rt_state" where
  "start_task t = upd_task t (\<lambda>k. k\<lparr>tk_started := True\<rparr>)"

definition add_seen :: "nat \<Rightarrow> 'c rt_state \<Rightarrow> 'c rt_state" where
  "add_seen t = upd_task t (\<lambda>k. k\<lparr>tk_seen := tk_seen k + 1\<rparr>)"

definition new_task :: "socket_addr \<Rightarrow> 'c server_task" where
  "new_task a = \<lparr>tk_key = a, tk_queue = [], tk_open = True, tk_started = False, tk_abort = False,
                 tk_seen = 0, tk_accepted = [], tk_delivered = []\<rparr>"

datatype 'c rt_event =
    Request socket_addr
  | BindOk nat
  | BindErr nat
  | Insert nat
  | Accept nat 'c
  | SendTimeout nat
  | Tick nat
  | ListenerEnd nat
  | AbortTask nat
  | Recv nat

text \<open>
  A client looks the address up and either waits on the channel it finds or starts to bind
  (\<open>Request\<close>); a bound listener gets a task (\<open>BindOk\<close>), whose item the client then counts itself on
  and inserts (\<open>Insert\<close>).  A task takes a connection while the channel has room (\<open>Accept\<close>), stops when
  the channel stays full (\<open>SendTimeout\<close>), when a tick finds that no client was seen and nobody waits
  (\<open>Tick\<close>), when the listener ends or when it is aborted.  A client takes the oldest connection of its
  channel, or fails once the channel is closed and empty (\<open>Recv\<close>).  \<open>None\<close>: the event cannot happen.
\<close>

fun rt_step :: "'c rt_state \<Rightarrow> 'c rt_event \<Rightarrow> 'c rt_state option" where
  "rt_step s (Request a) =
     (case rt_servers s a of
        Some t \<Rightarrow> Some (add_seen t (s\<lparr>rt_clients := rt_clients s @ [Waiting t]\<rparr>))
      | None \<Rightarrow> Some (s\<lparr>rt_clients := rt_clients s @ [Binding a]\<rparr>))"
| "rt_step s (BindOk c) =
     (if c < length (rt_clients s) then
        (case rt_clients s ! c of
           Binding a \<Rightarrow>
             Some (set_client c (Spawned a (length (rt_tasks s))) (s\<lparr>rt_tasks := rt_tasks s @ [new_task a]\<rparr>))
         | _ \<Rightarrow> None)
      else None)"
| "rt_step s (BindErr c) =
     (if c < length (rt_clients s) then
        (case rt_clients s ! c of Binding a \<Rightarrow> Some (set_client c Failed s) | _ \<Rightarrow> None)
      else None)"
| "rt_step s (Insert c) =
     (if c < length (rt_clients s) then
        (case rt_clients s ! c of
           Spawned a t \<Rightarrow>
             (let s1 = add_seen t s; s2 = set_client c (Waiting t) s1 in
              Some (drop_item (rt_servers s2 a) (s2\<lparr>rt_servers := (rt_servers s2)(a \<mapsto> t)\<rparr>)))
         | _ \<Rightarrow> None)
      else None)"
| "rt_step s (Accept t x) =
     (if running s t \<and> length (tk_queue (rt_tasks s ! t)) < channel_capacity
      then Some (upd_task t (\<lambda>k. k\<lparr>tk_started := True, tk_queue := tk_queue k @ [x], tk_accepted := tk_accepted k @ [x]\<rparr>) s)
      else None)"
| "rt_step s (SendTimeout t) =
     (if running s t \<and> length (tk_queue (rt_tasks s ! t)) = channel_capacity
      then Some (stop_task t (start_task t s)) else None)"
| "rt_step s (Tick t) =
     (if running s t then
        (if tk_seen (rt_tasks s ! t) = 0 \<and> receiver_count s t \<le> 1 then Some (stop_task t (start_task t s))
         else Some (upd_task t (\<lambda>k. k\<lparr>tk_started := True, tk_seen := 0\<rparr>) s))
      else None)"
| "rt_step s (ListenerEnd t) =
     (if running s t then Some (stop_task t (start_task t s)) else None)"
| "rt_step s (AbortTask t) =
     (if running s t \<and> tk_abort (rt_tasks s ! t) then Some (stop_task t s) else None)"
| "rt_step s (Recv c) =
     (if c < length (rt_clients s) then
        (case rt_clients s ! c of
           Waiting t \<Rightarrow>
             (case tk_queue (rt_tasks s ! t) of
                x # q \<Rightarrow> Some (set_client c (Got x)
                   (upd_task t (\<lambda>k. k\<lparr>tk_queue := q, tk_delivered := tk_delivered k @ [x]\<rparr>) s))
              | [] \<Rightarrow> if tk_open (rt_tasks s ! t) then None else Some (set_client c Failed s))
         | _ \<Rightarrow> None)
      else None)"

fun rt_run :: "'c rt_state \<Rightarrow> 'c rt_event list \<Rightarrow> 'c rt_state option" where
  "rt_run s [] = Some s"
| "rt_run s (e # es) = (case rt_step s e of None \<Rightarrow> None | Some s' \<Rightarrow> rt_run s' es)"

inductive rt_reachable :: "'c rt_state \<Rightarrow> bool" where
  rt_start: "rt_reachable rt_init"
| rt_next: "rt_reachable s \<Longrightarrow> rt_step s e = Some s' \<Longrightarrow> rt_reachable s'"

lemma rt_run_reachable: "rt_reachable s \<Longrightarrow> rt_run s es = Some s' \<Longrightarrow> rt_reachable s'"
  by (induction s es rule: rt_run.induct) (auto intro: rt_next split: option.splits)

section \<open>The channel is a bounded queue\<close>

definition task_ok :: "'c server_task \<Rightarrow> bool" where
  "task_ok k \<longleftrightarrow> length (tk_queue k) \<le> channel_capacity \<and> tk_accepted k = tk_delivered k @ tk_queue k"

definition rt_inv :: "'c rt_state \<Rightarrow> bool" where
  "rt_inv s \<longleftrightarrow> (\<forall>k \<in> set (rt_tasks s). task_ok k)"

lemma rt_inv_upd:
  assumes "rt_inv s" "\<And>k. k = rt_tasks s ! t \<Longrightarrow> task_ok k \<Longrightarrow> task_ok (f k)"
  shows "rt_inv (upd_task t f s)"
proof (cases "t < length (rt_tasks s)")
  case True
  then have "task_ok (f (rt_tasks s ! t))" using assms by (simp add: rt_inv_def)
  then show ?thesis
    using assms(1) by (auto simp: rt_inv_def upd_task_def dest!: set_update_subset_insert [THEN subsetD])
next
  case False
  then show ?thesis using assms(1) by (simp add: rt_inv_def upd_task_def list_update_beyond)
qed

lemma rt_inv_simps [simp]:
  "rt_inv (s\<lparr>rt_servers := m\<rparr>) = rt_inv s" "rt_inv (s\<lparr>rt_clients := cs\<rparr>) = rt_inv s"
  "rt_inv (set_client c v s) = rt_inv s"
  by (simp_all add: rt_inv_def set_client_def)

lemma rt_inv_drop_item: "rt_inv s \<Longrightarrow> rt_inv (drop_item i s)"
  by (auto simp: drop_item_def task_ok_def split: option.splits intro!: rt_inv_upd)

lemma rt_inv_stop_task: "rt_inv s \<Longrightarrow> rt_inv (stop_task t s)"
  by (auto simp: stop_task_def run_guard_def Let_def task_ok_def intro!: rt_inv_drop_item rt_inv_upd)

lemma rt_inv_mark:
  "rt_inv s \<Longrightarrow> rt_inv (start_task t s)" "rt_inv s \<Longrightarrow> rt_inv (add_seen t s)"
  by (auto simp: start_task_def add_seen_def task_ok_def intro!: rt_inv_upd)

lemma rt_inv_step: "rt_inv s \<Longrightarrow> rt_step s e = Some s' \<Longrightarrow> rt_inv s'"
proof (induction s e rule: rt_step.induct)
  case (2 s c)
  then show ?case
    by (auto simp: set_client_def rt_inv_def new_task_def task_ok_def split: if_splits client.splits)
next
  case (10 s c)
  then show ?case
    by (auto simp: task_ok_def intro!: rt_inv_upd split: if_splits client.splits list.splits)
qed (auto simp: Let_def task_ok_def rt_inv_mark intro!: rt_inv_upd rt_inv_drop_item rt_inv_stop_task
       split: if_splits option.splits client.splits)


definition demo_addr :: socket_addr where
  "demo_addr = SocketAddrV4 0 8080"

lemma demo_trace:
  "rt_run rt_init [Request demo_addr, BindOk 0, Insert 0, Accept 0 ''a'', Accept 0 ''b'', Recv 0] =
     Some \<lparr>rt_servers = [demo_addr \<mapsto> 0],
           rt_tasks = [\<lparr>tk_key = demo_addr, tk_queue = [''b''], tk_open = True, tk_started = True, tk_abort = False,
              tk_seen = 1, tk_accepted = [''a'', ''b''], tk_delivered = [''a'']\<rparr>],
           rt_clients = [Got ''a'']\<rparr>"
  by (simp add: rt_init_def set_client_def upd_task_def add_seen_def drop_item_def new_task_def running_def
      channel_capacity_def Let_def fun_eq_iff)


section \<open>Which servers stay\<close>

text \<open>A tick never stops a server that a client waits on.\<close>

lemma tick_keeps_awaited:
  assumes "running s t" "item_alive s t" "Waiting t \<in> set (rt_clients s)"
  shows "rt_step s (Tick t) = Some (upd_task t (\<lambda>k. k\<lparr>tk_started := True, tk_seen := 0\<rparr>) s)"
proof -
  have "filter (waits_on t) (rt_clients s) \<noteq> []" using assms(3) by (auto simp: filter_empty_conv intro!: bexI [of _ "Waiting t"])
  then have "receiver_count s t > 1" using assms(2) by (simp add: receiver_count_def)
  then show ?thesis using assms(1) by simp
qed

text \<open>
  A dead entry: the map leads to a server that has stopped, and nobody is about to replace it.
\<close>

fun client_binds :: "socket_addr \<Rightarrow> 'c client \<Rightarrow> bool" where
  "client_binds a (Binding b) = (b = a)"
| "client_binds a (Spawned b t) = (b = a)"
| "client_binds a _ = False"

definition dead_entry :: "'c rt_state \<Rightarrow> socket_addr \<Rightarrow> nat \<Rightarrow> bool" where
  "dead_entry s a t \<longleftrightarrow>
     rt_servers s a = Some t \<and> t < length (rt_tasks s) \<and>
     tk_open (rt_tasks s ! t) = False \<and> tk_queue (rt_tasks s ! t) = [] \<and>
     (\<forall>k \<in> set (rt_tasks s). tk_open k \<longrightarrow> tk_key k \<noteq> a) \<and>
     (\<forall>c \<in> set (rt_clients s). \<not> client_binds a c)"

lemma set_update_in: "x \<in> set (xs[i := y]) \<Longrightarrow> x \<in> set xs \<or> x = y \<and> i < length xs"
  by (metis insertE list_update_beyond not_less set_update_subset_insert subsetD)

lemma dead_entry_upd:
  assumes "dead_entry s a t" "\<And>k. tk_key (f k) = tk_key k" "\<And>k. tk_open (f k) \<Longrightarrow> tk_open k"
    and "u = t \<Longrightarrow> tk_queue (f (rt_tasks s ! t)) = []"
  shows "dead_entry (upd_task u f s) a t"
proof -
  let ?ts = "(rt_tasks s)[u := f (rt_tasks s ! u)]"
  have t: "t < length (rt_tasks s)" "\<not> tk_open (rt_tasks s ! t)" "tk_queue (rt_tasks s ! t) = []"
    using assms(1) by (simp_all add: dead_entry_def)
  have "\<not> tk_open (?ts ! t)" "tk_queue (?ts ! t) = []"
    using t assms(3, 4) by (cases "u = t"; auto)+
  moreover have "tk_key k \<noteq> a" if "k \<in> set ?ts" "tk_open k" for k
  proof -
    have open_ok: "k' \<in> set (rt_tasks s) \<Longrightarrow> tk_open k' \<Longrightarrow> tk_key k' \<noteq> a" for k'
      using assms(1) by (simp add: dead_entry_def)
    from set_update_in [OF that(1)] show ?thesis
      using open_ok that(2) assms(2, 3) by (metis nth_mem)
  qed
  ultimately show ?thesis using assms(1) by (simp add: dead_entry_def upd_task_def)
qed

lemma dead_entry_drop_item: "dead_entry s a t \<Longrightarrow> dead_entry (drop_item i s) a t"
  by (auto simp: drop_item_def dead_entry_def [of s] split: option.splits intro!: dead_entry_upd)

lemma dead_entry_servers: "dead_entry s a t \<Longrightarrow> m a = Some t \<Longrightarrow> dead_entry (s\<lparr>rt_servers := m\<rparr>) a t"
  by (simp add: dead_entry_def)

lemma dead_entry_stop_task:
  assumes "dead_entry s a t" "running s u"
  shows "dead_entry (stop_task u s) a t"
proof -
  have "tk_key (rt_tasks s ! u) \<noteq> a"
    using assms by (simp add: dead_entry_def running_def)
  moreover have "dead_entry (upd_task u (\<lambda>k. k\<lparr>tk_open := False\<rparr>) s) a t"
    using assms by (intro dead_entry_upd) (auto simp: dead_entry_def)
  ultimately show ?thesis
    by (auto simp: stop_task_def run_guard_def Let_def dead_entry_def [of "upd_task _ _ _"]
        intro!: dead_entry_drop_item dead_entry_servers)
qed

lemma running_start_task [simp]: "running (start_task u s) t = running s t"
  by (cases "u = t") (auto simp: running_def start_task_def upd_task_def)

lemma dead_entry_start: "dead_entry s a t \<Longrightarrow> dead_entry (start_task u s) a t"
  by (auto simp: start_task_def dead_entry_def [of s] intro!: dead_entry_upd)

lemma dead_entry_clients:
  "dead_entry s a t \<Longrightarrow> (\<And>c. c \<in> set cs \<Longrightarrow> \<not> client_binds a c) \<Longrightarrow> dead_entry (s\<lparr>rt_clients := cs\<rparr>) a t"
  by (simp add: dead_entry_def)

lemma dead_entry_set_client:
  "dead_entry s a t \<Longrightarrow> \<not> client_binds a v \<Longrightarrow> dead_entry (set_client c v s) a t"
  unfolding set_client_def by (rule dead_entry_clients) (auto simp: dead_entry_def dest: set_update_in)

lemma dead_entry_nth: "dead_entry s a t \<Longrightarrow> c < length (rt_clients s) \<Longrightarrow> \<not> client_binds a (rt_clients s ! c)"
  by (simp add: dead_entry_def)

lemma dead_entry_step:
  assumes "dead_entry s a t" "rt_step s e = Some s'"
  shows "dead_entry s' a t"
proof (cases e)
  case (Request b)
  then show ?thesis
    using assms by (auto simp: add_seen_def dead_entry_def [of s] intro!: dead_entry_upd dead_entry_clients split: option.splits)
next
  case (BindOk c)
  then obtain b where c: "c < length (rt_clients s)" "rt_clients s ! c = Binding b"
    and s': "s' = set_client c (Spawned b (length (rt_tasks s))) (s\<lparr>rt_tasks := rt_tasks s @ [new_task b]\<rparr>)"
    using assms(2) by (auto split: if_splits client.splits)
  have "b \<noteq> a" using dead_entry_nth [OF assms(1) c(1)] c(2) by simp
  then show ?thesis using assms(1) unfolding s'
    by (intro dead_entry_set_client) (auto simp: dead_entry_def new_task_def nth_append)
next
  case (Insert c)
  then obtain b u where c: "c < length (rt_clients s)" "rt_clients s ! c = Spawned b u"
    and s': "s' = drop_item (rt_servers s b)
        ((set_client c (Waiting u) (add_seen u s))\<lparr>rt_servers := (rt_servers s)(b \<mapsto> u)\<rparr>)"
    using assms(2)
    by (auto simp: Let_def set_client_def add_seen_def upd_task_def split: if_splits client.splits)
  have "b \<noteq> a" using dead_entry_nth [OF assms(1) c(1)] c(2) by simp
  then show ?thesis using assms(1) unfolding s' add_seen_def
    by (intro dead_entry_drop_item dead_entry_servers dead_entry_set_client dead_entry_upd)
       (auto simp: dead_entry_def)
next
  case (Accept u x)
  then have "running s u" "s' = upd_task u (\<lambda>k. k\<lparr>tk_started := True, tk_queue := tk_queue k @ [x],
      tk_accepted := tk_accepted k @ [x]\<rparr>) s"
    using assms(2) by (auto split: if_splits)
  moreover from this have "u \<noteq> t" using assms(1) by (auto simp: running_def dead_entry_def)
  ultimately show ?thesis using assms(1) by (auto intro!: dead_entry_upd)
next
  case (Recv c)
  then show ?thesis
    using assms
    by (auto simp: dead_entry_def [of s] split: if_splits client.splits list.splits
        intro!: dead_entry_set_client dead_entry_upd)
qed (use assms in \<open>auto simp: dead_entry_def [of s] split: if_splits client.splits
       intro!: dead_entry_stop_task dead_entry_start dead_entry_set_client dead_entry_upd\<close>)

lemma dead_entry_run: "dead_entry s a t \<Longrightarrow> rt_run s es = Some s' \<Longrightarrow> dead_entry s' a t"
  by (induction s es rule: rt_run.induct) (auto dest: dead_entry_step split: option.splits)

lemma dead_entry_fails:
  assumes "dead_entry s a t"
  shows "\<exists>s'. rt_run s [Request a, Recv (length (rt_clients s))] = Some s' \<and>
    rt_clients s' ! length (rt_clients s) = Failed"
  using assms
  by (auto simp: dead_entry_def add_seen_def upd_task_def set_client_def nth_append)

text \<open>
  C40. A server task whose first tick comes before its client has inserted it leaves a dead entry: no
  client has been counted yet, the task stops and finds nothing to remove, and the client then inserts
  the stopped server.  From then on, whatever happens, every client that asks for that address fails.
\<close>

theorem reverse_tunnel_dead_entry:
  "\<exists>s. rt_run (rt_init :: 'c rt_state) [Request a, BindOk 0, Tick 0, Insert 0] = Some s \<and>
     (\<forall>es s'. rt_run s es = Some s' \<longrightarrow>
        (\<exists>s''. rt_run s' [Request a, Recv (length (rt_clients s'))] = Some s'' \<and>
           rt_clients s'' ! length (rt_clients s') = Failed))"
proof -
  let ?k = "\<lparr>tk_key = a, tk_queue = [], tk_open = False, tk_started = True, tk_abort = False,
              tk_seen = 1, tk_accepted = [], tk_delivered = []\<rparr>"
  let ?s = "\<lparr>rt_servers = [a \<mapsto> 0], rt_tasks = [?k], rt_clients = [Waiting 0]\<rparr> :: 'c rt_state"
  have run: "rt_run (rt_init :: 'c rt_state) [Request a, BindOk 0, Tick 0, Insert 0] = Some ?s"
    by (simp add: rt_init_def set_client_def upd_task_def add_seen_def drop_item_def new_task_def running_def
        receiver_count_def item_alive_def start_task_def stop_task_def run_guard_def Let_def)
  have "dead_entry ?s a 0" by (simp add: dead_entry_def)
  then show ?thesis using run dead_entry_run dead_entry_fails by blast
qed

theorem reverse_tunnel_dead_entry_witness:
  "\<exists>s. rt_run (rt_init :: string rt_state) [Request demo_addr, BindOk 0, Tick 0, Insert 0] = Some s \<and>
     (\<exists>s''. rt_run s [Request demo_addr, Recv (length (rt_clients s))] = Some s'' \<and>
        rt_clients s'' ! length (rt_clients s) = Failed)"
proof -
  obtain s where "rt_run (rt_init :: string rt_state) [Request demo_addr, BindOk 0, Tick 0, Insert 0] = Some s"
    "\<forall>es s'. rt_run s es = Some s' \<longrightarrow>
        (\<exists>s''. rt_run s' [Request demo_addr, Recv (length (rt_clients s'))] = Some s'' \<and>
           rt_clients s'' ! length (rt_clients s') = Failed)"
    using reverse_tunnel_dead_entry [of demo_addr] by blast
  moreover have "rt_run s [] = Some s" by simp
  ultimately show ?thesis by blast
qed

end
