(* ===== verification/Client_Request.thy ===== *)
theory Client_Request
  imports Http_Msg Dns
begin

text \<open>
  The client's configuration (\<open>tunnel/client/config.rs\<close>) and the upgrade requests it sends
  (\<open>connect\<close> of \<open>tunnel/transport/websocket.rs\<close> and of \<open>tunnel/transport/http2.rs\<close>).
\<close>

section \<open>Configuration\<close>

record 'conn tls_client_config =
  tls_sni_disabled :: bool
  tls_sni_override :: "string option"
  tls_verify_certificate :: bool
  tls_connector :: 'conn
  tls_certificate_path :: "path option"
  tls_key_path :: "path option"

record ('conn, 'sys) ws_client_config =
  cc_remote_addr :: "'conn tls_client_config transport_addr"
  cc_so_mark :: so_mark
  cc_path_prefix :: string
  cc_credentials :: "string option"
  cc_headers :: "(string \<times> string) list"
  cc_headers_file :: "path option"
  cc_header_host :: string
  cc_timeout_connect :: duration
  cc_ping_frequency :: "duration option"
  cc_mask_frame :: bool
  cc_http_proxy :: "url option"
  cc_dns_resolver :: "'sys dns_resolver"

datatype server_name = DnsName string | IpAddress ip_addr

text \<open>\<open>dns_name\<close> is \<open>DnsName::try_from\<close>.\<close>

definition tls_server_name :: "(string \<Rightarrow> string option) \<Rightarrow> ('conn, 'sys) ws_client_config \<Rightarrow> server_name" where
  "tls_server_name dns_name cfg =
     (case Option.bind (ta_tls (cc_remote_addr cfg)) tls_sni_override of
        Some sni \<Rightarrow> DnsName sni
      | None \<Rightarrow>
         (case ta_host (cc_remote_addr cfg) of
            Domain d \<Rightarrow> DnsName (unwrap_or ''dns-name-invalid.com'' (dns_name d))
          | Ipv4 ip \<Rightarrow> IpAddress (V4 ip)
          | Ipv6 ip \<Rightarrow> IpAddress (V6 ip)))"

section \<open>Upgrade requests\<close>

datatype request_error = InvalidRequest

type_synonym 'e file_lines = "(string, 'e) result list option"

text \<open>
  The websocket request.  \<open>key\<close> is the generated websocket key and \<open>read_file\<close> gives the lines of the
  headers file.
\<close>

definition ws_uri :: "('conn, 'sys) ws_client_config \<Rightarrow> string" where
  "ws_uri cfg = ''/'' @ cc_path_prefix cfg @ ''/events''"

definition override_headers ::
  "('conn, 'sys) ws_client_config \<Rightarrow> header_map \<Rightarrow> header_map" where
  "override_headers cfg hdrs =
     hm_override (hm_override hdrs (cc_headers cfg))
       (case cc_credentials cfg of None \<Rightarrow> [] | Some auth \<Rightarrow> [(''authorization'', auth)])"

definition file_headers_ws :: "http_lib \<Rightarrow> (path \<Rightarrow> 'e file_lines) \<Rightarrow> ('conn, 'sys) ws_client_config \<Rightarrow> (string \<times> string) list" where
  "file_headers_ws H read_file cfg =
     (case cc_headers_file cfg of
        None \<Rightarrow> []
      | Some p \<Rightarrow>
         (case headers_from_file H (read_file p) of
            (hst, hs) \<Rightarrow> hs @ (case hst of None \<Rightarrow> [] | Some hv \<Rightarrow> [hv])))"

definition ws_request ::
  "http_lib \<Rightarrow> token_lib \<Rightarrow> (path \<Rightarrow> 'e file_lines) \<Rightarrow> string \<Rightarrow> ('conn, 'sys) ws_client_config
   \<Rightarrow> u128 \<Rightarrow> remote_addr \<Rightarrow> (request, request_error) result run" where
  "ws_request H J read_file key cfg request_id dest =
     run_then (tunnel_to_jwt_token J request_id dest) (\<lambda>token.
       Returns
         (case build_request H ''GET'' (ws_uri cfg)
                 [(''host'', cc_header_host cfg), (''upgrade'', ''websocket''), (''connection'', ''upgrade''),
                  (''sec-websocket-key'', key), (''sec-websocket-version'', ''13''),
                  (''sec-websocket-protocol'', ''v1, '' @ JWT_HEADER_PREFIX @ token)] Http11 of
            None \<Rightarrow> Err InvalidRequest
          | Some req \<Rightarrow>
              Ok (req\<lparr>rq_headers :=
                 hm_override (override_headers cfg (rq_headers req)) (file_headers_ws H read_file cfg)\<rparr>)))"

text \<open>The HTTP/2 request: the host goes into the authority of the URI and the token into a cookie.\<close>

definition http2_authority :: "http_lib \<Rightarrow> ('conn, 'sys) ws_client_config \<Rightarrow> string \<Rightarrow> string" where
  "http2_authority H cfg v =
     (let s = unwrap_or [] (h_to_str H v); port = ta_port (cc_remote_addr cfg) in
      if (ta_scheme (cc_remote_addr cfg) = Http \<and> port = 80) \<or> (ta_scheme (cc_remote_addr cfg) = Https \<and> port = 443)
      then s else s @ '':'' @ show_u16 port)"

definition http2_file ::
  "http_lib \<Rightarrow> (path \<Rightarrow> 'e file_lines) \<Rightarrow> ('conn, 'sys) ws_client_config \<Rightarrow> (string \<times> string) list \<times> string option" where
  "http2_file H read_file cfg =
     (case cc_headers_file cfg of
        None \<Rightarrow> ([], None)
      | Some p \<Rightarrow>
         (case headers_from_file H (read_file p) of
            (hst, hs) \<Rightarrow> (hs, map_option (\<lambda>hv. http2_authority H cfg (snd hv)) hst)))"

definition http2_request ::
  "http_lib \<Rightarrow> token_lib \<Rightarrow> (path \<Rightarrow> 'e file_lines) \<Rightarrow> ('conn, 'sys) ws_client_config
   \<Rightarrow> u128 \<Rightarrow> remote_addr \<Rightarrow> (request, request_error) result run" where
  "http2_request H J read_file cfg request_id dest =
     (case http2_file H read_file cfg of (headers_file, authority) \<Rightarrow>
      run_then (tunnel_to_jwt_token J request_id dest) (\<lambda>token.
       Returns
         (case build_request H ''POST''
                 (scheme_to_str (ta_scheme (cc_remote_addr cfg)) @ ''://''
                  @ unwrap_or (unwrap_or [] (h_to_str H (cc_header_host cfg))) authority
                  @ ''/'' @ cc_path_prefix cfg @ ''/events'')
                 [(''cookie'', token), (''content-type'', ''application/json'')] Http2 of
            None \<Rightarrow> Err InvalidRequest
          | Some req \<Rightarrow>
              Ok (req\<lparr>rq_headers := hm_override (override_headers cfg (rq_headers req)) headers_file\<rparr>))))"

lemma map_of_rev_None: "map_of xs k = None \<Longrightarrow> map_of (rev xs) k = None"
  by (simp add: map_of_eq_None_iff)

lemma map_of_append_None: "map_of (xs @ ys) k = None \<longleftrightarrow> map_of xs k = None \<and> map_of ys k = None"
  by (auto simp: map_of_eq_None_iff)

lemma override_headers_get:
  assumes "map_of (cc_headers cfg) k = None" "k \<noteq> ''authorization''"
  shows "hm_get (override_headers cfg m) k = hm_get m k"
  using assms by (auto simp: override_headers_def hm_get_override map_of_rev_None split: option.splits)

lemma build_request_Some:
  "build_request H m u hdrs v = Some req \<Longrightarrow>
     rq_headers req = hdrs \<and> h_uri_path H u = Some (rq_path req) \<and> rq_method req = m \<and> rq_version req = v"
  by (auto simp: build_request_def split: option.splits if_splits)

lemma ws_request_Ok:
  assumes "ws_request H J read_file key cfg u dest = Returns (Ok req)"
    and "map_of (cc_headers cfg @ file_headers_ws H read_file cfg) ''sec-websocket-protocol'' = None"
  shows "\<exists>token. tunnel_to_jwt_token J u dest = Returns token \<and>
      h_uri_path H (ws_uri cfg) = Some (rq_path req) \<and>
      hm_get (rq_headers req) ''sec-websocket-protocol'' = Some (''v1, '' @ JWT_HEADER_PREFIX @ token)"
proof -
  obtain token req' where t: "tunnel_to_jwt_token J u dest = Returns token"
    and b: "build_request H ''GET'' (ws_uri cfg)
                 [(''host'', cc_header_host cfg), (''upgrade'', ''websocket''), (''connection'', ''upgrade''),
                  (''sec-websocket-key'', key), (''sec-websocket-version'', ''13''),
                  (''sec-websocket-protocol'', ''v1, '' @ JWT_HEADER_PREFIX @ token)] Http11 = Some req'"
    and req: "req = req'\<lparr>rq_headers :=
         hm_override (override_headers cfg (rq_headers req')) (file_headers_ws H read_file cfg)\<rparr>"
    using assms(1) by (auto simp: ws_request_def result_simps split: option.splits)
  have "hm_get (rq_headers req) ''sec-websocket-protocol'' = hm_get (rq_headers req') ''sec-websocket-protocol''"
    using assms(2) unfolding map_of_append_None by (simp add: req hm_get_override override_headers_get map_of_rev_None)
  then show ?thesis
    using t build_request_Some [OF b] by (auto simp: req hm_get_def)
qed

lemma http2_request_Ok:
  assumes "http2_request H J read_file cfg u dest = Returns (Ok req)"
    and "map_of (cc_headers cfg @ fst (http2_file H read_file cfg)) ''cookie'' = None"
    and "map_of (cc_headers cfg @ fst (http2_file H read_file cfg)) ''sec-websocket-protocol'' = None"
  shows "\<exists>token authority. tunnel_to_jwt_token J u dest = Returns token \<and>
      h_uri_path H (scheme_to_str (ta_scheme (cc_remote_addr cfg)) @ ''://'' @ authority @ ''/'' @ cc_path_prefix cfg @ ''/events'')
        = Some (rq_path req) \<and>
      hm_get (rq_headers req) ''sec-websocket-protocol'' = None \<and> hm_get (rq_headers req) ''cookie'' = Some token"
proof -
  obtain hs a where f: "http2_file H read_file cfg = (hs, a)" by fastforce
  obtain token req' where t: "tunnel_to_jwt_token J u dest = Returns token"
    and b: "build_request H ''POST''
                 (scheme_to_str (ta_scheme (cc_remote_addr cfg)) @ ''://''
                  @ unwrap_or (unwrap_or [] (h_to_str H (cc_header_host cfg))) a
                  @ ''/'' @ cc_path_prefix cfg @ ''/events'')
                 [(''cookie'', token), (''content-type'', ''application/json'')] Http2 = Some req'"
    and req: "req = req'\<lparr>rq_headers := hm_override (override_headers cfg (rq_headers req')) hs\<rparr>"
    using assms(1) by (auto simp: http2_request_def f result_simps split: option.splits)
  have "hm_get (rq_headers req) k = hm_get (rq_headers req') k" if "k \<in> {''cookie'', ''sec-websocket-protocol''}" for k
    using assms(2, 3) that unfolding map_of_append_None
    by (auto simp: f req hm_get_override override_headers_get map_of_rev_None)
  then show ?thesis
    using t build_request_Some [OF b] by (auto simp: req hm_get_def)
qed

end
