(* ===== verification/Tls.thy ===== *)
theory Tls
  imports Client_Request
begin

text \<open>
  TLS set-up (\<open>protocols/tls\<close>): loading of certificates and keys, the configurations of the connector
  and of the acceptor, the handshake of the client, and the common name of a client certificate.
  rustls, the PEM reader, the X.509 parser and the system's certificate store are parameters.
\<close>

section \<open>Libraries\<close>

type_synonym cert = bytes
type_synonym private_key = bytes

text \<open>The parts of an X.509 certificate that are used; a common name that is not a string is \<open>None\<close>.\<close>

record x509 =
  x_is_ca :: bool
  x_common_names :: "string option list"

record ('ech, 'e) tls_lib =
  tl_certs :: "path \<Rightarrow> ((cert, 'e) result list, 'e) result"
  tl_key :: "path \<Rightarrow> (private_key option, 'e) result"
  tl_x509 :: "cert \<Rightarrow> x509 option"
  tl_native_certs :: "cert list"
  tl_root_ok :: "cert \<Rightarrow> bool"
  tl_ech_ok :: "'ech \<Rightarrow> bool"
  tl_versions_ok :: bool
  tl_auth_ok :: "cert list \<Rightarrow> private_key \<Rightarrow> bool"
  tl_verifier_ok :: "cert list \<Rightarrow> bool"

datatype 'e tls_error =
    CannotOpen 'e
  | NoPrivateKey path
  | EchRejected
  | BadVersions
  | MtlsSetup
  | BadClientCa
  | BadClientVerifier
  | BadServerCertificate
  | NoTlsTransport transport_scheme
  | HandshakeFailed 'e

section \<open>Certificates and keys\<close>

definition load_certificates_from_pem :: "('ech, 'e) tls_lib \<Rightarrow> path \<Rightarrow> (cert list, 'e tls_error) result" where
  "load_certificates_from_pem T path =
     (case tl_certs T path of
        Err e \<Rightarrow> Err (CannotOpen e)
      | Ok certs \<Rightarrow> Ok (List.map_filter (\<lambda>c. case c of Ok cert \<Rightarrow> Some cert | Err _ \<Rightarrow> None) certs))"

definition load_private_key_from_file :: "('ech, 'e) tls_lib \<Rightarrow> path \<Rightarrow> (private_key, 'e tls_error) result" where
  "load_private_key_from_file T path =
     (case tl_key T path of
        Err e \<Rightarrow> Err (CannotOpen e)
      | Ok k \<Rightarrow> ok_or (NoPrivateKey path) k)"

fun find_leaf_certificate :: "('ech, 'e) tls_lib \<Rightarrow> cert list \<Rightarrow> x509 option" where
  "find_leaf_certificate T [] = None"
| "find_leaf_certificate T (c # cs) =
     (case tl_x509 T c of
        Some x \<Rightarrow> if \<not> x_is_ca x then Some x else find_leaf_certificate T cs
      | None \<Rightarrow> find_leaf_certificate T cs)"

definition cn_from_certificate :: "x509 \<Rightarrow> string option" where
  "cn_from_certificate x =
     (case List.map_filter (\<lambda>n. n) (x_common_names x) of [] \<Rightarrow> None | n # _ \<Rightarrow> Some n)"

definition cert_cn :: "('ech, 'e) tls_lib \<Rightarrow> cert list \<Rightarrow> string option" where
  "cert_cn T certs = Option.bind (find_leaf_certificate T certs) cn_from_certificate"

section \<open>Connector and acceptor\<close>

datatype server_verifier = WebPkiServer | NullVerifier

record 'ech client_tls =
  ct_roots :: "cert list"
  ct_ech :: "'ech option"
  ct_client_auth :: "(cert list \<times> private_key) option"
  ct_enable_sni :: bool
  ct_verifier :: server_verifier
  ct_alpn :: "string list"

definition tls_connector_new ::
  "('ech, 'e) tls_lib \<Rightarrow> bool \<Rightarrow> string list \<Rightarrow> bool \<Rightarrow> 'ech option \<Rightarrow> cert list option \<Rightarrow> private_key option
   \<Rightarrow> ('ech client_tls, 'e tls_error) result" where
  "tls_connector_new T verify_certificate alpn enable_sni ech_config client_certificate client_key =
     (let root_store = filter (tl_root_ok T) (tl_native_certs T) in
      and_then (case ech_config of
                  Some ech \<Rightarrow> if tl_ech_ok T ech then Ok () else Err EchRejected
                | None \<Rightarrow> if tl_versions_ok T then Ok () else Err BadVersions) (\<lambda>_.
      and_then (case (client_certificate, client_key) of
                  (Some certs, Some key) \<Rightarrow> if tl_auth_ok T certs key then Ok (Some (certs, key)) else Err MtlsSetup
                | _ \<Rightarrow> Ok None) (\<lambda>auth.
        Ok \<lparr>ct_roots = root_store, ct_ech = ech_config, ct_client_auth = auth, ct_enable_sni = enable_sni,
            ct_verifier = (if verify_certificate then WebPkiServer else NullVerifier), ct_alpn = alpn\<rparr>)))"

datatype client_verifier = NoClientAuth | RequireClientAuth "cert list"

record tls_server_config =
  ts_certificate :: "cert list"
  ts_key :: private_key
  ts_client_ca_certificates :: "cert list option"
  ts_certificate_path :: "path option"
  ts_key_path :: "path option"
  ts_client_ca_certs_path :: "path option"

record server_tls =
  st_verifier :: client_verifier
  st_certificate :: "cert list"
  st_key :: private_key
  st_alpn :: "string list"

definition tls_acceptor :: "('ech, 'e) tls_lib \<Rightarrow> tls_server_config \<Rightarrow> string list option \<Rightarrow> (server_tls, 'e tls_error) result" where
  "tls_acceptor T cfg alpn =
     and_then (case ts_client_ca_certificates cfg of
                 None \<Rightarrow> Ok NoClientAuth
               | Some cas \<Rightarrow>
                   if \<not> list_all (tl_root_ok T) cas then Err BadClientCa
                   else if tl_verifier_ok T cas then Ok (RequireClientAuth cas) else Err BadClientVerifier) (\<lambda>verifier.
       if tl_auth_ok T (ts_certificate cfg) (ts_key cfg)
       then Ok \<lparr>st_verifier = verifier, st_certificate = ts_certificate cfg, st_key = ts_key cfg,
                st_alpn = unwrap_or [] alpn\<rparr>
       else Err BadServerCertificate)"

text \<open>\<open>handshake\<close> is \<open>TlsConnector::connect\<close>; the connector is read from the configuration at that moment.\<close>

definition tls_connect ::
  "(string \<Rightarrow> string option) \<Rightarrow> ('ech client_tls \<Rightarrow> server_name \<Rightarrow> 'tcp \<Rightarrow> ('tls, 'e) result)
   \<Rightarrow> ('ech client_tls, 'sys) ws_client_config \<Rightarrow> 'tcp \<Rightarrow> ('tls, 'e tls_error) result" where
  "tls_connect dns_name handshake cfg tcp_stream =
     (let sni = tls_server_name dns_name cfg in
      case ta_tls (cc_remote_addr cfg) of
        None \<Rightarrow> Err (NoTlsTransport (ta_scheme (cc_remote_addr cfg)))
      | Some tls \<Rightarrow>
         (case handshake (tls_connector tls) sni tcp_stream of
            Ok s \<Rightarrow> Ok s
          | Err e \<Rightarrow> Err (HandshakeFailed e)))"

section \<open>Properties\<close>

lemma find_leaf_certificate_Some:
  "find_leaf_certificate T cs = Some x \<Longrightarrow>
     \<exists>as c bs. cs = as @ c # bs \<and> tl_x509 T c = Some x \<and> \<not> x_is_ca x \<and>
       (\<forall>a \<in> set as. \<forall>y. tl_x509 T a = Some y \<longrightarrow> x_is_ca y)"
proof (induction T cs rule: find_leaf_certificate.induct)
  case (2 T c cs)
  show ?case
  proof (cases "\<exists>y. tl_x509 T c = Some y \<and> \<not> x_is_ca y")
    case True
    then show ?thesis using 2 by (intro exI [of _ "[]"] exI [of _ c] exI [of _ cs]) auto
  next
    case False
    then have "find_leaf_certificate T cs = Some x"
      using 2(3) by (auto split: option.split_asm if_split_asm)
    then obtain as c' bs where "cs = as @ c' # bs" "tl_x509 T c' = Some x" "\<not> x_is_ca x"
      "\<forall>a \<in> set as. \<forall>y. tl_x509 T a = Some y \<longrightarrow> x_is_ca y"
      using 2 False by (cases "tl_x509 T c") auto
    then show ?thesis using False by (intro exI [of _ "c # as"] exI [of _ c'] exI [of _ bs]) auto
  qed
qed simp

lemma tls_connector_new_Ok:
  "tls_connector_new T v alpn sni ech certs key = Ok t \<Longrightarrow>
     (ct_verifier t = WebPkiServer \<longleftrightarrow> v) \<and> ct_alpn t = alpn \<and> ct_enable_sni t = sni \<and> ct_ech t = ech \<and>
     (ct_client_auth t = None \<longleftrightarrow> certs = None \<or> key = None) \<and>
     (\<forall>c k. certs = Some c \<longrightarrow> key = Some k \<longrightarrow> ct_client_auth t = Some (c, k))"
  by (auto simp: tls_connector_new_def Let_def result_simps split: option.split_asm if_split_asm)

lemma tls_acceptor_Ok:
  "tls_acceptor T cfg alpn = Ok s \<Longrightarrow>
     st_verifier s = (case ts_client_ca_certificates cfg of None \<Rightarrow> NoClientAuth | Some cas \<Rightarrow> RequireClientAuth cas)"
  by (auto simp: tls_acceptor_def result_simps split: option.split_asm if_split_asm)

end
