(* ===== verification/Server.thy ===== *)
theory Server
  imports Restrictions Resolver Connectors Rate_Limiter Listeners Reverse_Tunnel Tls
begin

text \<open>
  The server side of a tunnel request (\<open>tunnel/server/server.rs\<close>, \<open>handler_websocket.rs\<close>,
  \<open>handler_http2.rs\<close>): extraction, mTLS prefix, resolution of tunnel identifiers, the check against the
  rules, the connection to the destination or the listening server of a reverse tunnel, rate limits,
  and the HTTP answer.  The environment \<open>E\<close> collects the libraries and the outcomes of the system calls;
  the result of waiting on a listening server (\<open>run_listening_server\<close>, modelled in \<open>Reverse_Tunnel\<close>) is
  the parameter \<open>sv_listen\<close>.
\<close>

section \<open>Configuration and environment\<close>

record 'sys ws_server_config =
  ws_so_mark :: so_mark
  ws_bind :: socket_addr
  ws_ping_frequency :: "duration option"
  ws_timeout_connect :: duration
  ws_mask_frame :: bool
  ws_tls :: "tls_server_config option"
  ws_dns_resolver :: "'sys dns_resolver"
  ws_restriction_config :: "path option"
  ws_http_proxy :: "url option"
  ws_remote_server_idle_timeout :: duration
  ws_tunnel_resolver :: "url option"

text \<open>The listening servers of reverse tunnels, by protocol.\<close>

datatype reverse_listener =
    RevTcpListener "host \<times> u16"
  | RevUdpListener "host \<times> u16" "duration option"
  | RevSocks5Listener "duration option" "credentials option"
  | RevHttpProxyListener "duration option" "credentials option"
  | RevUnixListener path "host \<times> u16"

record ('re, 'net, 'sys, 'ech, 'e, 's) server_env =
  sv_match :: "('re, 'net) match_lib"
  sv_http :: http_lib
  sv_tokens :: token_lib
  sv_resolver :: "'e resolver_lib"
  sv_net :: "'e net_env"
  sv_dns :: "('sys, 'ech, 'e) dns_lib"
  sv_text :: text_lib
  sv_proxy_io :: "'e proxy_io"
  sv_local_addr :: "'e conn \<Rightarrow> (socket_addr, 'e) result"
  sv_ppp :: "socket_addr \<Rightarrow> socket_addr \<Rightarrow> (bytes, 'e) result"
  sv_listen :: "socket_addr \<Rightarrow> duration \<Rightarrow> reverse_listener \<Rightarrow> ('s \<times> remote_addr, 'e) result"
  sv_path_hash :: "path \<Rightarrow> u64"

text \<open>The listener that serves a reverse tunnel, as the listeners of the client.\<close>

fun reverse_any :: "reverse_listener \<Rightarrow> 's any_listener" where
  "reverse_any (RevTcpListener d) = TcpListener \<lparr>dl_dest = d, dl_proxy_protocol = False\<rparr>"
| "reverse_any (RevUdpListener d t) = UdpListener \<lparr>ul_dest = d, ul_timeout = t\<rparr>"
| "reverse_any (RevSocks5Listener t c) = Socks5Listener"
| "reverse_any (RevHttpProxyListener t c) = HttpProxyListener False"
| "reverse_any (RevUnixListener p d) = UnixListener \<lparr>dl_dest = d, dl_proxy_protocol = False\<rparr>"

text \<open>
  The stream of a tunnel: a connection with the bytes sent on it first, or a connection accepted by a
  listening server.
\<close>

datatype ('e, 's) tunnel_stream = Forward "'e conn" bytes | Reverse 's

datatype 'e exec_error =
    ConnectorError "'e connector_error"
  | UdpNotWithProxy
  | ProxyProtocolError 'e
  | NotASocketAddr string
  | ListenError 'e
  | InvalidUpgradeRequest

section \<open>Opening the tunnel\<close>

definition connector_for :: "'sys ws_server_config \<Rightarrow> remote_addr \<Rightarrow> duration \<Rightarrow> 'sys tunnel_connector" where
  "connector_for cfg remote tmo =
     \<lparr>tc_host = ra_host remote, tc_port = ra_port remote, tc_so_mark = ws_so_mark cfg, tc_timeout = tmo,
      tc_dns = ws_dns_resolver cfg\<rparr>"

definition exec_udp ::
  "('re, 'net, 'sys, 'ech, 'e, 's) server_env \<Rightarrow> 'sys ws_server_config \<Rightarrow> remote_addr \<Rightarrow> duration option
   \<Rightarrow> (remote_addr \<times> ('e, 's) tunnel_stream, 'e exec_error) result" where
  "exec_udp E cfg remote timeout =
     (case ws_http_proxy cfg of
        None \<Rightarrow>
          map_ok (\<lambda>c. (remote, Forward c [])) (map_err ConnectorError
            (udp_connector_connect (sv_net E) (sv_dns E)
               (connector_for cfg remote (unwrap_or (from_secs 10) timeout)) None))
      | Some _ \<Rightarrow> Err UdpNotWithProxy)"

definition exec_tcp ::
  "('re, 'net, 'sys, 'ech, 'e, 's) server_env \<Rightarrow> 'sys ws_server_config \<Rightarrow> remote_addr \<Rightarrow> bool \<Rightarrow> socket_addr
   \<Rightarrow> (remote_addr \<times> ('e, 's) tunnel_stream, 'e exec_error) result" where
  "exec_tcp E cfg remote proxy_protocol client_address =
     (let connector = connector_for cfg remote (from_secs 10) in
      and_then (map_err ConnectorError
        (case ws_http_proxy cfg of
           None \<Rightarrow> tcp_connector_connect (sv_net E) (sv_dns E) connector None
         | Some proxy \<Rightarrow>
             tcp_connector_connect_with_http_proxy (sv_net E) (sv_dns E) (sv_text E) (sv_proxy_io E) connector proxy None))
        (\<lambda>c.
          if proxy_protocol then
            and_then (map_err ProxyProtocolError (sv_local_addr E c)) (\<lambda>local_addr.
            and_then (map_err ProxyProtocolError (sv_ppp E client_address local_addr)) (\<lambda>header.
              Ok (remote, Forward c header)))
          else Ok (remote, Forward c [])))"

text \<open>The common shape of the reverse branches: the mapped port, the bind address, the listening server.\<close>

definition exec_reverse ::
  "('re, 'net, 'sys, 'ech, 'e, 's) server_env \<Rightarrow> 'sys ws_server_config \<Rightarrow> host \<times> u16 \<Rightarrow> (host \<times> u16 \<Rightarrow> reverse_listener)
   \<Rightarrow> (remote_addr \<times> ('e, 's) tunnel_stream, 'e exec_error) result" where
  "exec_reverse E cfg local_srv listener_of =
     and_then (map_err NotASocketAddr (try_to_sock_addr local_srv)) (\<lambda>bind.
     and_then (map_err ListenError (sv_listen E bind (ws_remote_server_idle_timeout cfg) (listener_of local_srv))) (\<lambda>(stream, remote).
       Ok (remote, Reverse stream)))"

definition exec_tunnel ::
  "('re, 'net, 'sys, 'ech, 'e, 's) server_env \<Rightarrow> 'sys ws_server_config \<Rightarrow> ('re, 'net) restriction_config
   \<Rightarrow> remote_addr \<Rightarrow> socket_addr \<Rightarrow> (remote_addr \<times> ('e, 's) tunnel_stream, 'e exec_error) result" where
  "exec_tunnel E cfg restriction remote client_address =
     (let local_srv = (ra_host remote, find_mapped_port (ra_port remote) restriction) in
      case ra_protocol remote of
        Udp timeout \<Rightarrow> exec_udp E cfg remote timeout
      | Tcp proxy_protocol \<Rightarrow> exec_tcp E cfg remote proxy_protocol client_address
      | ReverseTcp \<Rightarrow> exec_reverse E cfg local_srv RevTcpListener
      | ReverseUdp timeout \<Rightarrow> exec_reverse E cfg local_srv (\<lambda>d. RevUdpListener d timeout)
      | ReverseSocks5 timeout credentials \<Rightarrow> exec_reverse E cfg local_srv (\<lambda>_. RevSocks5Listener timeout credentials)
      | ReverseHttpProxy timeout credentials \<Rightarrow> exec_reverse E cfg local_srv (\<lambda>_. RevHttpProxyListener timeout credentials)
      | ReverseUnix path \<Rightarrow>
          exec_reverse E cfg (Ipv6 (ucast (sv_path_hash E path)), 0) (RevUnixListener path)
      | _ \<Rightarrow> Err InvalidUpgradeRequest)"

section \<open>The request\<close>

text \<open>\<open>SocketAddr::set_ip\<close>.\<close>

fun set_ip :: "socket_addr \<Rightarrow> ip_addr \<Rightarrow> socket_addr" where
  "set_ip (SocketAddrV4 _ p) (V4 a) = SocketAddrV4 a p"
| "set_ip (SocketAddrV6 _ p f s) (V6 a) = SocketAddrV6 a p f s"
| "set_ip sa ip = socket_addr_new ip (addr_port sa)"

type_synonym rate_info = "u128 \<times> u16 option \<times> u16 option"

text \<open>Tunnel identifiers: a \<open>TunnelStdio\<close> request names a tunnel, which the resolver turns into a TCP destination.\<close>

definition resolve_remote ::
  "('re, 'net, 'sys, 'ech, 'e, 's) server_env \<Rightarrow> 'sys ws_server_config \<Rightarrow> remote_addr \<Rightarrow> string option
   \<Rightarrow> (remote_addr \<times> rate_info option, response) result run" where
  "resolve_remote E cfg remote authorization =
     (case ra_protocol remote of
        TunnelStdio proxy_protocol _ \<Rightarrow>
          (case ra_host remote of
             Domain tunnel_id \<Rightarrow>
               (case j_uuid_parse (sv_tokens E) tunnel_id of
                  None \<Rightarrow> Returns (Err bad_request)
                | Some tunnel_uuid \<Rightarrow>
                   (case ws_tunnel_resolver cfg of
                      None \<Rightarrow> Returns (Err bad_request)
                    | Some resolver \<Rightarrow>
                        run_then (resolve_tunnel_over_http (sv_http E) (sv_tokens E) (sv_resolver E)
                                    resolver tunnel_uuid authorization) (\<lambda>res.
                          case res of
                            Err _ \<Rightarrow> Returns (Err bad_request)
                          | Ok endpoint \<Rightarrow>
                              Returns (Ok
                                (\<lparr>ra_protocol = Tcp proxy_protocol, ra_host = ep_host endpoint, ra_port = ep_port endpoint\<rparr>,
                                 Some (tunnel_uuid, ep_upload_m endpoint, ep_download_m endpoint))))))
           | _ \<Rightarrow> Returns (Err bad_request))
      | _ \<Rightarrow> Returns (Ok (remote, None)))"

record ('e, 's) tunnel =
  tn_remote :: remote_addr
  tn_stream :: "('e, 's) tunnel_stream"
  tn_limiters :: "(nat option \<times> nat option) option"
  tn_inject_cookie :: bool

text \<open>The part of \<open>handle_tunnel_request\<close> before the tunnel is opened: what is requested, and by which rule.\<close>

definition admit ::
  "('re, 'net, 'sys, 'ech, 'e, 's) server_env \<Rightarrow> 'sys ws_server_config \<Rightarrow> ('re, 'net) restrictions_rules
   \<Rightarrow> string option \<Rightarrow> request
   \<Rightarrow> (remote_addr \<times> ('re, 'net) restriction_config \<times> rate_info option, response) result run" where
  "admit E cfg rules restrict_path_prefix req =
     (case extract_path_prefix (rq_path req) of
        Err _ \<Rightarrow> Returns (Err bad_request)
      | Ok path_prefix \<Rightarrow>
          if (case restrict_path_prefix of None \<Rightarrow> False | Some p \<Rightarrow> path_prefix \<noteq> p)
          then Returns (Err bad_request)
          else (case extract_tunnel_info (sv_http E) (sv_tokens E) req of
            None \<Rightarrow> Returns (Err bad_request)
          | Some jwt \<Rightarrow>
             (case remote_addr_try_from (sv_tokens E) jwt of
                None \<Rightarrow> Returns (Err bad_request)
              | Some remote0 \<Rightarrow>
                 (let authorization = extract_authorization (sv_http E) req in
                  run_then (resolve_remote E cfg remote0 authorization) (\<lambda>res.
                    case res of
                      Err r \<Rightarrow> Returns (Err r)
                    | Ok (remote, rate) \<Rightarrow>
                       (case validate_tunnel (sv_match E) remote path_prefix authorization rules of
                          None \<Rightarrow> Returns (Err bad_request)
                        | Some restriction \<Rightarrow> Returns (Ok (remote, restriction, rate))))))))"

definition handle_tunnel_request ::
  "('re, 'net, 'sys, 'ech, 'e, 's) server_env \<Rightarrow> 'sys ws_server_config \<Rightarrow> rate_limiter_pool
   \<Rightarrow> ('re, 'net) restrictions_rules \<Rightarrow> string option \<Rightarrow> socket_addr \<Rightarrow> request
   \<Rightarrow> (('e, 's) tunnel, response) result run \<times> rate_limiter_pool" where
  "handle_tunnel_request E cfg pool rules restrict_path_prefix client_addr req =
     (let client_addr = (case extract_x_forwarded_for (sv_http E) req of
                           Some (ip, _) \<Rightarrow> set_ip client_addr ip | None \<Rightarrow> client_addr) in
      case admit E cfg rules restrict_path_prefix req of
        Panics m \<Rightarrow> (Panics m, pool)
      | Returns (Err r) \<Rightarrow> (Returns (Err r), pool)
      | Returns (Ok (remote, restriction, rate)) \<Rightarrow>
         (case exec_tunnel E cfg restriction remote client_addr of
            Err _ \<Rightarrow> (Returns (Err bad_request), pool)
          | Ok (remote_addr, stream) \<Rightarrow>
             (let cookie = is_dynamic_reverse_tunnel (ra_protocol remote) in
              case rate of
                Some (tid, upload_m, download_m) \<Rightarrow>
                  if upload_m \<noteq> None \<or> download_m \<noteq> None then
                    (case pool_wrap pool tid upload_m download_m of (limiters, pool') \<Rightarrow>
                       (Returns (Ok \<lparr>tn_remote = remote_addr, tn_stream = stream, tn_limiters = Some limiters,
                                     tn_inject_cookie = cookie\<rparr>), pool'))
                  else (Returns (Ok \<lparr>tn_remote = remote_addr, tn_stream = stream, tn_limiters = None,
                                     tn_inject_cookie = cookie\<rparr>), pool)
              | None \<Rightarrow> (Returns (Ok \<lparr>tn_remote = remote_addr, tn_stream = stream, tn_limiters = None,
                                       tn_inject_cookie = cookie\<rparr>), pool))))"

section \<open>The answer\<close>

text \<open>
  What a handler does beside answering: the tunnel it forwards in both directions, with the ping
  frequency of the direction to the client.
\<close>

datatype ('e, 's) spawned = ForwardWebsocket "('e, 's) tunnel" bool "duration option" | ForwardHttp2 "('e, 's) tunnel"

text \<open>\<open>upgrade\<close> is \<open>fastwebsockets::upgrade::upgrade\<close>: the headers of the switching-protocols answer.\<close>

definition with_cookie ::
  "('re, 'net, 'sys, 'ech, 'e, 's) server_env \<Rightarrow> ('e, 's) tunnel \<Rightarrow> response \<Rightarrow> (response \<Rightarrow> response) \<Rightarrow> response run" where
  "with_cookie E t resp finish =
     (if tn_inject_cookie t then
        run_then (inject_cookie (sv_http E) (sv_tokens E) resp (tn_remote t)) (\<lambda>r.
          case r of Err _ \<Rightarrow> Returns bad_request | Ok resp' \<Rightarrow> Returns (finish resp'))
      else Returns (finish resp))"

definition ws_server_upgrade ::
  "('re, 'net, 'sys, 'ech, 'e, 's) server_env \<Rightarrow> 'sys ws_server_config \<Rightarrow> (request \<Rightarrow> bool) \<Rightarrow> (request \<Rightarrow> header_map option)
   \<Rightarrow> rate_limiter_pool \<Rightarrow> ('re, 'net) restrictions_rules \<Rightarrow> string option \<Rightarrow> socket_addr \<Rightarrow> request
   \<Rightarrow> response run \<times> ('e, 's) spawned list \<times> rate_limiter_pool" where
  "ws_server_upgrade E cfg is_upgrade upgrade pool rules restrict_path client_addr req =
     (if \<not> is_upgrade req then (Returns bad_request, [], pool)
      else (case handle_tunnel_request E cfg pool rules restrict_path client_addr req of
              (Panics m, pool') \<Rightarrow> (Panics m, [], pool')
            | (Returns (Err r), pool') \<Rightarrow> (Returns r, [], pool')
            | (Returns (Ok t), pool') \<Rightarrow>
               (case upgrade req of
                  None \<Rightarrow> (Returns bad_request, [], pool')
                | Some hdrs \<Rightarrow>
                    (with_cookie E t \<lparr>rs_status = 101, rs_headers = hdrs, rs_body = []\<rparr>
                       (\<lambda>r. r\<lparr>rs_headers := hm_insert (rs_headers r) ''sec-websocket-protocol'' ''v1''\<rparr>),
                     [ForwardWebsocket t (ws_mask_frame cfg) (ws_ping_frequency cfg)], pool'))))"

definition http_server_upgrade ::
  "('re, 'net, 'sys, 'ech, 'e, 's) server_env \<Rightarrow> 'sys ws_server_config
   \<Rightarrow> rate_limiter_pool \<Rightarrow> ('re, 'net) restrictions_rules \<Rightarrow> string option \<Rightarrow> socket_addr \<Rightarrow> request
   \<Rightarrow> response run \<times> ('e, 's) spawned list \<times> rate_limiter_pool" where
  "http_server_upgrade E cfg pool rules restrict_path client_addr req =
     (case handle_tunnel_request E cfg pool rules restrict_path client_addr req of
        (Panics m, pool') \<Rightarrow> (Panics m, [], pool')
      | (Returns (Err r), pool') \<Rightarrow> (Returns r, [], pool')
      | (Returns (Ok t), pool') \<Rightarrow>
          (with_cookie E t \<lparr>rs_status = 200, rs_headers = [], rs_body = []\<rparr>
             (\<lambda>r. case hm_get (rq_headers req) ''content-type'' of
                    Some ct \<Rightarrow> r\<lparr>rs_headers := hm_insert (rs_headers r) ''content-type'' ct\<rparr>
                  | None \<Rightarrow> r),
           [ForwardHttp2 t], pool'))"

text \<open>
  The dispatch of \<open>serve\<close>: over TLS by the negotiated protocol, with the common name of the client
  certificate as path restriction; without TLS by the request.
\<close>

datatype cnx = PlainCnx | TlsCnx "string option" "string option"

definition invalid_protocol :: response where
  "invalid_protocol = \<lparr>rs_status = 400, rs_headers = [], rs_body = ''Invalid protocol request''\<rparr>"

definition auto_upgrade ::
  "('re, 'net, 'sys, 'ech, 'e, 's) server_env \<Rightarrow> 'sys ws_server_config \<Rightarrow> (request \<Rightarrow> bool) \<Rightarrow> (request \<Rightarrow> header_map option)
   \<Rightarrow> rate_limiter_pool \<Rightarrow> ('re, 'net) restrictions_rules \<Rightarrow> string option \<Rightarrow> socket_addr \<Rightarrow> request
   \<Rightarrow> response run \<times> ('e, 's) spawned list \<times> rate_limiter_pool" where
  "auto_upgrade E cfg is_upgrade upgrade pool rules restrict_path peer req =
     (if is_upgrade req then ws_server_upgrade E cfg is_upgrade upgrade pool rules restrict_path peer req
      else if rq_version req = Http2 then http_server_upgrade E cfg pool rules restrict_path peer req
      else (Returns invalid_protocol, [], pool))"

definition serve_request ::
  "('re, 'net, 'sys, 'ech, 'e, 's) server_env \<Rightarrow> 'sys ws_server_config \<Rightarrow> (request \<Rightarrow> bool) \<Rightarrow> (request \<Rightarrow> header_map option)
   \<Rightarrow> cnx \<Rightarrow> rate_limiter_pool \<Rightarrow> ('re, 'net) restrictions_rules \<Rightarrow> socket_addr \<Rightarrow> request
   \<Rightarrow> response run \<times> ('e, 's) spawned list \<times> rate_limiter_pool" where
  "serve_request E cfg is_upgrade upgrade cn pool rules peer req =
     (case cn of
        TlsCnx alpn common_name \<Rightarrow>
          if alpn = Some ''h2'' then http_server_upgrade E cfg pool rules common_name peer req
          else ws_server_upgrade E cfg is_upgrade upgrade pool rules common_name peer req
      | PlainCnx \<Rightarrow> auto_upgrade E cfg is_upgrade upgrade pool rules None peer req)"

section \<open>What is admitted\<close>

lemma resolve_remote_Ok:
  assumes "resolve_remote E cfg remote auth = Returns (Ok (r, rate))"
  shows "(rate = None \<and> r = remote) \<or>
     (\<exists>b t u. ra_protocol remote = TunnelStdio b t \<and> ra_protocol r = Tcp b \<and> rate = Some u)"
  using assms
  by (auto simp: resolve_remote_def elim!: run_then_elim split: local_protocol.split_asm host.split_asm option.split_asm result.split_asm)

lemma resolve_remote_Err: "resolve_remote E cfg remote auth = Returns (Err r) \<Longrightarrow> r = bad_request"
  by (auto simp: resolve_remote_def elim!: run_then_elim split: local_protocol.split_asm host.split_asm option.split_asm result.split_asm)

lemma admit_cases:
  obtains
    (rejected) "admit E cfg rules rp req = Returns (Err bad_request)"
  | (panicked) m remote where "admit E cfg rules rp req = Panics m"
      "resolve_remote E cfg remote (extract_authorization (sv_http E) req) = Panics m"
  | (admitted) prefix jwt remote0 remote rate r where
      "admit E cfg rules rp req = Returns (Ok (remote, r, rate))"
      "extract_path_prefix (rq_path req) = Ok prefix" "rp = None \<or> rp = Some prefix"
      "extract_tunnel_info (sv_http E) (sv_tokens E) req = Some jwt"
      "remote_addr_try_from (sv_tokens E) jwt = Some remote0"
      "resolve_remote E cfg remote0 (extract_authorization (sv_http E) req) = Returns (Ok (remote, rate))"
      "validate_tunnel (sv_match E) remote prefix (extract_authorization (sv_http E) req) rules = Some r"
proof -
  let ?auth = "extract_authorization (sv_http E) req"
  show thesis
  proof (cases "extract_path_prefix (rq_path req)")
    case (Err e)
    then show thesis using rejected by (simp add: admit_def)
  next
    case prefix: (Ok prefix)
    show thesis
    proof (cases "rp = None \<or> rp = Some prefix")
      case False
      then show thesis using rejected prefix by (cases rp) (auto simp: admit_def)
    next
      case rp: True
      then have rp': "\<not> (case rp of None \<Rightarrow> False | Some p \<Rightarrow> prefix \<noteq> p)" by auto
      show thesis
      proof (cases "Option.bind (extract_tunnel_info (sv_http E) (sv_tokens E) req) (remote_addr_try_from (sv_tokens E))")
        case None
        then show thesis using rejected prefix rp'
          by (cases "extract_tunnel_info (sv_http E) (sv_tokens E) req") (auto simp: admit_def)
      next
        case (Some remote0)
        then obtain jwt where jwt: "extract_tunnel_info (sv_http E) (sv_tokens E) req = Some jwt"
          "remote_addr_try_from (sv_tokens E) jwt = Some remote0"
          by (auto simp: bind_eq_Some_conv)
        note pre = prefix rp' jwt
        show thesis
        proof (cases "resolve_remote E cfg remote0 ?auth")
          case (Panics m)
          then show thesis using panicked [of m remote0] pre by (simp add: admit_def)
        next
          case (Returns res)
          show thesis
          proof (cases res)
            case (Err r)
            then show thesis using rejected pre Returns resolve_remote_Err [of E cfg remote0 ?auth r] by (simp add: admit_def)
          next
            case (Ok x)
            obtain remote rate where x: "x = (remote, rate)" by fastforce
            show thesis
            proof (cases "validate_tunnel (sv_match E) remote prefix ?auth rules")
              case None
              then show thesis using rejected pre Returns Ok x by (simp add: admit_def)
            next
              case (Some r)
              then show thesis
                using admitted [of remote r rate prefix jwt remote0] pre rp Returns Ok x by (simp add: admit_def)
            qed
          qed
        qed
      qed
    qed
  qed
qed

section \<open>What is opened\<close>

text \<open>
  The stream of a tunnel follows the validated destination: a forward stream leads to an address of the
  destination; a reverse stream comes from the listening server bound to the destination, with its
  port mapped by the rule, or to the path of a Unix socket.
\<close>

definition opens_as ::
  "('re, 'net, 'sys, 'ech, 'e, 's) server_env \<Rightarrow> 'sys ws_server_config \<Rightarrow> ('re, 'net) restriction_config
   \<Rightarrow> remote_addr \<Rightarrow> remote_addr \<Rightarrow> ('e, 's) tunnel_stream \<Rightarrow> bool" where
  "opens_as E cfg r remote remote' stream =
     (case stream of
        Forward c _ \<Rightarrow>
          \<not> is_reverse_tunnel (ra_protocol remote) \<and> remote' = remote \<and>
          (ws_http_proxy cfg = None \<longrightarrow>
             (\<exists>addrs. host_addrs (sv_dns E) (ws_dns_resolver cfg) (ra_host remote) (ra_port remote) = Ok addrs \<and>
                conn_peer c \<in> set addrs))
      | Reverse s \<Rightarrow>
          is_reverse_tunnel (ra_protocol remote) \<and>
          (\<exists>bind l. sv_listen E bind (ws_remote_server_idle_timeout cfg) l = Ok (s, remote') \<and>
             (case ra_protocol remote of
                ReverseUnix p \<Rightarrow> \<exists>d. l = RevUnixListener p d
              | _ \<Rightarrow> try_to_sock_addr (ra_host remote, find_mapped_port (ra_port remote) r) = Ok bind)))"

lemma exec_udp_opens: "exec_udp E cfg remote tmo = Ok (remote', stream) \<Longrightarrow> ra_protocol remote = Udp t \<Longrightarrow>
    opens_as E cfg r remote remote' stream"
  by (auto simp: exec_udp_def opens_as_def result_simps connector_for_def
      dest!: udp_connector.dial_dest split: option.split_asm)

lemma exec_tcp_opens:
  assumes "exec_tcp E cfg remote pp ca = Ok (remote', stream)" "ra_protocol remote = Tcp b"
  shows "opens_as E cfg r remote remote' stream"
proof -
  obtain c where c: "(case ws_http_proxy cfg of
         None \<Rightarrow> tcp_connector_connect (sv_net E) (sv_dns E) (connector_for cfg remote (from_secs 10)) None
       | Some proxy \<Rightarrow> tcp_connector_connect_with_http_proxy (sv_net E) (sv_dns E) (sv_text E) (sv_proxy_io E)
                         (connector_for cfg remote (from_secs 10)) proxy None) = Ok c"
    and s: "\<exists>h. stream = Forward c h" "remote' = remote"
    using assms(1) by (auto simp: exec_tcp_def Let_def result_simps split: if_splits)
  then show ?thesis using assms(2)
    by (auto simp: opens_as_def connector_for_def connector_dest_def dest!: tcp_connector.dial_dest)
qed

lemma exec_reverse_opens:
  assumes "exec_reverse E cfg local_srv l = Ok (remote', stream)"
  shows "\<exists>s bind. stream = Reverse s \<and> try_to_sock_addr local_srv = Ok bind \<and>
     sv_listen E bind (ws_remote_server_idle_timeout cfg) (l local_srv) = Ok (s, remote')"
  using assms by (auto simp: exec_reverse_def result_simps split: prod.splits)

lemma exec_tunnel_opens:
  assumes "exec_tunnel E cfg r remote ca = Ok (remote', stream)"
  shows "opens_as E cfg r remote remote' stream"
proof (cases "ra_protocol remote")
  case (Tcp b)
  then show ?thesis using assms exec_tcp_opens by (auto simp: exec_tunnel_def Let_def)
next
  case (Udp t)
  then show ?thesis using assms exec_udp_opens by (auto simp: exec_tunnel_def Let_def)
next
  case (ReverseUnix p)
  obtain s bind where "stream = Reverse s"
    "sv_listen E bind (ws_remote_server_idle_timeout cfg)
       (RevUnixListener p (Ipv6 (ucast (sv_path_hash E p)), 0)) = Ok (s, remote')"
    using assms ReverseUnix exec_reverse_opens by (fastforce simp: exec_tunnel_def Let_def)
  then show ?thesis using ReverseUnix by (auto simp: opens_as_def simp del: split_paired_Ex)
qed (use assms in \<open>auto simp: exec_tunnel_def Let_def opens_as_def dest!: exec_reverse_opens\<close>)

section \<open>Requests\<close>

lemma handle_Ok:
  assumes "handle_tunnel_request E cfg pool rules rp ca req = (Returns (Ok t), pool')"
  obtains remote r rate ca' where "admit E cfg rules rp req = Returns (Ok (remote, r, rate))"
    "exec_tunnel E cfg r remote ca' = Ok (tn_remote t, tn_stream t)"
    "tn_inject_cookie t = is_dynamic_reverse_tunnel (ra_protocol remote)"
    "(tn_limiters t, pool') =
       (case rate of
          None \<Rightarrow> (None, pool)
        | Some (tid, up, down) \<Rightarrow>
            if up \<noteq> None \<or> down \<noteq> None then map_prod Some id (pool_wrap pool tid up down) else (None, pool))"
proof (cases "admit E cfg rules rp req")
  case (Panics m)
  then show thesis using assms by (simp add: handle_tunnel_request_def Let_def)
next
  case a: (Returns x)
  show thesis
  proof (cases x)
    case (Err e)
    then show thesis using assms a by (simp add: handle_tunnel_request_def Let_def)
  next
    case (Ok y)
    obtain remote r rate where y: "y = (remote, r, rate)" by (cases y)
    define ca' where "ca' = (case extract_x_forwarded_for (sv_http E) req of Some (ip, _) \<Rightarrow> set_ip ca ip | None \<Rightarrow> ca)"
    show thesis
    proof (cases "exec_tunnel E cfg r remote ca'")
      case (Err e)
      then show thesis using assms a Ok y by (simp add: handle_tunnel_request_def Let_def ca'_def)
    next
      case e: (Ok z)
      obtain remote' stream where z: "z = (remote', stream)" by fastforce
      show thesis
        using assms a Ok y e z that [of remote r rate ca']
        by (auto simp: handle_tunnel_request_def Let_def ca'_def [symmetric]
            split: option.split_asm if_split_asm prod.split_asm)
    qed
  qed
qed

lemma handle_Err:
  assumes "handle_tunnel_request E cfg pool rules rp ca req = (Returns (Err resp), pool')"
  shows "resp = bad_request \<and> pool' = pool"
proof (cases rule: admit_cases [of E cfg rules rp req])
  case rejected
  then show ?thesis using assms by (simp add: handle_tunnel_request_def Let_def)
next
  case (panicked m remote)
  then show ?thesis using assms by (simp add: handle_tunnel_request_def Let_def)
next
  case (admitted prefix jwt remote0 remote rate r)
  then show ?thesis using assms
    by (auto simp: handle_tunnel_request_def Let_def
        split: result.split_asm option.split_asm if_split_asm prod.split_asm)
qed

lemma handle_Panics:
  assumes "handle_tunnel_request E cfg pool rules rp ca req = (Panics m, pool')"
  shows "\<exists>remote. resolve_remote E cfg remote (extract_authorization (sv_http E) req) = Panics m"
proof (cases rule: admit_cases [of E cfg rules rp req])
  case rejected
  then show ?thesis using assms by (simp add: handle_tunnel_request_def Let_def)
next
  case (panicked m' remote)
  then show ?thesis using assms by (auto simp: handle_tunnel_request_def Let_def)
next
  case (admitted prefix jwt remote0 remote rate r)
  then show ?thesis using assms
    by (auto simp: handle_tunnel_request_def Let_def
        split: result.split_asm option.split_asm if_split_asm prod.split_asm)
qed

fun spawned_tunnel :: "('e, 's) spawned \<Rightarrow> ('e, 's) tunnel" where
  "spawned_tunnel (ForwardWebsocket t _ _) = t"
| "spawned_tunnel (ForwardHttp2 t) = t"

text \<open>The path restriction a connection imposes.\<close>

fun cnx_restriction :: "cnx \<Rightarrow> string option" where
  "cnx_restriction PlainCnx = None"
| "cnx_restriction (TlsCnx _ common_name) = common_name"

lemma ws_server_upgrade_cases:
  assumes "ws_server_upgrade E cfg iu up pool rules rp ca req = (resp, tasks, pool')"
  obtains (refused) "resp = Returns bad_request" "tasks = []"
  | (panicked) m where "resp = Panics m" "tasks = []"
      "handle_tunnel_request E cfg pool rules rp ca req = (Panics m, pool')"
  | (opened) t hdrs where "handle_tunnel_request E cfg pool rules rp ca req = (Returns (Ok t), pool')"
      "tasks = [ForwardWebsocket t (ws_mask_frame cfg) (ws_ping_frequency cfg)]"
      "resp = with_cookie E t \<lparr>rs_status = 101, rs_headers = hdrs, rs_body = []\<rparr>
         (\<lambda>r. r\<lparr>rs_headers := hm_insert (rs_headers r) ''sec-websocket-protocol'' ''v1''\<rparr>)"
  using assms handle_Err
  by (fastforce simp: ws_server_upgrade_def split: if_split_asm prod.split_asm run.split_asm result.split_asm option.split_asm)

lemma http_server_upgrade_cases:
  assumes "http_server_upgrade E cfg pool rules rp ca req = (resp, tasks, pool')"
  obtains (refused) "resp = Returns bad_request" "tasks = []"
  | (panicked) m where "resp = Panics m" "tasks = []"
      "handle_tunnel_request E cfg pool rules rp ca req = (Panics m, pool')"
  | (opened) t f where "handle_tunnel_request E cfg pool rules rp ca req = (Returns (Ok t), pool')"
      "tasks = [ForwardHttp2 t]" "resp = with_cookie E t \<lparr>rs_status = 200, rs_headers = [], rs_body = []\<rparr> f"
  using assms handle_Err
  by (fastforce simp: http_server_upgrade_def split: prod.split_asm run.split_asm result.split_asm)

lemma serve_request_cases:
  assumes "serve_request E cfg iu up cn pool rules ca req = (resp, tasks, pool')"
  obtains (refused) "resp = Returns bad_request" "tasks = []"
  | (invalid) "resp = Returns invalid_protocol" "tasks = []" "cn = PlainCnx" "\<not> iu req" "rq_version req \<noteq> Http2"
  | (panicked) m where "resp = Panics m" "tasks = []"
      "handle_tunnel_request E cfg pool rules (cnx_restriction cn) ca req = (Panics m, pool')"
  | (opened) t resp0 task f where
      "handle_tunnel_request E cfg pool rules (cnx_restriction cn) ca req = (Returns (Ok t), pool')"
      "tasks = [task]" "spawned_tunnel task = t" "resp = with_cookie E t resp0 f"
proof -
  consider (ws) "ws_server_upgrade E cfg iu up pool rules (cnx_restriction cn) ca req = (resp, tasks, pool')"
    | (http) "http_server_upgrade E cfg pool rules (cnx_restriction cn) ca req = (resp, tasks, pool')"
    | (inv) "resp = Returns invalid_protocol" "tasks = []" "cn = PlainCnx" "\<not> iu req" "rq_version req \<noteq> Http2"
    using assms by (cases cn) (auto simp: serve_request_def auto_upgrade_def split: if_split_asm)
  then show thesis
  proof cases
    case ws
    then show thesis
      by (cases rule: ws_server_upgrade_cases) (auto intro: refused panicked opened)
  next
    case http
    then show thesis
      by (cases rule: http_server_upgrade_cases) (auto intro: refused panicked opened)
  next
    case inv
    then show thesis by (rule invalid)
  qed
qed

section \<open>Properties of the server\<close>

lemma serve_request_opens:
  assumes "serve_request E cfg iu up cn pool rules ca req = (resp, tasks, pool')" "task \<in> set tasks"
  shows "\<exists>prefix jwt remote0 remote r.
     extract_path_prefix (rq_path req) = Ok prefix \<and>
     (cnx_restriction cn = None \<or> cnx_restriction cn = Some prefix) \<and>
     extract_tunnel_info (sv_http E) (sv_tokens E) req = Some jwt \<and>
     remote_addr_try_from (sv_tokens E) jwt = Some remote0 \<and>
     (remote = remote0 \<or> (\<exists>b t. ra_protocol remote0 = TunnelStdio b t \<and> ra_protocol remote = Tcp b)) \<and>
     validate_tunnel (sv_match E) remote prefix (extract_authorization (sv_http E) req) rules = Some r \<and>
     opens_as E cfg r remote (tn_remote (spawned_tunnel task)) (tn_stream (spawned_tunnel task))"
  using assms(1)
proof (cases rule: serve_request_cases)
  case (opened t resp0 task' f)
  then obtain remote r rate ca' where a: "admit E cfg rules (cnx_restriction cn) req = Returns (Ok (remote, r, rate))"
    and e: "exec_tunnel E cfg r remote ca' = Ok (tn_remote t, tn_stream t)"
    by (elim handle_Ok)
  have t: "spawned_tunnel task = t" using opened assms(2) by simp
  show ?thesis
  proof (cases rule: admit_cases [of E cfg rules "cnx_restriction cn" req])
    case (admitted prefix jwt remote0 remote1 rate1 r1)
    moreover have "remote1 = remote" "r1 = r" using admitted a by simp_all
    moreover note resolve_remote_Ok [OF admitted(6)] exec_tunnel_opens [OF e]
    ultimately show ?thesis unfolding t by blast
  qed (use a in simp_all)
qed (use assms(2) in simp_all)

text \<open>
  C2. Whatever a client sends, the server forwards a tunnel only if its path has a prefix, which is the
  common name of the client certificate when there is one, and if a rule grants the destination for
  that prefix and authorization; the destination is the one of the token, or for a tunnel identifier
  the TCP address the resolver gave.  The tunnel that is opened is the validated one: without outgoing
  proxy it leads to an address of the validated host and port, and a reverse tunnel is served by a
  listener bound to the validated host and the port the rule maps it to.
\<close>

theorem server_opens_only_validated:
  assumes "serve_request E cfg iu up cn pool rules ca req = (resp, tasks, pool')" "task \<in> set tasks"
  shows "\<exists>prefix jwt remote0 remote r.
     extract_path_prefix (rq_path req) = Ok prefix \<and>
     (cnx_restriction cn = None \<or> cnx_restriction cn = Some prefix) \<and>
     extract_tunnel_info (sv_http E) (sv_tokens E) req = Some jwt \<and>
     remote_addr_try_from (sv_tokens E) jwt = Some remote0 \<and>
     (remote = remote0 \<or> (\<exists>b t. ra_protocol remote0 = TunnelStdio b t \<and> ra_protocol remote = Tcp b)) \<and>
     validate_tunnel (sv_match E) remote prefix (extract_authorization (sv_http E) req) rules = Some r \<and>
     opens_as E cfg r remote (tn_remote (spawned_tunnel task)) (tn_stream (spawned_tunnel task))"
  using serve_request_opens [OF assms] .


text \<open>What a listening server hands to a client is what its listener emits.\<close>

definition listen_ok :: "('re, 'net, 'sys, 'ech, 'e, 's) server_env \<Rightarrow> bool" where
  "listen_ok E \<longleftrightarrow>
     (\<forall>bind idle l s remote. sv_listen E bind idle l = Ok (s, remote) \<longrightarrow>
        (\<exists>ev l'. any_listener_poll (reverse_any l) (ev :: ('s, 'e) socket_event) = Returns (l', Ready (Some (Ok (s, remote))))))"

lemma resolve_no_panic:
  assumes "http_lib_ok (sv_http E)"
  shows "resolve_remote E cfg remote (extract_authorization (sv_http E) req) \<noteq> Panics m"
proof -
  have "h_value_ok (sv_http E) a" if "extract_authorization (sv_http E) req = Some a" for a
    using that assms by (auto simp: extract_authorization_def http_lib_ok_def bind_eq_Some_conv)
  then have "resolve_tunnel_over_http (sv_http E) (sv_tokens E) R base u (extract_authorization (sv_http E) req) \<noteq> Panics m"
    for R :: "'e resolver_lib" and base u
    by (auto simp: resolve_tunnel_over_http_def Let_def split: option.splits if_splits)
  then show ?thesis
    by (auto simp: resolve_remote_def elim!: run_then_Panics_elim split: local_protocol.split_asm host.split_asm option.split_asm result.split_asm)
qed

lemma cookie_no_panic:
  fixes E :: "('re, 'net, 'sys, 'ech, 'e, 'h) server_env"
  assumes "listen_ok E" "exec_tunnel E cfg r remote ca = Ok (tn_remote t, tn_stream t)"
    "tn_inject_cookie t = is_dynamic_reverse_tunnel (ra_protocol remote)"
  shows "with_cookie E t resp0 f \<noteq> Panics m"
proof (cases "tn_inject_cookie t")
  case True
  then have "is_reverse_tunnel (ra_protocol remote)"
    using assms(3) by (cases "ra_protocol remote") auto
  then obtain bind s l where "sv_listen E bind (ws_remote_server_idle_timeout cfg) l = Ok (s, tn_remote t)"
    using exec_tunnel_opens [OF assms(2)] by (auto simp: opens_as_def split: tunnel_stream.split_asm)
  then obtain ev :: "('h, 'e) socket_event" and l' where
    "any_listener_poll (reverse_any l) ev = Returns (l', Ready (Some (Ok (s, tn_remote t))))"
    using assms(1) unfolding listen_ok_def by blast
  then have "jwt_encodable (ra_protocol (tn_remote t))"
    by (rule any_listener_emits [THEN conjunct1])
  then have "\<exists>tok. tunnel_to_jwt_token (sv_tokens E) 0 (tn_remote t) = Returns tok"
    by (simp add: tunnel_to_jwt_token_encodable)
  then show ?thesis using True
    by (auto simp: with_cookie_def inject_cookie_def split: result.split_asm)
qed (simp add: with_cookie_def)

lemma serve_request_no_panic:
  assumes "http_lib_ok (sv_http E)" "listen_ok E"
  shows "fst (serve_request E cfg iu up cn pool rules ca req) \<noteq> Panics m"
proof -
  obtain resp tasks pool' where s: "serve_request E cfg iu up cn pool rules ca req = (resp, tasks, pool')"
    by (cases "serve_request E cfg iu up cn pool rules ca req")
  from this have "resp \<noteq> Panics m"
  proof (cases rule: serve_request_cases)
    case (panicked m')
    then show ?thesis using handle_Panics resolve_no_panic [OF assms(1)] by blast
  next
    case (opened t resp0 task f)
    then show ?thesis using cookie_no_panic [OF assms(2)] by (auto elim!: handle_Ok)
  qed simp_all
  then show ?thesis using s by simp
qed

text \<open>
  No request makes the server panic, whatever its path, headers and token: neither the request to
  the resolver nor the cookie of a dynamic reverse tunnel ever fails its unwraps.
\<close>

lemma server_never_panics:
  assumes "http_lib_ok (sv_http E)" "listen_ok E"
  shows "fst (serve_request E cfg iu up cn pool rules ca req) \<noteq> Panics m"
  using serve_request_no_panic [OF assms] .

text \<open>
  C11. A request for a tunnel identifier becomes a TCP tunnel to the address of the registry, checked
  against the rules as such, and all its tunnels go through the limiters the pool keeps for that
  identifier as soon as the registry sets a rate in either direction.
\<close>

theorem tunnel_identifier_request:
  assumes "handle_tunnel_request E cfg pool rules rp ca req = (Returns (Ok t), pool')"
    and "extract_tunnel_info (sv_http E) (sv_tokens E) req = Some jwt"
    and "remote_addr_try_from (sv_tokens E) jwt = Some \<lparr>ra_protocol = TunnelStdio b tmo, ra_host = Domain name, ra_port = p\<rparr>"
    and "j_uuid_parse (sv_tokens E) name = Some u" "ws_tunnel_resolver cfg = Some base"
    and "resolve_tunnel_over_http (sv_http E) (sv_tokens E) (sv_resolver E) base u
           (extract_authorization (sv_http E) req) = Returns (Ok ep)"
  shows "tn_remote t = \<lparr>ra_protocol = Tcp b, ra_host = ep_host ep, ra_port = ep_port ep\<rparr> \<and>
     (\<exists>prefix r. extract_path_prefix (rq_path req) = Ok prefix \<and>
        validate_tunnel (sv_match E) (tn_remote t) prefix (extract_authorization (sv_http E) req) rules = Some r) \<and>
     (if ep_upload_m ep = None \<and> ep_download_m ep = None then tn_limiters t = None \<and> pool' = pool
      else tn_limiters t = Some (fst (pool_wrap pool u (ep_upload_m ep) (ep_download_m ep))) \<and>
           pool' = snd (pool_wrap pool u (ep_upload_m ep) (ep_download_m ep)))"
proof -
  obtain remote r rate ca' where a: "admit E cfg rules rp req = Returns (Ok (remote, r, rate))"
    and e: "exec_tunnel E cfg r remote ca' = Ok (tn_remote t, tn_stream t)"
    and l: "(tn_limiters t, pool') = (case rate of None \<Rightarrow> (None, pool)
        | Some (tid, up, down) \<Rightarrow>
            if up \<noteq> None \<or> down \<noteq> None then map_prod Some id (pool_wrap pool tid up down) else (None, pool))"
    using assms(1) by (elim handle_Ok)
  show ?thesis
  proof (cases rule: admit_cases [of E cfg rules rp req])
    case (admitted prefix jwt' remote0 remote1 rate1 r1)
    have *: "remote = \<lparr>ra_protocol = Tcp b, ra_host = ep_host ep, ra_port = ep_port ep\<rparr>"
      "rate = Some (u, ep_upload_m ep, ep_download_m ep)" "remote1 = remote"
      using admitted a assms(2-6) by (simp_all add: resolve_remote_def)
    have "tn_remote t = remote"
      using exec_tunnel_opens [OF e] * by (auto simp: opens_as_def split: tunnel_stream.split_asm)
    then show ?thesis
      using * l admitted(2, 7) by (auto simp: map_prod_def split: prod.split_asm if_split_asm)
  qed (use a in simp_all)
qed

section \<open>A concrete server\<close>

text \<open>
  A server with the demonstration libraries, whose tokens carry \<open>cfg\<close>; its listening servers accept one
  connection at once.
\<close>

definition demo_server ::
  "jwt_tunnel_config \<Rightarrow> (lit_re, ip_addr \<times> nat, unit, unit, string, nat) server_env" where
  "demo_server cfg =
     \<lparr>sv_match = demo_lib, sv_http = demo_http, sv_tokens = demo_tokens cfg, sv_resolver = demo_resolver,
      sv_net = demo_net, sv_dns = demo_dns, sv_text = demo_text, sv_proxy_io = demo_proxy_io,
      sv_local_addr = (\<lambda>_. Ok (SocketAddrV4 0x7F000001 40000)), sv_ppp = (\<lambda>_ _. Ok [13, 10]),
      sv_listen = (\<lambda>_ _ l. case l of
          RevTcpListener (h, p) \<Rightarrow> Ok (1, \<lparr>ra_protocol = Tcp False, ra_host = h, ra_port = p\<rparr>)
        | _ \<Rightarrow> Err ''no client''),
      sv_path_hash = (\<lambda>_. 0)\<rparr>"

definition demo_server_config :: "unit ws_server_config" where
  "demo_server_config =
     \<lparr>ws_so_mark = None, ws_bind = SocketAddrV4 0 8080, ws_ping_frequency = None, ws_timeout_connect = from_secs 10,
      ws_mask_frame = False, ws_tls = None, ws_dns_resolver = System, ws_restriction_config = None,
      ws_http_proxy = None, ws_remote_server_idle_timeout = from_secs 180, ws_tunnel_resolver = Some demo_base\<rparr>"

definition demo_request :: "string \<Rightarrow> request" where
  "demo_request path =
     \<lparr>rq_method = ''POST'', rq_uri = path, rq_path = path, rq_version = Http2,
      rq_headers = [(''cookie'', ''e30.e30.e30'')]\<rparr>"

definition demo_peer :: socket_addr where
  "demo_peer = SocketAddrV4 0x7F000001 5000"

lemma demo_server_sel [simp]:
  "sv_match (demo_server cfg) = demo_lib" "sv_http (demo_server cfg) = demo_http"
  "sv_tokens (demo_server cfg) = demo_tokens cfg" "sv_resolver (demo_server cfg) = demo_resolver"
  "sv_net (demo_server cfg) = demo_net" "sv_dns (demo_server cfg) = demo_dns"
  by (simp_all add: demo_server_def)

lemma demo_request_sel [simp]:
  "rq_path (demo_request p) = p" "rq_headers (demo_request p) = [(''cookie'', ''e30.e30.e30'')]"
  by (simp_all add: demo_request_def)

lemma demo_listen_ok: "listen_ok (demo_server cfg)"
proof -
  have "any_listener_poll (reverse_any (RevTcpListener (h, p))) (Accepted (Ready (Some (Ok 1))) :: (nat, string) socket_event)
      = Returns (reverse_any (RevTcpListener (h, p)), Ready (Some (Ok (1, \<lparr>ra_protocol = Tcp False, ra_host = h, ra_port = p\<rparr>))))"
    for h p by (simp add: tcp_listener_poll_def)
  then have "\<exists>ev l'. any_listener_poll (reverse_any (RevTcpListener (h, p))) (ev :: (nat, string) socket_event)
      = Returns (l', Ready (Some (Ok (1, \<lparr>ra_protocol = Tcp False, ra_host = h, ra_port = p\<rparr>))))" for h p by blast
  then show ?thesis
    unfolding listen_ok_def demo_server_def by (auto split: reverse_listener.split_asm)
qed

lemma demo_prefix: "extract_path_prefix ''/v1/events'' = Ok ''v1''"
  by code_simp

lemma demo_tunnel_info: "extract_tunnel_info demo_http (demo_tokens cfg) (demo_request path) = Some cfg"
proof -
  have "h_to_str demo_http ''e30.e30.e30'' = Some ''e30.e30.e30''" by code_simp
  then have "extract_token demo_http (demo_request path) = ''e30.e30.e30''"
    by (intro extract_token_cookie) (simp_all add: demo_request_def hm_get_def)
  then show ?thesis by (simp add: extract_tunnel_info_def jwt_token_to_tunnel_def demo_tokens_def)
qed

lemma demo_headers:
  "extract_x_forwarded_for demo_http (demo_request path) = None"
  "extract_authorization demo_http (demo_request path) = None"
  by (simp_all add: extract_x_forwarded_for_def extract_authorization_def demo_request_def hm_get_def)

lemma demo_dial:
  "tcp_connect demo_net demo_dns (Domain ''google.com'') 443 None (from_secs 10) System = Ok (SocketAddrV4 0x0A000001 80)"
  by (simp add: tcp_connect_def host_addrs_def lookup_host_def demo_dns_def configure_socket_def set_mark_def demo_net_def
      run_attempt_def by_finish_time_def from_secs_def from_millis_def)

definition demo_tunnel_of :: "(string, nat) tunnel" where
  "demo_tunnel_of =
     \<lparr>tn_remote = demo_dest, tn_stream = Forward (TcpConn (SocketAddrV4 0x0A000001 80) []) [], tn_limiters = None,
      tn_inject_cookie = False\<rparr>"

lemma demo_serve_tls:
  "serve_request (demo_server demo_jwt) (demo_server_config\<lparr>ws_tls := tls\<rparr>) (\<lambda>_. False) (\<lambda>_. None) (TlsCnx (Some ''h2'') (Some ''v1''))
     pool_new demo_rules demo_peer (demo_request ''/v1/events'')
   = (Returns \<lparr>rs_status = 200, rs_headers = [], rs_body = []\<rparr>, [ForwardHttp2 demo_tunnel_of], pool_new)"
proof -
  have "remote_addr_try_from (demo_tokens demo_jwt) demo_jwt = Some demo_remote"
    by (simp add: remote_addr_try_from_def demo_tokens_def demo_jwt_def demo_remote_def)
  then have "admit (demo_server demo_jwt) (demo_server_config\<lparr>ws_tls := tls\<rparr>) demo_rules (Some ''v1'') (demo_request ''/v1/events'')
      = Returns (Ok (demo_remote, hd demo_rules, None))"
    using demo_prefix demo_tunnel_info demo_headers demo_remote_granted
    by (simp add: admit_def resolve_remote_def demo_remote_def)
  moreover have "exec_tunnel (demo_server demo_jwt) (demo_server_config\<lparr>ws_tls := tls\<rparr>) (hd demo_rules) demo_remote demo_peer
      = Ok (demo_dest, Forward (TcpConn (SocketAddrV4 0x0A000001 80) []) [])"
    using demo_dial by (simp add: exec_tunnel_def exec_tcp_def demo_remote_def demo_dest_def demo_server_config_def
        connector_for_def tcp_connector_connect_def connector_dest_def)
  ultimately have "handle_tunnel_request (demo_server demo_jwt) (demo_server_config\<lparr>ws_tls := tls\<rparr>) pool_new demo_rules (Some ''v1'')
      demo_peer (demo_request ''/v1/events'') = (Returns (Ok demo_tunnel_of), pool_new)"
    using demo_headers
    by (simp add: handle_tunnel_request_def demo_tunnel_of_def demo_remote_def)
  then show ?thesis
    by (simp add: serve_request_def http_server_upgrade_def with_cookie_def demo_tunnel_of_def hm_get_def)
qed

lemma demo_serve:
  "serve_request (demo_server demo_jwt) demo_server_config (\<lambda>_. False) (\<lambda>_. None) (TlsCnx (Some ''h2'') (Some ''v1''))
     pool_new demo_rules demo_peer (demo_request ''/v1/events'')
   = (Returns \<lparr>rs_status = 200, rs_headers = [], rs_body = []\<rparr>, [ForwardHttp2 demo_tunnel_of], pool_new)"
  using demo_serve_tls [of None] by (simp add: demo_server_config_def)

theorem server_opens_only_validated_witness:
  "\<exists>prefix jwt remote0 remote r.
     extract_path_prefix (rq_path (demo_request ''/v1/events'')) = Ok prefix \<and>
     (cnx_restriction (TlsCnx (Some ''h2'') (Some ''v1'')) = None \<or>
      cnx_restriction (TlsCnx (Some ''h2'') (Some ''v1'')) = Some prefix) \<and>
     extract_tunnel_info (sv_http (demo_server demo_jwt)) (sv_tokens (demo_server demo_jwt)) (demo_request ''/v1/events'') = Some jwt \<and>
     remote_addr_try_from (sv_tokens (demo_server demo_jwt)) jwt = Some remote0 \<and>
     (remote = remote0 \<or> (\<exists>b t. ra_protocol remote0 = TunnelStdio b t \<and> ra_protocol remote = Tcp b)) \<and>
     validate_tunnel (sv_match (demo_server demo_jwt)) remote prefix
       (extract_authorization (sv_http (demo_server demo_jwt)) (demo_request ''/v1/events'')) demo_rules = Some r \<and>
     opens_as (demo_server demo_jwt) demo_server_config r remote
       (tn_remote (spawned_tunnel (ForwardHttp2 demo_tunnel_of))) (tn_stream (spawned_tunnel (ForwardHttp2 demo_tunnel_of)))"
  by (rule server_opens_only_validated [OF demo_serve]) simp

lemma server_never_panics_instance:
  "fst (serve_request (demo_server demo_jwt) demo_server_config (\<lambda>_. False) (\<lambda>_. None) PlainCnx
     pool_new demo_rules demo_peer (demo_request ''/v1/events'')) \<noteq> Panics ''m''"
  by (rule server_never_panics [OF _ demo_listen_ok]) (simp add: demo_http_ok)

lemma demo_refused:
  "serve_request (demo_server demo_jwt) demo_server_config (\<lambda>_. False) (\<lambda>_. None) (TlsCnx (Some ''h2'') (Some ''other''))
     pool_new demo_rules demo_peer (demo_request ''/v1/events'') = (Returns bad_request, [], pool_new)"
proof -
  have "admit (demo_server demo_jwt) demo_server_config demo_rules (Some ''other'') (demo_request ''/v1/events'')
      = Returns (Err bad_request)"
    using demo_prefix by (simp add: admit_def)
  then show ?thesis by (simp add: serve_request_def http_server_upgrade_def handle_tunnel_request_def)
qed


definition demo_id_jwt :: jwt_tunnel_config where
  "demo_id_jwt = \<lparr>jwt_id = show_nat 7, jwt_p = TunnelStdio False None, jwt_r = ''7'', jwt_rp = 0\<rparr>"

definition demo_id_rules :: "(lit_re, ip_addr \<times> nat) restrictions_rules" where
  "demo_id_rules =
     [\<lparr>rc_name = ''pods'', rc_match = [Any],
       rc_allow = [AllowTunnel \<lparr>at_protocol = [], at_port = [(22, 22)], at_host = Literal [], at_cidr = [(V4 0x0A000005, 32)]\<rparr>]\<rparr>]"

definition demo_pod_remote :: remote_addr where
  "demo_pod_remote = \<lparr>ra_protocol = Tcp False, ra_host = Ipv4 0x0A000005, ra_port = 22\<rparr>"

definition demo_endpoint :: tunnel_endpoint where
  "demo_endpoint = \<lparr>ep_host = Ipv4 0x0A000005, ep_port = 22, ep_upload_m = Some 10, ep_download_m = None\<rparr>"

lemma demo_resolved:
  "resolve_tunnel_over_http demo_http (demo_tokens cfg) demo_resolver demo_base 7 None = Returns (Ok demo_endpoint)"
proof -
  have b: "utf8_to_str (tunnel_body demo_tunnel) = Some (tunnel_body demo_tunnel)"
    "parse_host ''10.0.0.5'' = Some (Ipv4 0x0A000005)" "cap_rate (Some 10) = Some 10" by code_simp+
  then have "read_endpoint demo_resolver (tunnel_body demo_tunnel) = Ok demo_endpoint"
    by (simp add: read_endpoint_def demo_resolver_def demo_endpoint_def cap_rate_def)
  then show ?thesis
    by (simp add: resolve_tunnel_over_http_def demo_base_def) (simp add: demo_resolver_def)
qed

lemma demo_id_parts:
  "remote_addr_try_from (demo_tokens demo_id_jwt) demo_id_jwt
     = Some \<lparr>ra_protocol = TunnelStdio False None, ra_host = Domain ''7'', ra_port = 0\<rparr>"
  "j_uuid_parse (demo_tokens demo_id_jwt) ''7'' = Some 7"
  "validate_tunnel demo_lib demo_pod_remote ''v1'' None demo_id_rules = Some (hd demo_id_rules)"
proof -
  have "parse_uint (2 ^ 128) ''7'' = Some 7" by code_simp
  then show "j_uuid_parse (demo_tokens demo_id_jwt) ''7'' = Some 7" by (simp add: demo_tokens_def)
  have "cidr_contains (V4 0x0A000005, 32) (V4 0x0A000005)" by code_simp
  then show "validate_tunnel demo_lib demo_pod_remote ''v1'' None demo_id_rules = Some (hd demo_id_rules)"
    by (simp add: validate_tunnel_find rule_grants_def demo_id_rules_def demo_pod_remote_def demo_lib_def
        tunnel_is_allowed_def in_range_def)
qed (simp add: remote_addr_try_from_def demo_tokens_def demo_id_jwt_def)

definition demo_id_tunnel :: "(string, nat) tunnel" where
  "demo_id_tunnel =
     \<lparr>tn_remote = demo_pod_remote, tn_stream = Forward (TcpConn (SocketAddrV4 0x0A000005 22) []) [],
      tn_limiters = Some (fst (pool_wrap pool_new 7 (Some 10) None)), tn_inject_cookie = False\<rparr>"

lemma demo_id_handled:
  "handle_tunnel_request (demo_server demo_id_jwt) demo_server_config pool_new demo_id_rules None demo_peer
     (demo_request ''/v1/events'') = (Returns (Ok demo_id_tunnel), snd (pool_wrap pool_new 7 (Some 10) None))"
proof -
  have "admit (demo_server demo_id_jwt) demo_server_config demo_id_rules None (demo_request ''/v1/events'')
      = Returns (Ok (demo_pod_remote, hd demo_id_rules, Some (7, Some 10, None)))"
    using demo_prefix demo_tunnel_info demo_headers demo_id_parts demo_resolved
    by (simp add: admit_def resolve_remote_def demo_server_config_def demo_endpoint_def demo_pod_remote_def)
  moreover have "tcp_connect demo_net demo_dns (Ipv4 0x0A000005) 22 None (from_secs 10) System = Ok (SocketAddrV4 0x0A000005 22)"
    by (simp add: tcp_connect_def host_addrs_def configure_socket_def set_mark_def demo_net_def run_attempt_def
        by_finish_time_def from_secs_def from_millis_def)
  then have "exec_tunnel (demo_server demo_id_jwt) demo_server_config (hd demo_id_rules) demo_pod_remote demo_peer
      = Ok (demo_pod_remote, Forward (TcpConn (SocketAddrV4 0x0A000005 22) []) [])"
    by (simp add: exec_tunnel_def exec_tcp_def demo_pod_remote_def demo_server_config_def
        connector_for_def tcp_connector_connect_def connector_dest_def)
  ultimately show ?thesis
    using demo_headers
    by (simp add: handle_tunnel_request_def demo_id_tunnel_def demo_pod_remote_def split: prod.split)
qed

theorem tunnel_identifier_request_witness:
  "tn_remote demo_id_tunnel = \<lparr>ra_protocol = Tcp False, ra_host = Ipv4 0x0A000005, ra_port = 22\<rparr> \<and>
   tn_limiters demo_id_tunnel = Some (fst (pool_wrap pool_new 7 (Some 10) None))"
  using tunnel_identifier_request [OF demo_id_handled, of demo_id_jwt False None "''7''" 0 7 demo_base demo_endpoint]
    demo_id_parts demo_tunnel_info demo_resolved demo_headers
  by (simp add: demo_server_config_def demo_endpoint_def)

end
