(* ===== verification/Reloaders.thy ===== *)
theory Reloaders
  imports Restrictions Tls
begin

text \<open>
  The reloading of files that change under a running program: the rules of the server
  (\<open>restrictions/config_reloader.rs\<close>), the certificates of the server and of the client
  (\<open>tunnel/tls_reloader.rs\<close>), and the TLS context of the server's accept loop.  An event of the file
  system carries what the files hold at that moment (\<open>config_file\<close> or the TLS library \<open>T\<close>).  A thread
  that waits for a file to come back is an entry of the list of watches to set again.
\<close>

section \<open>File-system events\<close>

datatype event_kind = Access | Create | Modify | Remove | OtherEvent | AnyEvent

record fs_event =
  ev_kind :: event_kind
  ev_paths :: "path list"

text \<open>\<open>Path::components\<close> and \<open>Path::ends_with\<close>, which compares whole components.\<close>

definition path_components :: "path \<Rightarrow> string list" where
  "path_components p =
     (let cs = split CHR ''/'' p in
      (if starts_with ''/'' p then [''/''] else if hd cs = ''.'' then [''.''] else [])
      @ filter (\<lambda>c. c \<noteq> [] \<and> c \<noteq> ''.'') cs)"

definition path_ends_with :: "path \<Rightarrow> path \<Rightarrow> bool" where
  "path_ends_with p child = suffix (path_components child) (path_components p)"

text \<open>\<open>notify\<close>: the creation of a watcher and the start of a watch.\<close>

record 'e watch_lib =
  wl_create :: "(unit, 'e) result"
  wl_watch :: "path \<Rightarrow> (unit, 'e) result"

section \<open>The rules of the server\<close>

record ('re, 'net) rules_reloader =
  rr_config_path :: "path option"
  rr_restrictions :: "('re, 'net) restrictions_rules"
  rr_rewatch :: "path list"

definition rules_reloader_new ::
  "'e watch_lib \<Rightarrow> ('re, 'net) restrictions_rules \<Rightarrow> path option \<Rightarrow> (('re, 'net) rules_reloader, 'e) result" where
  "rules_reloader_new W rules config_path =
     (let r = \<lparr>rr_config_path = config_path, rr_restrictions = rules, rr_rewatch = []\<rparr> in
      case config_path of
        None \<Rightarrow> Ok r
      | Some p \<Rightarrow> and_then (wl_create W) (\<lambda>_. and_then (wl_create W) (\<lambda>_. and_then (wl_watch W p) (\<lambda>_. Ok r))))"

definition reload_restrictions_config ::
  "(path \<Rightarrow> (('re, 'net) restrictions_rules, 'f) result) \<Rightarrow> ('re, 'net) rules_reloader \<Rightarrow> ('re, 'net) rules_reloader" where
  "reload_restrictions_config config_file r =
     (case rr_config_path r of
        None \<Rightarrow> r
      | Some p \<Rightarrow> (case config_file p of Ok rules \<Rightarrow> r\<lparr>rr_restrictions := rules\<rparr> | Err _ \<Rightarrow> r))"

definition handle_config_fs_event ::
  "(path \<Rightarrow> (('re, 'net) restrictions_rules, 'f) result) \<Rightarrow> (fs_event, 'e) result
   \<Rightarrow> ('re, 'net) rules_reloader \<Rightarrow> ('re, 'net) rules_reloader" where
  "handle_config_fs_event config_file event r =
     (case rr_config_path r of
        None \<Rightarrow> r
      | Some config_path \<Rightarrow>
         (case event of
            Err _ \<Rightarrow> r
          | Ok ev \<Rightarrow>
              if ev_kind ev = Access then r
              else (case find (\<lambda>p. path_ends_with p config_path) (ev_paths ev) of
                      None \<Rightarrow> r
                    | Some p \<Rightarrow>
                        if ev_kind ev \<in> {Create, Modify} then reload_restrictions_config config_file r
                        else if ev_kind ev = Remove then r\<lparr>rr_rewatch := rr_rewatch r @ [p]\<rparr>
                        else r)))"

text \<open>
  A round of the thread that waits for a removed file: nothing while the file does not exist, the end
  of the watching if it cannot be watched, otherwise a forced reload.
\<close>

definition try_rewatch_config ::
  "(path \<Rightarrow> (('re, 'net) restrictions_rules, 'f) result) \<Rightarrow> bool \<Rightarrow> (unit, 'e) result \<Rightarrow> path
   \<Rightarrow> ('re, 'net) rules_reloader \<Rightarrow> ('re, 'net) rules_reloader" where
  "try_rewatch_config config_file exists watch p r =
     (if p \<notin> set (rr_rewatch r) \<or> \<not> exists then r
      else (let r' = r\<lparr>rr_rewatch := remove1 p (rr_rewatch r)\<rparr> in
        case watch of
          Err _ \<Rightarrow> r'
        | Ok _ \<Rightarrow> handle_config_fs_event config_file (Ok \<lparr>ev_kind = Create, ev_paths = [p]\<rparr> :: (fs_event, 'e) result) r'))"

section \<open>The certificates of the server\<close>

record server_reload =
  sr_reload_certificate :: bool
  sr_cert_path :: path
  sr_key_path :: path
  sr_client_ca_path :: "path option"
  sr_rewatch :: "path list"

text \<open>The reaction to an event on one watched file: \<open>load\<close> its content and \<open>store\<close> it, or wait for it.\<close>

definition on_server_file ::
  "fs_event \<Rightarrow> path \<Rightarrow> ('a, 'f) result \<Rightarrow> ('a \<Rightarrow> tls_server_config \<times> server_reload \<Rightarrow> tls_server_config \<times> server_reload)
   \<Rightarrow> tls_server_config \<times> server_reload \<Rightarrow> tls_server_config \<times> server_reload" where
  "on_server_file ev target load store s =
     (let rewatch = (\<lambda>p. (fst s, (snd s)\<lparr>sr_rewatch := sr_rewatch (snd s) @ [p]\<rparr>)) in
      case find (\<lambda>p. path_ends_with p target) (ev_paths ev) of
        None \<Rightarrow> s
      | Some p \<Rightarrow>
          if ev_kind ev \<in> {Create, Modify} then (case load of Ok x \<Rightarrow> store x s | Err _ \<Rightarrow> rewatch p)
          else if ev_kind ev = Remove then rewatch p
          else s)"

definition store_certificate :: "cert list \<Rightarrow> tls_server_config \<times> server_reload \<Rightarrow> tls_server_config \<times> server_reload" where
  "store_certificate certs s =
     ((fst s)\<lparr>ts_certificate := certs\<rparr>, (snd s)\<lparr>sr_reload_certificate := True\<rparr>)"

definition store_key :: "private_key \<Rightarrow> tls_server_config \<times> server_reload \<Rightarrow> tls_server_config \<times> server_reload" where
  "store_key key s = ((fst s)\<lparr>ts_key := key\<rparr>, (snd s)\<lparr>sr_reload_certificate := True\<rparr>)"

definition store_client_ca :: "cert list \<Rightarrow> tls_server_config \<times> server_reload \<Rightarrow> tls_server_config \<times> server_reload" where
  "store_client_ca certs s =
     (case ts_client_ca_certificates (fst s) of
        None \<Rightarrow> s
      | Some _ \<Rightarrow> ((fst s)\<lparr>ts_client_ca_certificates := Some certs\<rparr>, (snd s)\<lparr>sr_reload_certificate := True\<rparr>))"

definition handle_server_fs_event ::
  "('ech, 'e) tls_lib \<Rightarrow> (fs_event, 'w) result \<Rightarrow> tls_server_config \<times> server_reload \<Rightarrow> tls_server_config \<times> server_reload" where
  "handle_server_fs_event T event s =
     (case event of
        Err _ \<Rightarrow> s
      | Ok ev \<Rightarrow>
          if ev_kind ev = Access then s
          else
            (let cert_path = sr_cert_path (snd s); key_path = sr_key_path (snd s); ca_path = sr_client_ca_path (snd s);
                 s1 = on_server_file ev cert_path (load_certificates_from_pem T cert_path) store_certificate s;
                 s2 = on_server_file ev key_path (load_private_key_from_file T key_path) store_key s1
             in case ca_path of
                  None \<Rightarrow> s2
                | Some p \<Rightarrow> on_server_file ev p (load_certificates_from_pem T p) store_client_ca s2))"

definition try_rewatch_server ::
  "('ech, 'e) tls_lib \<Rightarrow> bool \<Rightarrow> (unit, 'w) result \<Rightarrow> path
   \<Rightarrow> tls_server_config \<times> server_reload \<Rightarrow> tls_server_config \<times> server_reload" where
  "try_rewatch_server T exists watch p s =
     (if p \<notin> set (sr_rewatch (snd s)) \<or> \<not> exists then s
      else (let s' = (fst s, (snd s)\<lparr>sr_rewatch := remove1 p (sr_rewatch (snd s))\<rparr>) in
        case watch of
          Err _ \<Rightarrow> s'
        | Ok _ \<Rightarrow> handle_server_fs_event T (Ok \<lparr>ev_kind = Create, ev_paths = [p]\<rparr> :: (fs_event, 'w) result) s'))"

text \<open>\<open>None\<close> stands for \<open>TlsReloaderState::Empty\<close>: there is nothing to watch.\<close>

definition new_for_server :: "'w watch_lib \<Rightarrow> tls_server_config option \<Rightarrow> (server_reload option, 'w) result" where
  "new_for_server W tls =
     (case Option.bind tls (\<lambda>t. case (ts_certificate_path t, ts_key_path t) of
              (Some c, Some k) \<Rightarrow> Some (c, k, ts_client_ca_certs_path t) | _ \<Rightarrow> None) of
        None \<Rightarrow> Ok None
      | Some (cert_path, key_path, client_ca_path) \<Rightarrow>
          and_then (wl_create W) (\<lambda>_. and_then (wl_create W) (\<lambda>_.
          and_then (wl_watch W cert_path) (\<lambda>_. and_then (wl_watch W key_path) (\<lambda>_.
          and_then (case client_ca_path of None \<Rightarrow> Ok () | Some p \<Rightarrow> wl_watch W p) (\<lambda>_.
            Ok (Some \<lparr>sr_reload_certificate = False, sr_cert_path = cert_path, sr_key_path = key_path,
                      sr_client_ca_path = client_ca_path, sr_rewatch = []\<rparr>)))))))"

subsection \<open>The TLS context of the accept loop\<close>

record tls_context =
  tx_acceptor :: server_tls
  tx_reloader :: "server_reload option"
  tx_config :: tls_server_config

definition server_alpn :: "string list" where
  "server_alpn = [''h2'', ''http/1.1'']"

definition tls_context_new ::
  "('ech, 'e) tls_lib \<Rightarrow> 'w watch_lib \<Rightarrow> tls_server_config \<Rightarrow> (tls_context, 'e tls_error + 'w) result" where
  "tls_context_new T W cfg =
     (case tls_acceptor T cfg (Some server_alpn) of
        Err e \<Rightarrow> Err (Inl e)
      | Ok acceptor \<Rightarrow>
         (case new_for_server W (Some cfg) of
            Err e \<Rightarrow> Err (Inr e)
          | Ok reloader \<Rightarrow> Ok \<lparr>tx_acceptor = acceptor, tx_reloader = reloader, tx_config = cfg\<rparr>))"

definition should_reload_certificate :: "tls_context \<Rightarrow> bool" where
  "should_reload_certificate tx =
     (case tx_reloader tx of None \<Rightarrow> False | Some sr \<Rightarrow> sr_reload_certificate sr)"

text \<open>\<open>TlsContext::tls_acceptor\<close>: the flag is taken, and a configuration that is refused keeps the old acceptor.\<close>

definition refresh_acceptor :: "('ech, 'e) tls_lib \<Rightarrow> tls_context \<Rightarrow> tls_context" where
  "refresh_acceptor T tx =
     (if should_reload_certificate tx then
        (let tx' = tx\<lparr>tx_reloader := map_option (\<lambda>sr. sr\<lparr>sr_reload_certificate := False\<rparr>) (tx_reloader tx)\<rparr> in
         case tls_acceptor T (tx_config tx) (Some server_alpn) of
           Ok acceptor \<Rightarrow> tx'\<lparr>tx_acceptor := acceptor\<rparr>
         | Err _ \<Rightarrow> tx')
      else tx)"

definition with_reloader ::
  "(tls_server_config \<times> server_reload \<Rightarrow> tls_server_config \<times> server_reload) \<Rightarrow> tls_context \<Rightarrow> tls_context" where
  "with_reloader f tx =
     (case tx_reloader tx of
        None \<Rightarrow> tx
      | Some sr \<Rightarrow> (case f (tx_config tx, sr) of (cfg, sr') \<Rightarrow> tx\<lparr>tx_config := cfg, tx_reloader := Some sr'\<rparr>))"

section \<open>The certificates of the client\<close>

record 'ech client_reload =
  cr_reload_certificate :: bool
  cr_cert_path :: path
  cr_key_path :: path
  cr_tls :: "'ech client_tls tls_client_config"
  cr_scheme :: transport_scheme
  cr_rewatch :: "path list"

text \<open>
  One file of the pair: both files are loaded again and a connector is made of them.  The result tells
  whether the handler goes on; it returns when the connector cannot be made.
\<close>

definition on_client_file ::
  "('ech, 'e) tls_lib \<Rightarrow> fs_event \<Rightarrow> path \<Rightarrow> 'ech client_reload \<Rightarrow> 'ech client_reload \<times> bool" where
  "on_client_file T ev target s =
     (let rewatch = (\<lambda>p. s\<lparr>cr_rewatch := cr_rewatch s @ [p]\<rparr>) in
      case find (\<lambda>p. path_ends_with p target) (ev_paths ev) of
        None \<Rightarrow> (s, True)
      | Some p \<Rightarrow>
          if ev_kind ev \<in> {Create, Modify} then
            (case (load_certificates_from_pem T (cr_cert_path s), load_private_key_from_file T (cr_key_path s)) of
               (Ok certs, Ok key) \<Rightarrow>
                 (case tls_connector_new T (tls_verify_certificate (cr_tls s)) (alpn_protocols (cr_scheme s))
                         (\<not> tls_sni_disabled (cr_tls s)) None (Some certs) (Some key) of
                    Ok connector \<Rightarrow>
                      (s\<lparr>cr_tls := (cr_tls s)\<lparr>tls_connector := connector\<rparr>, cr_reload_certificate := True\<rparr>, True)
                  | Err _ \<Rightarrow> (s, False))
             | _ \<Rightarrow> (rewatch p, True))
          else if ev_kind ev = Remove then (rewatch p, True)
          else (s, True))"

definition handle_client_fs_event ::
  "('ech, 'e) tls_lib \<Rightarrow> (fs_event, 'w) result \<Rightarrow> 'ech client_reload \<Rightarrow> 'ech client_reload run" where
  "handle_client_fs_event T event s =
     (case event of
        Err _ \<Rightarrow> Returns s
      | Ok ev \<Rightarrow>
          if ev_kind ev = Access then Returns s
          else (case on_client_file T ev (cr_cert_path s) s of
                  (s1, False) \<Rightarrow> Returns s1
                | (s1, True) \<Rightarrow>
                    (case ev_paths ev of
                       [] \<Rightarrow> Returns s1
                     | _ \<Rightarrow>
                       run_then (expect ''called `Option::unwrap()` on a `None` value'' (tls_key_path (cr_tls s1))) (\<lambda>key_path.
                         Returns (fst (on_client_file T ev key_path s1))))))"

definition try_rewatch_client ::
  "('ech, 'e) tls_lib \<Rightarrow> bool \<Rightarrow> (unit, 'w) result \<Rightarrow> path \<Rightarrow> 'ech client_reload \<Rightarrow> 'ech client_reload run" where
  "try_rewatch_client T exists watch p s =
     (if p \<notin> set (cr_rewatch s) \<or> \<not> exists then Returns s
      else (let s' = s\<lparr>cr_rewatch := remove1 p (cr_rewatch s)\<rparr> in
        case watch of
          Err _ \<Rightarrow> Returns s'
        | Ok _ \<Rightarrow> handle_client_fs_event T (Ok \<lparr>ev_kind = Create, ev_paths = [p]\<rparr> :: (fs_event, 'w) result) s'))"

definition new_for_client ::
  "'w watch_lib \<Rightarrow> ('ech client_tls, 'sys) ws_client_config \<Rightarrow> ('ech client_reload option, 'w) result" where
  "new_for_client W cfg =
     (case Option.bind (ta_tls (cc_remote_addr cfg)) (\<lambda>t. case (tls_certificate_path t, tls_key_path t) of
              (Some c, Some k) \<Rightarrow> Some (t, c, k) | _ \<Rightarrow> None) of
        None \<Rightarrow> Ok None
      | Some (tls, cert_path, key_path) \<Rightarrow>
          and_then (wl_create W) (\<lambda>_. and_then (wl_create W) (\<lambda>_.
          and_then (wl_watch W cert_path) (\<lambda>_. and_then (wl_watch W key_path) (\<lambda>_.
            Ok (Some \<lparr>cr_reload_certificate = False, cr_cert_path = cert_path, cr_key_path = key_path, cr_tls = tls,
                      cr_scheme = ta_scheme (cc_remote_addr cfg), cr_rewatch = []\<rparr>))))))"

section \<open>Properties of the client's reloader\<close>

datatype ('ech, 'e, 'w) client_reload_event =
    ClientFiles "('ech, 'e) tls_lib" "(fs_event, 'w) result"
  | ClientRewatch "('ech, 'e) tls_lib" bool "(unit, 'w) result" path

fun client_reload_step :: "('ech, 'e, 'w) client_reload_event \<Rightarrow> 'ech client_reload \<Rightarrow> 'ech client_reload run" where
  "client_reload_step (ClientFiles T event) s = handle_client_fs_event T event s"
| "client_reload_step (ClientRewatch T exists watch p) s = try_rewatch_client T exists watch p s"

fun client_reload_run :: "('ech, 'e, 'w) client_reload_event list \<Rightarrow> 'ech client_reload \<Rightarrow> 'ech client_reload run" where
  "client_reload_run [] s = Returns s"
| "client_reload_run (ev # evs) s = run_then (client_reload_step ev s) (client_reload_run evs)"

text \<open>What every state reached from \<open>s0\<close> keeps: the settings, and a connector that obeys them.\<close>

definition obeys :: "'ech client_reload \<Rightarrow> 'ech client_tls \<Rightarrow> bool" where
  "obeys s0 c \<longleftrightarrow>
     (ct_verifier c = WebPkiServer \<longleftrightarrow> tls_verify_certificate (cr_tls s0)) \<and>
     ct_alpn c = alpn_protocols (cr_scheme s0) \<and> ct_enable_sni c = (\<not> tls_sni_disabled (cr_tls s0))"

definition client_reload_inv :: "'ech client_reload \<Rightarrow> 'ech client_reload \<Rightarrow> bool" where
  "client_reload_inv s0 s \<longleftrightarrow>
     cr_tls s = (cr_tls s0)\<lparr>tls_connector := tls_connector (cr_tls s)\<rparr> \<and> cr_scheme s = cr_scheme s0 \<and>
     (if cr_reload_certificate s
      then obeys s0 (tls_connector (cr_tls s)) \<and> ct_ech (tls_connector (cr_tls s)) = None \<and>
           ct_client_auth (tls_connector (cr_tls s)) \<noteq> None
      else tls_connector (cr_tls s) = tls_connector (cr_tls s0))"

lemma client_reload_inv_rewatch: "client_reload_inv s0 (s\<lparr>cr_rewatch := ps\<rparr>) = client_reload_inv s0 s"
  by (simp add: client_reload_inv_def)

lemma client_reload_inv_settings:
  assumes "client_reload_inv s0 s"
  shows "tls_verify_certificate (cr_tls s) = tls_verify_certificate (cr_tls s0)"
    "tls_sni_disabled (cr_tls s) = tls_sni_disabled (cr_tls s0)" "tls_key_path (cr_tls s) = tls_key_path (cr_tls s0)"
    "cr_scheme s = cr_scheme s0"
  using assms unfolding client_reload_inv_def
  by (metis tls_client_config.select_convs(3) tls_client_config.update_convs(4) tls_client_config.cases_scheme,
      metis tls_client_config.select_convs(1) tls_client_config.update_convs(4) tls_client_config.cases_scheme,
      metis tls_client_config.select_convs(6) tls_client_config.update_convs(4) tls_client_config.cases_scheme, metis)

lemma client_reload_inv_install:
  assumes "client_reload_inv s0 s"
    and "tls_connector_new T (tls_verify_certificate (cr_tls s)) (alpn_protocols (cr_scheme s))
           (\<not> tls_sni_disabled (cr_tls s)) None (Some certs) (Some key) = Ok connector"
  shows "client_reload_inv s0 (s\<lparr>cr_tls := (cr_tls s)\<lparr>tls_connector := connector\<rparr>, cr_reload_certificate := True\<rparr>)"
proof -
  have "(cr_tls s)\<lparr>tls_connector := connector\<rparr> = (cr_tls s0)\<lparr>tls_connector := connector\<rparr>"
    using assms(1) unfolding client_reload_inv_def
    by (metis tls_client_config.update_convs(4) tls_client_config.cases_scheme)
  then show ?thesis
    using tls_connector_new_Ok [OF assms(2)] client_reload_inv_settings [OF assms(1)]
    by (auto simp: client_reload_inv_def obeys_def)
qed

lemma on_client_file_inv: "client_reload_inv s0 s \<Longrightarrow> client_reload_inv s0 (fst (on_client_file T ev p s))"
  by (auto simp: on_client_file_def Let_def client_reload_inv_rewatch intro: client_reload_inv_install split: option.split result.split)

lemma handle_client_fs_event_inv:
  assumes "client_reload_inv s0 s" "tls_key_path (cr_tls s0) = Some k"
  shows "\<exists>s'. handle_client_fs_event T event s = Returns s' \<and> client_reload_inv s0 s'"
proof (cases event)
  case (Ok ev)
  obtain s1 b where s1: "on_client_file T ev (cr_cert_path s) s = (s1, b)" by fastforce
  have i1: "client_reload_inv s0 s1" using on_client_file_inv [OF assms(1)] s1 by (metis fst_conv)
  then have "tls_key_path (cr_tls s1) = Some k" using client_reload_inv_settings(3) assms(2) by metis
  then show ?thesis
    using assms(1) i1 on_client_file_inv [OF i1] s1
    by (cases b) (auto simp: handle_client_fs_event_def Ok split: list.split)
qed (use assms in \<open>simp add: handle_client_fs_event_def\<close>)

lemma client_reload_step_inv:
  assumes "client_reload_inv s0 s" "tls_key_path (cr_tls s0) = Some k"
  shows "\<exists>s'. client_reload_step ev s = Returns s' \<and> client_reload_inv s0 s'"
proof (cases ev)
  case (ClientRewatch T ex watch p)
  have "client_reload_inv s0 (s\<lparr>cr_rewatch := remove1 p (cr_rewatch s)\<rparr>)"
    using assms(1) by (simp add: client_reload_inv_rewatch)
  then show ?thesis
    using ClientRewatch assms handle_client_fs_event_inv [OF _ assms(2)]
    by (auto simp: try_rewatch_client_def Let_def split: result.split)
qed (simp add: handle_client_fs_event_inv [OF assms])

text \<open>
  C29. Reloading the client's certificate never weakens its connection: whatever happens to the files,
  the reloader does not panic, a client that verifies the server's certificate goes on verifying it,
  the application protocol and the use of the server name stay, and a connector it installs presents a
  client certificate.  It does lose the encrypted client hello: no connector it installs uses it.
\<close>

theorem client_reload_keeps_settings:
  assumes "new_for_client W cfg = Ok (Some s0)"
    and "ta_tls (cc_remote_addr cfg) = Some tls"
    and "(ct_verifier (tls_connector tls) = WebPkiServer) = tls_verify_certificate tls"
    and "ct_alpn (tls_connector tls) = alpn_protocols (ta_scheme (cc_remote_addr cfg))"
    and "ct_enable_sni (tls_connector tls) = (\<not> tls_sni_disabled tls)"
  shows "\<exists>s. client_reload_run evs s0 = Returns s \<and>
     (let c = tls_connector (cr_tls s) in
      (ct_verifier c = WebPkiServer \<longleftrightarrow> tls_verify_certificate tls) \<and>
      ct_alpn c = alpn_protocols (ta_scheme (cc_remote_addr cfg)) \<and> ct_enable_sni c = (\<not> tls_sni_disabled tls) \<and>
      (c = tls_connector tls \<or> ct_client_auth c \<noteq> None \<and> ct_ech c = None))"
proof -
  have s0: "cr_tls s0 = tls" "cr_scheme s0 = ta_scheme (cc_remote_addr cfg)" "\<not> cr_reload_certificate s0" "tls_key_path tls \<noteq> None"
    using assms(1, 2) by (auto simp: new_for_client_def result_simps split: option.split_asm)
  then obtain k where k: "tls_key_path (cr_tls s0) = Some k" by auto
  have "client_reload_inv s0 s \<Longrightarrow> \<exists>s'. client_reload_run evs s = Returns s' \<and> client_reload_inv s0 s'" for s
  proof (induction evs arbitrary: s)
    case (Cons ev evs)
    obtain s1 where "client_reload_step ev s = Returns s1" "client_reload_inv s0 s1"
      using client_reload_step_inv [OF Cons.prems k] by blast
    then show ?case using Cons.IH by simp
  qed simp
  moreover have "client_reload_inv s0 s0" using s0 by (simp add: client_reload_inv_def)
  ultimately obtain s where "client_reload_run evs s0 = Returns s" "client_reload_inv s0 s" by blast
  then show ?thesis
    using s0 assms(3-5) by (auto simp: client_reload_inv_def obeys_def Let_def split: if_split_asm)
qed

section \<open>A concrete client\<close>

definition demo_tls :: "(unit, string) tls_lib" where
  "demo_tls =
     \<lparr>tl_certs = (\<lambda>p. Ok [Ok [2], Err ''bad'', Ok [4]]), tl_key = (\<lambda>p. Ok (Some [3])),
      tl_x509 = (\<lambda>c. Some \<lparr>x_is_ca = (c = [1]), x_common_names = [None, Some ''v1'']\<rparr>),
      tl_native_certs = [], tl_root_ok = (\<lambda>_. True), tl_ech_ok = (\<lambda>_. True), tl_versions_ok = True,
      tl_auth_ok = (\<lambda>cs k. cs \<noteq> [] \<and> k = [3]), tl_verifier_ok = (\<lambda>cas. cas \<noteq> [])\<rparr>"

definition demo_watch :: "string watch_lib" where
  "demo_watch = \<lparr>wl_create = Ok (), wl_watch = (\<lambda>_. Ok ())\<rparr>"

definition demo_changed :: "path \<Rightarrow> fs_event" where
  "demo_changed p = \<lparr>ev_kind = Modify, ev_paths = [''/etc/tls/'' @ p]\<rparr>"

definition demo_connector :: "unit client_tls" where
  "demo_connector =
     \<lparr>ct_roots = [], ct_ech = Some (), ct_client_auth = Some ([[9]], [3]), ct_enable_sni = True, ct_verifier = WebPkiServer,
      ct_alpn = [''http/1.1'']\<rparr>"

definition demo_client_tls :: "unit client_tls tls_client_config" where
  "demo_client_tls =
     \<lparr>tls_sni_disabled = False, tls_sni_override = None, tls_verify_certificate = True, tls_connector = demo_connector,
      tls_certificate_path = Some ''cert.pem'', tls_key_path = Some ''key.pem''\<rparr>"

definition demo_client :: "(unit client_tls, unit) ws_client_config" where
  "demo_client =
     \<lparr>cc_remote_addr = AddrWss demo_client_tls Wss (Domain ''example.com'') 443, cc_so_mark = None, cc_path_prefix = ''v1'',
      cc_credentials = None, cc_headers = [], cc_headers_file = None, cc_header_host = ''example.com'',
      cc_timeout_connect = from_secs 10, cc_ping_frequency = Some (from_secs 30), cc_mask_frame = False,
      cc_http_proxy = None, cc_dns_resolver = System\<rparr>"

definition demo_client_reload :: "unit client_reload" where
  "demo_client_reload =
     \<lparr>cr_reload_certificate = False, cr_cert_path = ''cert.pem'', cr_key_path = ''key.pem'', cr_tls = demo_client_tls,
      cr_scheme = Wss, cr_rewatch = []\<rparr>"

theorem client_reload_keeps_settings_witness:
  "\<exists>s. client_reload_run [ClientFiles demo_tls (Ok (demo_changed ''cert.pem'') :: (fs_event, string) result)] demo_client_reload = Returns s \<and>
     (let c = tls_connector (cr_tls s) in
      (ct_verifier c = WebPkiServer \<longleftrightarrow> tls_verify_certificate demo_client_tls) \<and>
      ct_alpn c = alpn_protocols (ta_scheme (cc_remote_addr demo_client)) \<and> ct_enable_sni c = (\<not> tls_sni_disabled demo_client_tls) \<and>
      (c = tls_connector demo_client_tls \<or> ct_client_auth c \<noteq> None \<and> ct_ech c = None))"
proof (rule client_reload_keeps_settings)
  show "new_for_client demo_watch demo_client = Ok (Some demo_client_reload)"
    by (simp add: new_for_client_def demo_client_def demo_client_tls_def demo_watch_def demo_client_reload_def)
qed (simp_all add: demo_client_def demo_client_tls_def demo_connector_def)

end
