(* ===== verification/Serve.thy ===== *)
theory Serve
  imports Server Reloaders
begin

text \<open>
  The accept loop of the server (\<open>WsServer::serve\<close>): connections, TLS handshakes and requests
  interleaved with the reloading of rules and certificates, as a step function on the server's state.
  The acceptor of a connection is the one in force when the connection is accepted; the rules of a
  request are those in force when the request is served.  \<open>handshake\<close> is \<open>TlsAcceptor::accept\<close>: the
  negotiated protocol and the certificates of the client, or a failure; \<open>X\<close> is the library whose X.509
  parser reads those certificates.
\<close>

section \<open>State and steps\<close>

datatype serve_cnx = Handshaking server_tls | Established cnx | Closed

record ('re, 'net, 'e, 's) serve_state =
  se_rules :: "('re, 'net) rules_reloader"
  se_tls :: "tls_context option"
  se_pool :: rate_limiter_pool
  se_cnxs :: "(socket_addr \<times> serve_cnx) list"
  se_tasks :: "('e, 's) spawned list"

datatype ('t, 'w) serve_error = TlsSetup "'t tls_error + 'w" | RulesWatch 'w | BindFailed 'w

definition serve_start ::
  "('ech, 't) tls_lib \<Rightarrow> 'w watch_lib \<Rightarrow> (socket_addr \<Rightarrow> (unit, 'w) result) \<Rightarrow> 'sys ws_server_config
   \<Rightarrow> ('re, 'net) restrictions_rules \<Rightarrow> (('re, 'net, 'e, 's) serve_state, ('t, 'w) serve_error) result" where
  "serve_start T W tcp_bind cfg rules =
     and_then (case ws_tls cfg of
                 None \<Rightarrow> Ok None
               | Some tls \<Rightarrow> map_ok Some (map_err TlsSetup (tls_context_new T W tls))) (\<lambda>tls.
     and_then (map_err RulesWatch (rules_reloader_new W rules (ws_restriction_config cfg))) (\<lambda>reloader.
     and_then (map_err BindFailed (tcp_bind (ws_bind cfg))) (\<lambda>_.
       Ok \<lparr>se_rules = reloader, se_tls = tls, se_pool = pool_new, se_cnxs = [], se_tasks = []\<rparr>)))"

datatype ('re, 'net, 'f, 'ech, 't, 'w, 'hello) serve_event =
    RulesChanged "path \<Rightarrow> (('re, 'net) restrictions_rules, 'f) result" "(fs_event, 'w) result"
  | RulesRewatched "path \<Rightarrow> (('re, 'net) restrictions_rules, 'f) result" bool "(unit, 'w) result" path
  | CertsChanged "('ech, 't) tls_lib" "(fs_event, 'w) result"
  | CertsRewatched "('ech, 't) tls_lib" bool "(unit, 'w) result" path
  | AcceptFailed
  | Accepts "('ech, 't) tls_lib" socket_addr
  | Handshakes nat 'hello
  | Requests nat request

definition finish_handshake ::
  "('ech, 't) tls_lib \<Rightarrow> (server_tls \<Rightarrow> 'hello \<Rightarrow> (string option \<times> cert list option) option) \<Rightarrow> server_tls \<Rightarrow> 'hello
   \<Rightarrow> serve_cnx" where
  "finish_handshake T handshake acceptor hello =
     (case handshake acceptor hello of
        None \<Rightarrow> Closed
      | Some (alpn, certs) \<Rightarrow> Established (TlsCnx alpn (Option.bind certs (cert_cn T))))"

definition serve_step ::
  "('re, 'net, 'sys, 'dech, 'e, 's) server_env \<Rightarrow> 'sys ws_server_config \<Rightarrow> (request \<Rightarrow> bool) \<Rightarrow> (request \<Rightarrow> header_map option)
   \<Rightarrow> ('ech, 't) tls_lib \<Rightarrow> (server_tls \<Rightarrow> 'hello \<Rightarrow> (string option \<times> cert list option) option)
   \<Rightarrow> ('re, 'net, 'f, 'ech, 't, 'w, 'hello) serve_event \<Rightarrow> ('re, 'net, 'e, 's) serve_state
   \<Rightarrow> ('re, 'net, 'e, 's) serve_state run" where
  "serve_step E cfg is_upgrade upgrade X handshake ev s =
     (case ev of
        RulesChanged config_file event \<Rightarrow>
          Returns (s\<lparr>se_rules := handle_config_fs_event config_file event (se_rules s)\<rparr>)
      | RulesRewatched config_file exists watch p \<Rightarrow>
          Returns (s\<lparr>se_rules := try_rewatch_config config_file exists watch p (se_rules s)\<rparr>)
      | CertsChanged T event \<Rightarrow>
          Returns (s\<lparr>se_tls := map_option (with_reloader (handle_server_fs_event T event)) (se_tls s)\<rparr>)
      | CertsRewatched T exists watch p \<Rightarrow>
          Returns (s\<lparr>se_tls := map_option (with_reloader (try_rewatch_server T exists watch p)) (se_tls s)\<rparr>)
      | AcceptFailed \<Rightarrow> Returns s
      | Accepts T peer \<Rightarrow>
          (let tls = map_option (refresh_acceptor T) (se_tls s);
               c = (case tls of None \<Rightarrow> Established PlainCnx | Some tx \<Rightarrow> Handshaking (tx_acceptor tx))
           in Returns (s\<lparr>se_tls := tls, se_cnxs := se_cnxs s @ [(peer, c)]\<rparr>))
      | Handshakes i hello \<Rightarrow>
          (if i < length (se_cnxs s)
           then (case se_cnxs s ! i of
                   (peer, Handshaking acceptor) \<Rightarrow>
                     Returns (s\<lparr>se_cnxs := (se_cnxs s)[i := (peer, finish_handshake X handshake acceptor hello)]\<rparr>)
                 | _ \<Rightarrow> Returns s)
           else Returns s)
      | Requests i req \<Rightarrow>
          (if i < length (se_cnxs s)
           then (case se_cnxs s ! i of
                   (peer, Established cn) \<Rightarrow>
                     (case serve_request E cfg is_upgrade upgrade cn (se_pool s) (rr_restrictions (se_rules s)) peer req of
                        (resp, tasks, pool) \<Rightarrow>
                          run_then resp (\<lambda>_. Returns (s\<lparr>se_pool := pool, se_tasks := se_tasks s @ tasks\<rparr>)))
                 | _ \<Rightarrow> Returns s)
           else Returns s))"

fun serve_run ::
  "('re, 'net, 'sys, 'dech, 'e, 's) server_env \<Rightarrow> 'sys ws_server_config \<Rightarrow> (request \<Rightarrow> bool) \<Rightarrow> (request \<Rightarrow> header_map option)
   \<Rightarrow> ('ech, 't) tls_lib \<Rightarrow> (server_tls \<Rightarrow> 'hello \<Rightarrow> (string option \<times> cert list option) option)
   \<Rightarrow> ('re, 'net, 'f, 'ech, 't, 'w, 'hello) serve_event list \<Rightarrow> ('re, 'net, 'e, 's) serve_state
   \<Rightarrow> ('re, 'net, 'e, 's) serve_state run" where
  "serve_run E cfg iu up X hs [] s = Returns s"
| "serve_run E cfg iu up X hs (ev # evs) s = run_then (serve_step E cfg iu up X hs ev s) (serve_run E cfg iu up X hs evs)"

section \<open>What the reloaders can install\<close>

text \<open>The rules an event can read from the configured file, and the client CAs it can read from theirs.\<close>

fun read_rules :: "path option \<Rightarrow> ('re, 'net, 'f, 'ech, 't, 'w, 'hello) serve_event \<Rightarrow> ('re, 'net) restrictions_rules set" where
  "read_rules (Some p) (RulesChanged config_file event) = {r. config_file p = Ok r}"
| "read_rules (Some p) (RulesRewatched config_file exists watch q) = {r. config_file p = Ok r}"
| "read_rules _ _ = {}"

fun read_cas :: "path option \<Rightarrow> ('re, 'net, 'f, 'ech, 't, 'w, 'hello) serve_event \<Rightarrow> cert list set" where
  "read_cas (Some p) (CertsChanged T event) = {c. load_certificates_from_pem T p = Ok c}"
| "read_cas (Some p) (CertsRewatched T exists watch q) = {c. load_certificates_from_pem T p = Ok c}"
| "read_cas _ _ = {}"

lemma handle_config_fs_event_rules:
  "rr_config_path (handle_config_fs_event config_file event r) = rr_config_path r \<and>
   (rr_restrictions (handle_config_fs_event config_file event r) = rr_restrictions r \<or>
    (\<exists>p. rr_config_path r = Some p \<and> config_file p = Ok (rr_restrictions (handle_config_fs_event config_file event r))))"
  by (auto simp: handle_config_fs_event_def reload_restrictions_config_def split: option.split result.split)

lemma try_rewatch_config_rules:
  "rr_config_path (try_rewatch_config config_file ex watch q r) = rr_config_path r \<and>
   (rr_restrictions (try_rewatch_config config_file ex watch q r) = rr_restrictions r \<or>
    (\<exists>p. rr_config_path r = Some p \<and> config_file p = Ok (rr_restrictions (try_rewatch_config config_file ex watch q r))))"
  using handle_config_fs_event_rules [of config_file _ "r\<lparr>rr_rewatch := remove1 q (rr_rewatch r)\<rparr>"]
  by (auto simp: try_rewatch_config_def Let_def split: result.split)

text \<open>What an update of the server's TLS configuration keeps: the paths and whether client certificates are required.\<close>

definition keeps_mtls :: "cert list set \<Rightarrow> tls_server_config \<times> server_reload \<Rightarrow> tls_server_config \<times> server_reload \<Rightarrow> bool" where
  "keeps_mtls C s s' \<longleftrightarrow>
     sr_client_ca_path (snd s') = sr_client_ca_path (snd s) \<and>
     (ts_client_ca_certificates (fst s') = ts_client_ca_certificates (fst s) \<or>
      (\<exists>old new. ts_client_ca_certificates (fst s) = Some old \<and> ts_client_ca_certificates (fst s') = Some new \<and> new \<in> C))"

lemma keeps_mtls_refl [simp]: "keeps_mtls C s s"
  by (simp add: keeps_mtls_def)

lemma keeps_mtls_trans: "keeps_mtls C s t \<Longrightarrow> keeps_mtls C t u \<Longrightarrow> keeps_mtls C s u"
  unfolding keeps_mtls_def by metis

lemma on_server_file_keeps:
  assumes "\<And>x s. load = Ok x \<Longrightarrow> keeps_mtls C s (store x s)"
  shows "keeps_mtls C s (on_server_file ev target load store s)"
proof (cases load)
  case (Ok x)
  then show ?thesis using assms [OF Ok, of s]
    by (auto simp: on_server_file_def Let_def keeps_mtls_def split: option.split)
qed (auto simp: on_server_file_def Let_def keeps_mtls_def split: option.split)

lemma store_keeps:
  "keeps_mtls C s (store_certificate x s)" "keeps_mtls C s (store_key k s)"
  "c \<in> C \<Longrightarrow> keeps_mtls C s (store_client_ca c s)"
  by (auto simp: keeps_mtls_def store_certificate_def store_key_def store_client_ca_def split: option.split)

definition ca_reads :: "('ech, 't) tls_lib \<Rightarrow> path option \<Rightarrow> cert list set" where
  "ca_reads T p = (case p of None \<Rightarrow> {} | Some p \<Rightarrow> {c. load_certificates_from_pem T p = Ok c})"

lemma handle_server_fs_event_keeps:
  "keeps_mtls (ca_reads T (sr_client_ca_path (snd s))) s (handle_server_fs_event T event s)"
proof (cases event)
  case (Ok ev)
  let ?C = "ca_reads T (sr_client_ca_path (snd s))"
  let ?s1 = "on_server_file ev (sr_cert_path (snd s)) (load_certificates_from_pem T (sr_cert_path (snd s))) store_certificate s"
  let ?s2 = "on_server_file ev (sr_key_path (snd s)) (load_private_key_from_file T (sr_key_path (snd s))) store_key ?s1"
  have "keeps_mtls ?C s ?s2"
    by (rule keeps_mtls_trans) (rule on_server_file_keeps, rule store_keeps)+
  moreover have "keeps_mtls ?C ?s2 (on_server_file ev p (load_certificates_from_pem T p) store_client_ca ?s2)"
    if "sr_client_ca_path (snd s) = Some p" for p
    by (rule on_server_file_keeps, rule store_keeps) (simp add: ca_reads_def that)
  ultimately show ?thesis
    by (auto simp: handle_server_fs_event_def Ok Let_def split: option.split intro: keeps_mtls_trans)
qed (simp add: handle_server_fs_event_def)

lemma try_rewatch_server_keeps:
  "keeps_mtls (ca_reads T (sr_client_ca_path (snd s))) s (try_rewatch_server T ex watch p s)"
proof -
  let ?s = "(fst s, (snd s)\<lparr>sr_rewatch := remove1 p (sr_rewatch (snd s))\<rparr>)"
  have w: "keeps_mtls C s ?s" for C by (simp add: keeps_mtls_def)
  have "keeps_mtls (ca_reads T (sr_client_ca_path (snd s))) ?s (handle_server_fs_event T event ?s)"
    for event :: "(fs_event, 'c) result" using handle_server_fs_event_keeps [of T ?s event] by simp
  from keeps_mtls_trans [OF w this] show ?thesis
    using w by (auto simp: try_rewatch_server_def Let_def split: result.split)
qed

section \<open>The invariant\<close>

definition requires_mtls :: "'sys ws_server_config \<Rightarrow> bool" where
  "requires_mtls cfg \<longleftrightarrow> (\<exists>tls. ws_tls cfg = Some tls \<and> ts_client_ca_certificates tls \<noteq> None)"

definition ca_path :: "'sys ws_server_config \<Rightarrow> path option" where
  "ca_path cfg = Option.bind (ws_tls cfg) ts_client_ca_certs_path"

definition acceptor_ok :: "bool \<Rightarrow> cert list set \<Rightarrow> server_tls \<Rightarrow> bool" where
  "acceptor_ok mtls C a \<longleftrightarrow> (mtls \<longrightarrow> (\<exists>cas \<in> C. st_verifier a = RequireClientAuth cas))"

definition context_ok :: "bool \<Rightarrow> path option \<Rightarrow> cert list set \<Rightarrow> tls_context \<Rightarrow> bool" where
  "context_ok mtls p C tx \<longleftrightarrow>
     acceptor_ok mtls C (tx_acceptor tx) \<and>
     (mtls \<longrightarrow> (\<exists>cas \<in> C. ts_client_ca_certificates (tx_config tx) = Some cas)) \<and>
     (\<forall>sr. tx_reloader tx = Some sr \<longrightarrow> sr_client_ca_path sr = p)"

definition client_trusted ::
  "('ech, 't) tls_lib \<Rightarrow> (cert list \<Rightarrow> cert list \<Rightarrow> bool) \<Rightarrow> cert list set \<Rightarrow> string option \<Rightarrow> bool" where
  "client_trusted X trusted C cn \<longleftrightarrow> (\<exists>cas \<in> C. \<exists>certs. trusted cas certs \<and> cn = cert_cn X certs)"

definition cnx_ok ::
  "('ech, 't) tls_lib \<Rightarrow> (cert list \<Rightarrow> cert list \<Rightarrow> bool) \<Rightarrow> bool \<Rightarrow> cert list set \<Rightarrow> serve_cnx \<Rightarrow> bool" where
  "cnx_ok X trusted mtls C c \<longleftrightarrow>
     (case c of
        Handshaking a \<Rightarrow> acceptor_ok mtls C a
      | Established cn \<Rightarrow> mtls \<longrightarrow> client_trusted X trusted C (cnx_restriction cn)
      | Closed \<Rightarrow> True)"

definition task_granted ::
  "('re, 'net, 'sys, 'dech, 'e, 's) server_env \<Rightarrow> 'sys ws_server_config \<Rightarrow> ('ech, 't) tls_lib
   \<Rightarrow> (cert list \<Rightarrow> cert list \<Rightarrow> bool) \<Rightarrow> ('re, 'net) restrictions_rules set \<Rightarrow> cert list set \<Rightarrow> ('e, 's) spawned \<Rightarrow> bool" where
  "task_granted E cfg X trusted R C task \<longleftrightarrow>
     (\<exists>rules \<in> R. \<exists>req prefix remote r cn.
        extract_path_prefix (rq_path req) = Ok prefix \<and> (cn = None \<or> cn = Some prefix) \<and>
        validate_tunnel (sv_match E) remote prefix (extract_authorization (sv_http E) req) rules = Some r \<and>
        opens_as E cfg r remote (tn_remote (spawned_tunnel task)) (tn_stream (spawned_tunnel task)) \<and>
        (requires_mtls cfg \<longrightarrow> client_trusted X trusted C cn))"

definition serve_inv ::
  "('re, 'net, 'sys, 'dech, 'e, 's) server_env \<Rightarrow> 'sys ws_server_config \<Rightarrow> ('ech, 't) tls_lib
   \<Rightarrow> (cert list \<Rightarrow> cert list \<Rightarrow> bool) \<Rightarrow> ('re, 'net) restrictions_rules set \<Rightarrow> cert list set
   \<Rightarrow> ('re, 'net, 'e, 's) serve_state \<Rightarrow> bool" where
  "serve_inv E cfg X trusted R C s \<longleftrightarrow>
     rr_config_path (se_rules s) = ws_restriction_config cfg \<and> rr_restrictions (se_rules s) \<in> R \<and>
     (se_tls s = None \<longleftrightarrow> ws_tls cfg = None) \<and>
     (\<forall>tx. se_tls s = Some tx \<longrightarrow> context_ok (requires_mtls cfg) (ca_path cfg) C tx) \<and>
     (\<forall>c \<in> set (se_cnxs s). cnx_ok X trusted (requires_mtls cfg) C (snd c)) \<and>
     (\<forall>t \<in> set (se_tasks s). task_granted E cfg X trusted R C t)"

text \<open>The invariant is kept when more rules or client CAs have been read.\<close>

lemma acceptor_ok_mono: "C \<subseteq> C' \<Longrightarrow> acceptor_ok m C a \<Longrightarrow> acceptor_ok m C' a"
  by (auto simp: acceptor_ok_def)

lemma context_ok_mono: "C \<subseteq> C' \<Longrightarrow> context_ok m p C tx \<Longrightarrow> context_ok m p C' tx"
  by (auto simp: context_ok_def intro: acceptor_ok_mono)

lemma client_trusted_mono: "C \<subseteq> C' \<Longrightarrow> client_trusted X tr C cn \<Longrightarrow> client_trusted X tr C' cn"
  by (auto simp: client_trusted_def)

lemma cnx_ok_mono: "C \<subseteq> C' \<Longrightarrow> cnx_ok X tr m C c \<Longrightarrow> cnx_ok X tr m C' c"
  by (auto simp: cnx_ok_def intro: acceptor_ok_mono client_trusted_mono split: serve_cnx.splits)

lemma task_granted_mono:
  "R \<subseteq> R' \<Longrightarrow> C \<subseteq> C' \<Longrightarrow> task_granted E cfg X tr R C t \<Longrightarrow> task_granted E cfg X tr R' C' t"
  unfolding task_granted_def by (meson client_trusted_mono subsetD)

lemma serve_inv_mono:
  assumes "R \<subseteq> R'" "C \<subseteq> C'" "serve_inv E cfg X tr R C s"
  shows "serve_inv E cfg X tr R' C' s"
  using assms unfolding serve_inv_def by (meson context_ok_mono cnx_ok_mono task_granted_mono subsetD)

subsection \<open>Each step keeps it\<close>

lemma refresh_acceptor_ok: "context_ok m p C tx \<Longrightarrow> context_ok m p C (refresh_acceptor T tx)"
  by (auto simp: context_ok_def acceptor_ok_def refresh_acceptor_def Let_def dest: tls_acceptor_Ok split: result.split)

lemma with_reloader_ok:
  assumes "context_ok m p C tx" "\<And>sr. tx_reloader tx = Some sr \<Longrightarrow> keeps_mtls C (tx_config tx, sr) (f (tx_config tx, sr))"
  shows "context_ok m p C (with_reloader f tx)"
proof (cases "tx_reloader tx")
  case (Some sr)
  then show ?thesis using assms(1) assms(2) [OF Some]
    by (auto simp: context_ok_def with_reloader_def keeps_mtls_def split: prod.split)
qed (use assms in \<open>simp add: with_reloader_def\<close>)

lemma keeps_mtls_mono: "C \<subseteq> C' \<Longrightarrow> keeps_mtls C s s' \<Longrightarrow> keeps_mtls C' s s'"
  by (auto simp: keeps_mtls_def)

text \<open>A handshake with an acceptor that requires a client certificate yields one that its CAs vouch for.\<close>

definition handshake_ok ::
  "(server_tls \<Rightarrow> 'hello \<Rightarrow> (string option \<times> cert list option) option) \<Rightarrow> (cert list \<Rightarrow> cert list \<Rightarrow> bool) \<Rightarrow> bool" where
  "handshake_ok hs trusted \<longleftrightarrow>
     (\<forall>a h alpn certs cas. hs a h = Some (alpn, certs) \<longrightarrow> st_verifier a = RequireClientAuth cas \<longrightarrow>
        (\<exists>c. certs = Some c \<and> trusted cas c))"

lemma finish_handshake_ok:
  assumes "handshake_ok hs trusted" "acceptor_ok m C a"
  shows "cnx_ok X trusted m C (finish_handshake X hs a hello)"
proof (cases "hs a hello")
  case (Some r)
  then obtain alpn certs where r: "hs a hello = Some (alpn, certs)" by (cases r) auto
  have "client_trusted X trusted C (Option.bind certs (cert_cn X))" if m: m
  proof -
    obtain cas where "cas \<in> C" "st_verifier a = RequireClientAuth cas"
      using assms(2) m by (auto simp: acceptor_ok_def)
    moreover obtain c where "certs = Some c" "trusted cas c"
      using assms(1) r calculation(2) unfolding handshake_ok_def by blast
    ultimately show ?thesis by (auto simp: client_trusted_def)
  qed
  then show ?thesis by (simp add: cnx_ok_def finish_handshake_def r)
qed (simp add: cnx_ok_def finish_handshake_def)

lemma request_granted:
  assumes "serve_inv E cfg X tr R C s" "i < length (se_cnxs s)" "se_cnxs s ! i = (peer, Established cn)"
    "serve_request E cfg iu up cn pool (rr_restrictions (se_rules s)) peer req = (resp, tasks, pool')" "t \<in> set tasks"
  shows "task_granted E cfg X tr R C t"
proof -
  have "requires_mtls cfg \<longrightarrow> client_trusted X tr C (cnx_restriction cn)" "rr_restrictions (se_rules s) \<in> R"
    using assms(1, 3) nth_mem [OF assms(2)] by (auto simp: serve_inv_def cnx_ok_def)
  with serve_request_opens [OF assms(4, 5)] show ?thesis
    unfolding task_granted_def by blast
qed

lemma read_cas_eq:
  "read_cas p (CertsChanged T event) = ca_reads T p" "read_cas p (CertsRewatched T ex watch q) = ca_reads T p"
  by (auto simp: ca_reads_def split: option.split)

lemma with_reloader_inv:
  assumes "serve_inv E cfg X tr R C s"
    and "\<And>st. keeps_mtls (ca_reads T (sr_client_ca_path (snd st))) st (f st)" "ca_reads T (ca_path cfg) \<subseteq> C"
  shows "serve_inv E cfg X tr R C (s\<lparr>se_tls := map_option (with_reloader f) (se_tls s)\<rparr>)"
proof -
  have "context_ok (requires_mtls cfg) (ca_path cfg) C (with_reloader f tx)" if "se_tls s = Some tx" for tx
  proof (rule with_reloader_ok)
    show ok: "context_ok (requires_mtls cfg) (ca_path cfg) C tx" using assms(1) that by (simp add: serve_inv_def)
    fix sr assume "tx_reloader tx = Some sr"
    then have "sr_client_ca_path sr = ca_path cfg" using ok by (simp add: context_ok_def)
    then show "keeps_mtls C (tx_config tx, sr) (f (tx_config tx, sr))"
      using keeps_mtls_mono [OF assms(3)] assms(2) [of "(tx_config tx, sr)"] by simp
  qed
  then show ?thesis using assms(1) by (auto simp: serve_inv_def)
qed

lemma finish_inv:
  assumes "serve_inv E cfg X tr R C s" "handshake_ok hs tr" "i < length (se_cnxs s)" "se_cnxs s ! i = (peer, Handshaking a)"
  shows "serve_inv E cfg X tr R C (s\<lparr>se_cnxs := (se_cnxs s)[i := (peer, finish_handshake X hs a hello)]\<rparr>)"
proof -
  have "cnx_ok X tr (requires_mtls cfg) C (Handshaking a)"
    using assms(1, 4) nth_mem [OF assms(3)] by (auto simp: serve_inv_def)
  then have "cnx_ok X tr (requires_mtls cfg) C (finish_handshake X hs a hello)"
    using finish_handshake_ok [OF assms(2)] by (simp add: cnx_ok_def)
  then show ?thesis using assms(1) set_update_subset_insert [of "se_cnxs s" i] by (fastforce simp: serve_inv_def)
qed

lemma requests_inv:
  assumes "serve_inv E cfg X tr R C s" "i < length (se_cnxs s)" "se_cnxs s ! i = (peer, Established cn)"
    "serve_request E cfg iu up cn pool (rr_restrictions (se_rules s)) peer req = (resp, tasks, pool')"
  shows "serve_inv E cfg X tr R C (s\<lparr>se_pool := pool', se_tasks := se_tasks s @ tasks\<rparr>)"
proof -
  have "\<forall>t \<in> set tasks. task_granted E cfg X tr R C t" using request_granted [OF assms] by blast
  then show ?thesis using assms(1) by (auto simp: serve_inv_def)
qed

lemma serve_step_inv:
  assumes "serve_inv E cfg X tr R C s" "handshake_ok hs tr" "serve_step E cfg iu up X hs ev s = Returns s'"
  shows "serve_inv E cfg X tr (R \<union> read_rules (ws_restriction_config cfg) ev) (C \<union> read_cas (ca_path cfg) ev) s'"
proof -
  let ?R = "R \<union> read_rules (ws_restriction_config cfg) ev" and ?C = "C \<union> read_cas (ca_path cfg) ev"
  have inv: "serve_inv E cfg X tr ?R ?C s" by (rule serve_inv_mono [OF _ _ assms(1)]) auto
  note path = assms(1) [unfolded serve_inv_def, THEN conjunct1]
  show ?thesis
  proof (cases ev)
    case (RulesChanged f e)
    then show ?thesis
      using inv assms(3) handle_config_fs_event_rules [of f e "se_rules s"] path
      by (auto simp: serve_step_def serve_inv_def)
  next
    case (RulesRewatched f ex w p)
    then show ?thesis
      using inv assms(3) try_rewatch_config_rules [of f ex w p "se_rules s"] path
      by (auto simp: serve_step_def serve_inv_def)
  next
    case (CertsChanged T e)
    then show ?thesis
      using with_reloader_inv [OF inv, of T "handle_server_fs_event T e", OF handle_server_fs_event_keeps] assms(3)
      by (auto simp: serve_step_def read_cas_eq)
  next
    case (CertsRewatched T ex w p)
    then show ?thesis
      using with_reloader_inv [OF inv, of T "try_rewatch_server T ex w p", OF try_rewatch_server_keeps] assms(3)
      by (auto simp: serve_step_def read_cas_eq)
  next
    case (Accepts T peer)
    then show ?thesis
      using inv assms(3) refresh_acceptor_ok [of "requires_mtls cfg" "ca_path cfg" ?C _ T]
      by (auto simp: serve_step_def serve_inv_def cnx_ok_def Let_def context_ok_def requires_mtls_def split: option.split)
  next
    case (Handshakes i hello)
    then show ?thesis
      using inv assms(3) finish_inv [OF inv assms(2)]
      by (auto simp: serve_step_def split: if_split_asm prod.split_asm serve_cnx.split_asm)
  next
    case (Requests i req)
    then show ?thesis
      using inv assms(3) requests_inv [OF inv]
      by (auto simp: serve_step_def result_simps split: if_split_asm prod.split_asm serve_cnx.split_asm)
  qed (use inv assms(3) in \<open>auto simp: serve_step_def\<close>)
qed

lemma serve_run_inv:
  assumes "handshake_ok hs tr"
  shows "serve_inv E cfg X tr R C s \<Longrightarrow> serve_run E cfg iu up X hs evs s = Returns s' \<Longrightarrow>
     serve_inv E cfg X tr (R \<union> \<Union> (read_rules (ws_restriction_config cfg) ` set evs))
       (C \<union> \<Union> (read_cas (ca_path cfg) ` set evs)) s'"
proof (induction evs arbitrary: R C s)
  case (Cons ev evs)
  obtain s1 where "serve_step E cfg iu up X hs ev s = Returns s1" "serve_run E cfg iu up X hs evs s1 = Returns s'"
    using Cons.prems(2) by (auto simp: result_simps)
  with Cons.IH [OF serve_step_inv [OF Cons.prems(1) assms]] show ?case by (simp add: Un_assoc)
qed simp

definition start_cas :: "'sys ws_server_config \<Rightarrow> cert list set" where
  "start_cas cfg = {cas. \<exists>tls. ws_tls cfg = Some tls \<and> ts_client_ca_certificates tls = Some cas}"

lemma new_for_server_path: "new_for_server W (Some tls) = Ok (Some sr) \<Longrightarrow> sr_client_ca_path sr = ts_client_ca_certs_path tls"
  by (auto simp: new_for_server_def result_simps split: option.split_asm)

lemma tls_context_new_ok:
  assumes "ws_tls cfg = Some tls" "tls_context_new T W tls = Ok tx"
  shows "context_ok (requires_mtls cfg) (ca_path cfg) (start_cas cfg) tx"
proof -
  obtain a r where "tls_acceptor T tls (Some server_alpn) = Ok a" "new_for_server W (Some tls) = Ok r"
    and tx: "tx = \<lparr>tx_acceptor = a, tx_reloader = r, tx_config = tls\<rparr>"
    using assms(2) by (auto simp: tls_context_new_def split: result.split_asm)
  then show ?thesis
    using assms(1) tls_acceptor_Ok [of T tls "Some server_alpn" a] new_for_server_path [of W tls]
    by (auto simp: context_ok_def acceptor_ok_def requires_mtls_def ca_path_def start_cas_def)
qed

lemma serve_start_inv:
  assumes "serve_start T W tcp_bind cfg rules = Ok s"
  shows "serve_inv E cfg X tr {rules} (start_cas cfg) s"
proof -
  have r: "rr_config_path (se_rules s) = ws_restriction_config cfg \<and> rr_restrictions (se_rules s) = rules"
    using assms by (cases "ws_restriction_config cfg")
      (auto simp: serve_start_def result_simps map_err_Ok rules_reloader_new_def Let_def split: option.split_asm)
  have t: "(se_tls s = None \<longleftrightarrow> ws_tls cfg = None) \<and>
      (\<forall>tx. se_tls s = Some tx \<longrightarrow> context_ok (requires_mtls cfg) (ca_path cfg) (start_cas cfg) tx)"
    using assms tls_context_new_ok by (auto simp: serve_start_def result_simps map_err_Ok split: option.split_asm)
  have "se_cnxs s = [] \<and> se_tasks s = []"
    using assms by (auto simp: serve_start_def result_simps)
  with r t show ?thesis by (simp add: serve_inv_def)
qed

section \<open>Properties of a running server\<close>

text \<open>
  C1. In every run of the server, however requests, connections and reloads interleave, each tunnel it
  ever forwards was granted, for the path and authorization of a request, by rules that were either
  given at the start or read without error from the configured file.  If client certificates are
  required at the start they are required for ever: the client presented a certificate that the
  client CAs given at the start, or read later from their file, vouch for, and its common name, if it
  has one, is the path prefix.
\<close>

theorem serve_run_granted:
  assumes "serve_start T W tcp_bind cfg rules = Ok s0" "handshake_ok hs trusted"
    and "serve_run E cfg iu up X hs evs s0 = Returns s" "task \<in> set (se_tasks s)"
  shows "\<exists>loaded req prefix remote r cn.
     (loaded = rules \<or> (\<exists>ev \<in> set evs. loaded \<in> read_rules (ws_restriction_config cfg) ev)) \<and>
     extract_path_prefix (rq_path req) = Ok prefix \<and>
     validate_tunnel (sv_match E) remote prefix (extract_authorization (sv_http E) req) loaded = Some r \<and>
     opens_as E cfg r remote (tn_remote (spawned_tunnel task)) (tn_stream (spawned_tunnel task)) \<and>
     (cn = None \<or> cn = Some prefix) \<and>
     (requires_mtls cfg \<longrightarrow>
        (\<exists>cas certs. (cas \<in> start_cas cfg \<or> (\<exists>ev \<in> set evs. cas \<in> read_cas (ca_path cfg) ev)) \<and>
           trusted cas certs \<and> cn = cert_cn X certs))"
proof -
  have "serve_inv E cfg X trusted ({rules} \<union> \<Union> (read_rules (ws_restriction_config cfg) ` set evs))
      (start_cas cfg \<union> \<Union> (read_cas (ca_path cfg) ` set evs)) s"
    by (rule serve_run_inv [OF assms(2) serve_start_inv [OF assms(1)] assms(3)])
  then have "task_granted E cfg X trusted ({rules} \<union> \<Union> (read_rules (ws_restriction_config cfg) ` set evs))
      (start_cas cfg \<union> \<Union> (read_cas (ca_path cfg) ` set evs)) task"
    using assms(4) by (simp add: serve_inv_def)
  then show ?thesis
    unfolding task_granted_def client_trusted_def by (elim bexE exE conjE) blast
qed

lemma serve_step_total:
  assumes "http_lib_ok (sv_http E)" "listen_ok E"
  shows "\<exists>s'. serve_step E cfg iu up X hs ev s = Returns s'"
proof (cases ev)
  case (Requests i req)
  show ?thesis
  proof (cases "i < length (se_cnxs s)")
    case True
    obtain peer c where c: "se_cnxs s ! i = (peer, c)" by fastforce
    show ?thesis
    proof (cases c)
      case (Established cn)
      obtain resp tasks pool where r: "serve_request E cfg iu up cn (se_pool s) (rr_restrictions (se_rules s)) peer req
          = (resp, tasks, pool)" by (rule prod_cases3)
      then have "resp \<noteq> Panics m" for m using serve_request_no_panic [OF assms] by (metis fst_conv)
      then show ?thesis using r True c Established Requests by (cases resp) (auto simp: serve_step_def)
    qed (use True c Requests in \<open>simp_all add: serve_step_def\<close>)
  qed (simp add: serve_step_def Requests)
next
  case (Handshakes i hello)
  then show ?thesis by (simp add: serve_step_def split: prod.split serve_cnx.split)
qed (simp_all add: serve_step_def Let_def)


text \<open>
  The rules follow their file through a removal: after the file was removed and has come back, the
  thread that waits for it installs the new rules if they can be parsed and keeps the old ones if not.
\<close>

lemma rules_follow_removed_file:
  assumes "rr_config_path r = Some p" "q \<in> set (ev_paths ev)" "path_ends_with q p" "ev_kind ev = Remove"
  shows "\<exists>q'. path_ends_with q' p \<and>
     rr_restrictions (try_rewatch_config config_file True (Ok ()) q' (handle_config_fs_event old_file (Ok ev) r))
       = (case config_file p of Ok rules \<Rightarrow> rules | Err _ \<Rightarrow> rr_restrictions r)"
proof -
  obtain q' where q': "find (\<lambda>x. path_ends_with x p) (ev_paths ev) = Some q'"
    using assms(2, 3) by (cases "find (\<lambda>x. path_ends_with x p) (ev_paths ev)") (auto simp: find_None_iff)
  then have e: "path_ends_with q' p" by (auto simp: find_Some_iff)
  show ?thesis
    by (rule exI [of _ q'])
      (simp add: e handle_config_fs_event_def try_rewatch_config_def assms q' reload_restrictions_config_def Let_def split: result.split)
qed

lemma refresh_acceptor_reloads:
  assumes "tx_reloader tx = Some sr" "sr_reload_certificate sr"
  shows "refresh_acceptor T tx =
    tx\<lparr>tx_reloader := Some (sr\<lparr>sr_reload_certificate := False\<rparr>),
       tx_acceptor := (case tls_acceptor T (tx_config tx) (Some server_alpn) of Ok a \<Rightarrow> a | Err _ \<Rightarrow> tx_acceptor tx)\<rparr>"
  using assms by (simp add: refresh_acceptor_def should_reload_certificate_def Let_def split: result.split)

definition touches :: "path \<Rightarrow> fs_event \<Rightarrow> bool" where
  "touches p ev \<longleftrightarrow> (\<exists>q \<in> set (ev_paths ev). path_ends_with q p)"

lemma on_server_file_untouched: "\<not> touches p ev \<Longrightarrow> on_server_file ev p load store s = s"
proof -
  assume "\<not> touches p ev"
  then have "find (\<lambda>x. path_ends_with x p) (ev_paths ev) = None" by (auto simp: touches_def find_None_iff)
  then show ?thesis by (simp add: on_server_file_def Let_def)
qed

lemma on_server_file_loads:
  assumes "touches p ev" "ev_kind ev \<in> {Create, Modify}"
  shows "on_server_file ev p (Ok x) store s = store x s"
proof -
  have "find (\<lambda>x. path_ends_with x p) (ev_paths ev) \<noteq> None" using assms(1) by (auto simp: touches_def find_None_iff)
  then show ?thesis using assms(2) by (auto simp: on_server_file_def Let_def)
qed

text \<open>
  C31. A certificate and its key can be rotated under a running server one file after the other: between
  the two events the pair does not match and connections keep the old acceptor, with the old
  certificate and key; after the second event the next connection gets the new pair.
\<close>

theorem certificate_rotation:
  assumes r: "tx_reloader tx = Some sr" "sr_client_ca_path sr = None" "ts_client_ca_certificates (tx_config tx) = None"
    and ev: "event1 = Ok ev1" "event2 = Ok ev2"
    and ev1: "ev_kind ev1 \<in> {Create, Modify}" "touches (sr_cert_path sr) ev1" "\<not> touches (sr_key_path sr) ev1"
    and ev2: "ev_kind ev2 \<in> {Create, Modify}" "touches (sr_key_path sr) ev2" "\<not> touches (sr_cert_path sr) ev2"
    and files: "load_certificates_from_pem T (sr_cert_path sr) = Ok certs" "load_private_key_from_file T' (sr_key_path sr) = Ok key"
    and pair: "\<not> tl_auth_ok T certs (ts_key (tx_config tx))" "tl_auth_ok T' certs key"
    and tx1: "tx1 = refresh_acceptor T (with_reloader (handle_server_fs_event T event1) tx)"
    and tx2: "tx2 = refresh_acceptor T' (with_reloader (handle_server_fs_event T' event2) tx1)"
  shows "tx_acceptor tx1 = tx_acceptor tx \<and> st_certificate (tx_acceptor tx2) = certs \<and> st_key (tx_acceptor tx2) = key"
proof -
  have k: "ev_kind ev1 \<noteq> Access" "ev_kind ev2 \<noteq> Access" using ev1 ev2 by auto
  have h1: "handle_server_fs_event T event1 (tx_config tx, sr)
      = ((tx_config tx)\<lparr>ts_certificate := certs\<rparr>, sr\<lparr>sr_reload_certificate := True\<rparr>)"
    using ev1 k r by (simp add: handle_server_fs_event_def ev files on_server_file_loads on_server_file_untouched store_certificate_def)
  have w1: "with_reloader (handle_server_fs_event T event1) tx
      = tx\<lparr>tx_config := (tx_config tx)\<lparr>ts_certificate := certs\<rparr>, tx_reloader := Some (sr\<lparr>sr_reload_certificate := True\<rparr>)\<rparr>"
    using h1 r by (simp add: with_reloader_def)
  have t1: "tx1 = tx\<lparr>tx_config := (tx_config tx)\<lparr>ts_certificate := certs\<rparr>, tx_reloader := Some (sr\<lparr>sr_reload_certificate := False\<rparr>)\<rparr>"
    unfolding tx1 w1 using pair(1) r
    by (subst refresh_acceptor_reloads [where sr = "sr\<lparr>sr_reload_certificate := True\<rparr>"]) (simp_all add: tls_acceptor_def)
  have "handle_server_fs_event T' event2 ((tx_config tx)\<lparr>ts_certificate := certs\<rparr>, sr\<lparr>sr_reload_certificate := False\<rparr>)
      = ((tx_config tx)\<lparr>ts_certificate := certs, ts_key := key\<rparr>, sr\<lparr>sr_reload_certificate := True\<rparr>)"
    using ev2 k r by (simp add: handle_server_fs_event_def ev files on_server_file_loads on_server_file_untouched store_key_def)
  then have w2: "with_reloader (handle_server_fs_event T' event2) tx1
      = tx1\<lparr>tx_config := (tx_config tx)\<lparr>ts_certificate := certs, ts_key := key\<rparr>,
            tx_reloader := Some (sr\<lparr>sr_reload_certificate := True\<rparr>)\<rparr>"
    using t1 by (simp add: with_reloader_def)
  have "tx_acceptor tx2 = \<lparr>st_verifier = NoClientAuth, st_certificate = certs, st_key = key, st_alpn = server_alpn\<rparr>"
    unfolding tx2 w2 using pair(2) r t1
    by (subst refresh_acceptor_reloads [where sr = "sr\<lparr>sr_reload_certificate := True\<rparr>"]) (simp_all add: tls_acceptor_def)
  then show ?thesis using t1 by simp
qed

section \<open>A concrete run\<close>

text \<open>A server that requires client certificates: one client connects, and asks for a granted destination.\<close>

definition demo_tls_config :: tls_server_config where
  "demo_tls_config =
     \<lparr>ts_certificate = [[2]], ts_key = [3], ts_client_ca_certificates = Some [[1]], ts_certificate_path = Some ''cert.pem'',
      ts_key_path = Some ''key.pem'', ts_client_ca_certs_path = Some ''ca.pem''\<rparr>"

definition demo_trusted :: "cert list \<Rightarrow> cert list \<Rightarrow> bool" where
  "demo_trusted cas certs \<longleftrightarrow> cas = [[1]] \<and> certs = [[7], [1]]"

definition demo_handshake :: "server_tls \<Rightarrow> unit \<Rightarrow> (string option \<times> cert list option) option" where
  "demo_handshake a h =
     (case st_verifier a of
        NoClientAuth \<Rightarrow> Some (Some ''h2'', None)
      | RequireClientAuth cas \<Rightarrow> if cas = [[1]] then Some (Some ''h2'', Some [[7], [1]]) else None)"

lemma demo_handshake_ok: "handshake_ok demo_handshake demo_trusted"
  by (auto simp: handshake_ok_def demo_handshake_def demo_trusted_def split: client_verifier.split_asm if_split_asm)

abbreviation demo_mtls :: "unit ws_server_config" where
  "demo_mtls \<equiv> demo_server_config\<lparr>ws_tls := Some demo_tls_config\<rparr>"

definition demo_acceptor :: server_tls where
  "demo_acceptor = \<lparr>st_verifier = RequireClientAuth [[1]], st_certificate = [[2]], st_key = [3], st_alpn = server_alpn\<rparr>"

definition demo_tls_context :: tls_context where
  "demo_tls_context =
     \<lparr>tx_acceptor = demo_acceptor,
      tx_reloader = Some \<lparr>sr_reload_certificate = False, sr_cert_path = ''cert.pem'', sr_key_path = ''key.pem'',
                         sr_client_ca_path = Some ''ca.pem'', sr_rewatch = []\<rparr>,
      tx_config = demo_tls_config\<rparr>"

definition demo_started :: "(lit_re, ip_addr \<times> nat, string, nat) serve_state" where
  "demo_started =
     \<lparr>se_rules = \<lparr>rr_config_path = None, rr_restrictions = demo_rules, rr_rewatch = []\<rparr>,
      se_tls = Some demo_tls_context, se_pool = pool_new, se_cnxs = [], se_tasks = []\<rparr>"

lemma demo_start:
  "serve_start demo_tls demo_watch (\<lambda>_. Ok ()) demo_mtls demo_rules
     = (Ok demo_started :: ((lit_re, ip_addr \<times> nat, string, nat) serve_state, (string, string) serve_error) result)"
  by (simp add: serve_start_def tls_context_new_def tls_acceptor_def new_for_server_def rules_reloader_new_def demo_started_def
      demo_tls_context_def demo_acceptor_def demo_tls_def demo_tls_config_def demo_watch_def demo_server_config_def)

definition demo_events :: "(lit_re, ip_addr \<times> nat, string, unit, string, string, unit) serve_event list" where
  "demo_events = [Accepts demo_tls demo_peer, Handshakes 0 (), Requests 0 (demo_request ''/v1/events'')]"

definition demo_served :: "(lit_re, ip_addr \<times> nat, string, nat) serve_state" where
  "demo_served =
     demo_started\<lparr>se_cnxs := [(demo_peer, Established (TlsCnx (Some ''h2'') (Some ''v1'')))],
       se_tasks := [ForwardHttp2 demo_tunnel_of]\<rparr>"

lemma demo_run:
  "serve_run (demo_server demo_jwt) demo_mtls (\<lambda>_. False) (\<lambda>_. None) demo_tls demo_handshake demo_events demo_started
     = Returns demo_served"
proof -
  have "refresh_acceptor demo_tls demo_tls_context = demo_tls_context"
    by (simp add: refresh_acceptor_def should_reload_certificate_def demo_tls_context_def)
  moreover have "finish_handshake demo_tls demo_handshake demo_acceptor () = Established (TlsCnx (Some ''h2'') (Some ''v1''))"
    by (simp add: finish_handshake_def demo_handshake_def demo_acceptor_def cert_cn_def demo_tls_def cn_from_certificate_def
        map_filter_simps)
  moreover have "tx_acceptor demo_tls_context = demo_acceptor" by (simp add: demo_tls_context_def)
  ultimately show ?thesis
    using demo_serve_tls [of "Some demo_tls_config"]
    by (simp add: demo_events_def demo_started_def demo_served_def serve_step_def)
qed

theorem serve_run_granted_witness:
  "\<exists>loaded req prefix remote r cn.
     (loaded = demo_rules \<or> (\<exists>ev \<in> set demo_events. loaded \<in> read_rules (ws_restriction_config demo_mtls) ev)) \<and>
     extract_path_prefix (rq_path req) = Ok prefix \<and>
     validate_tunnel demo_lib remote prefix (extract_authorization demo_http req) loaded = Some r \<and>
     opens_as (demo_server demo_jwt) demo_mtls r remote (tn_remote demo_tunnel_of) (tn_stream demo_tunnel_of) \<and>
     (cn = None \<or> cn = Some prefix) \<and>
     (requires_mtls demo_mtls \<longrightarrow>
        (\<exists>cas certs. (cas \<in> start_cas demo_mtls \<or> (\<exists>ev \<in> set demo_events. cas \<in> read_cas (ca_path demo_mtls) ev)) \<and>
           demo_trusted cas certs \<and> cn = cert_cn demo_tls certs))"
  using serve_run_granted [OF demo_start demo_handshake_ok demo_run, of "ForwardHttp2 demo_tunnel_of"]
  by (simp add: demo_served_def)


definition demo_removed :: fs_event where
  "demo_removed = \<lparr>ev_kind = Remove, ev_paths = [''/etc/wstunnel/rules.yaml'']\<rparr>"

definition demo_reloader :: "(lit_re, ip_addr \<times> nat) rules_reloader" where
  "demo_reloader = \<lparr>rr_config_path = Some ''rules.yaml'', rr_restrictions = [], rr_rewatch = []\<rparr>"

lemma rules_follow_removed_file_instance:
  "\<exists>q'. path_ends_with q' ''rules.yaml'' \<and>
     rr_restrictions (try_rewatch_config (\<lambda>_. Ok demo_rules :: (_, string) result) True (Ok () :: (unit, string) result) q'
       (handle_config_fs_event (\<lambda>_. Err ''gone'') (Ok demo_removed :: (fs_event, string) result) demo_reloader))
     = (case (Ok demo_rules :: (_, string) result) of Ok rules \<Rightarrow> rules | Err _ \<Rightarrow> rr_restrictions demo_reloader)"
proof (rule rules_follow_removed_file)
  show "path_ends_with ''/etc/wstunnel/rules.yaml'' ''rules.yaml''" by code_simp
qed (simp_all add: demo_reloader_def demo_removed_def)

definition demo_rotating :: tls_context where
  "demo_rotating =
     \<lparr>tx_acceptor = \<lparr>st_verifier = NoClientAuth, st_certificate = [[1]], st_key = [1], st_alpn = server_alpn\<rparr>,
      tx_reloader = Some \<lparr>sr_reload_certificate = False, sr_cert_path = ''cert.pem'', sr_key_path = ''key.pem'',
                         sr_client_ca_path = None, sr_rewatch = []\<rparr>,
      tx_config = demo_tls_config\<lparr>ts_certificate := [[1]], ts_key := [1], ts_client_ca_certificates := None\<rparr>\<rparr>"

lemma demo_touches:
  "touches ''cert.pem'' (demo_changed ''cert.pem'')" "\<not> touches ''key.pem'' (demo_changed ''cert.pem'')"
  "touches ''key.pem'' (demo_changed ''key.pem'')" "\<not> touches ''cert.pem'' (demo_changed ''key.pem'')"
  by code_simp+

theorem certificate_rotation_witness:
  "\<exists>tx1 tx2. tx1 = refresh_acceptor demo_tls (with_reloader (handle_server_fs_event demo_tls
        (Ok (demo_changed ''cert.pem'') :: (fs_event, string) result)) demo_rotating) \<and>
     tx2 = refresh_acceptor demo_tls (with_reloader (handle_server_fs_event demo_tls
        (Ok (demo_changed ''key.pem'') :: (fs_event, string) result)) tx1) \<and>
     tx_acceptor tx1 = tx_acceptor demo_rotating \<and> st_certificate (tx_acceptor tx2) = [[2], [4]] \<and> st_key (tx_acceptor tx2) = [3]"
proof (intro exI conjI)
  let ?sr = "\<lparr>sr_reload_certificate = False, sr_cert_path = ''cert.pem'', sr_key_path = ''key.pem'',
              sr_client_ca_path = None, sr_rewatch = []\<rparr>"
  let ?tx1 = "refresh_acceptor demo_tls (with_reloader (handle_server_fs_event demo_tls
        (Ok (demo_changed ''cert.pem'') :: (fs_event, string) result)) demo_rotating)"
  let ?tx2 = "refresh_acceptor demo_tls (with_reloader (handle_server_fs_event demo_tls
        (Ok (demo_changed ''key.pem'') :: (fs_event, string) result)) ?tx1)"
  have "tx_acceptor ?tx1 = tx_acceptor demo_rotating \<and> st_certificate (tx_acceptor ?tx2) = [[2], [4]] \<and> st_key (tx_acceptor ?tx2) = [3]"
  proof (rule certificate_rotation [where sr = ?sr and T = demo_tls and T' = demo_tls, OF _ _ _ refl refl _ _ _ _ _ _ _ _ _ _ refl refl])
    show "load_certificates_from_pem demo_tls (sr_cert_path ?sr) = Ok [[2], [4]]"
      by (simp add: load_certificates_from_pem_def demo_tls_def map_filter_simps)
  qed (simp_all add: demo_rotating_def demo_tls_config_def demo_touches, simp_all add: demo_changed_def demo_tls_def load_private_key_from_file_def)
  then show "tx_acceptor ?tx1 = tx_acceptor demo_rotating" "st_certificate (tx_acceptor ?tx2) = [[2], [4]]"
    "st_key (tx_acceptor ?tx2) = [3]" by blast+
qed (rule refl)+

end
