(* ===== verification/Transport_Io.thy ===== *)
theory Transport_Io
  imports Prelude
begin

text \<open>
  The transport of a tunnel's bytes: the halves of the websocket and of the HTTP/2 transport
  (\<open>tunnel/transport/websocket.rs\<close>, \<open>http2.rs\<close>) and the two loops of \<open>tunnel/transport/io.rs\<close> that copy
  between them and the local stream.  The traits \<open>TunnelWrite\<close> and \<open>TunnelRead\<close> are locales; the loops
  are proved in them once and hold for \<open>TunnelWriter\<close> and \<open>TunnelReader\<close>, which dispatch to the two
  transports.  The outcome of a system call is an argument of the operation that makes it.
\<close>

section \<open>The writing half of a websocket\<close>

datatype opcode = Continuation | Text | Binary | CloseOp | PingOp | PongOp

record frame =
  fr_opcode :: opcode
  fr_payload :: bytes

datatype io_kind = ConnectionAborted | BrokenPipe | NotConnected

text \<open>
  \<open>ww_sent\<close> are the frames written to the connection, \<open>ww_pending\<close> the channel from the reading half;
  \<open>ww_in_flight\<close> is an \<open>AtomicUsize\<close>, whose arithmetic wraps.
\<close>

record ws_write =
  ww_sent :: "frame list"
  ww_buf :: bytes
  ww_capacity :: nat
  ww_pending :: "frame list"
  ww_in_flight :: u64

definition MAX_PACKET_LENGTH :: nat where
  "MAX_PACKET_LENGTH = 64 * 1024"

definition ws_write_new :: ws_write where
  "ws_write_new = \<lparr>ww_sent = [], ww_buf = [], ww_capacity = MAX_PACKET_LENGTH, ww_pending = [], ww_in_flight = 0\<rparr>"

definition control_frame :: "opcode \<Rightarrow> bytes \<Rightarrow> frame" where
  "control_frame op payload = \<lparr>fr_opcode = op, fr_payload = payload\<rparr>"

text \<open>\<open>Frame::close(1000, &[])\<close>: the code in network order, without a reason.\<close>

definition close_frame :: frame where
  "close_frame = control_frame CloseOp [3, 232]"

definition send_frame :: "frame \<Rightarrow> ws_write \<Rightarrow> ws_write" where
  "send_frame f w = w\<lparr>ww_sent := ww_sent w @ [f]\<rparr>"

text \<open>
  The outcomes of one operation: of writing a frame, of flushing, and of each frame that answers a
  pending operation; a missing outcome is a success.
\<close>

record outcomes =
  oc_write :: bool
  oc_flush :: bool
  oc_answers :: "bool list"

definition MB_32 :: nat where
  "MB_32 = 32 * 1024 * 1024"

definition grow :: "nat \<Rightarrow> nat \<Rightarrow> nat" where
  "grow capacity read_len =
     (if capacity = read_len \<and> capacity < MB_32 then max capacity (capacity + capacity div 4) else capacity)"

definition ws_write_op :: "outcomes \<Rightarrow> ws_write \<Rightarrow> ws_write \<times> (unit, io_kind) result" where
  "ws_write_op oc w =
     (if \<not> oc_write oc then (w, Err ConnectionAborted)
      else (let w1 = send_frame (control_frame Binary (ww_buf w)) w in
        if \<not> oc_flush oc then (w1, Err ConnectionAborted)
        else (w1\<lparr>ww_buf := [], ww_capacity := grow (ww_capacity w) (length (ww_buf w))\<rparr>, Ok ())))"

definition ws_ping :: "outcomes \<Rightarrow> ws_write \<Rightarrow> ws_write \<times> (unit, io_kind) result" where
  "ws_ping oc w =
     (let w1 = w\<lparr>ww_in_flight := ww_in_flight w + 1\<rparr> in
      if 3 \<le> ww_in_flight w then (w1, Err ConnectionAborted)
      else if \<not> oc_write oc then (w1, Err BrokenPipe)
      else (send_frame (control_frame PingOp []) w1, Ok ()))"

definition ws_close :: "outcomes \<Rightarrow> ws_write \<Rightarrow> ws_write \<times> (unit, io_kind) result" where
  "ws_close oc w = (if oc_write oc then (send_frame close_frame w, Ok ()) else (w, Err BrokenPipe))"

fun answer_pending :: "bool list \<Rightarrow> frame list \<Rightarrow> ws_write \<Rightarrow> (ws_write \<times> (unit, io_kind) result) run" where
  "answer_pending oks [] w = Returns (w\<lparr>ww_pending := []\<rparr>, Ok ())"
| "answer_pending oks (f # fs) w =
     (case fr_opcode f of
        CloseOp \<Rightarrow>
          if oks \<noteq> [] \<and> \<not> hd oks then Returns (w\<lparr>ww_pending := fs\<rparr>, Err ConnectionAborted)
          else answer_pending (tl oks) fs (send_frame f w)
      | PingOp \<Rightarrow>
          if oks \<noteq> [] \<and> \<not> hd oks then Returns (w\<lparr>ww_pending := fs\<rparr>, Err ConnectionAborted)
          else answer_pending (tl oks) fs (send_frame (control_frame PongOp (fr_payload f)) w)
      | PongOp \<Rightarrow> answer_pending oks fs (w\<lparr>ww_in_flight := ww_in_flight w - 1\<rparr>)
      | _ \<Rightarrow> Panics ''internal error: entered unreachable code'')"

definition ws_handle_pending :: "outcomes \<Rightarrow> ws_write \<Rightarrow> (ws_write \<times> (unit, io_kind) result) run" where
  "ws_handle_pending oc w = answer_pending (oc_answers oc) (ww_pending w) w"

section \<open>The reading half of a websocket\<close>

text \<open>
  One round of the loop of \<open>copy\<close> reads a frame.  Its results: bytes for the local stream, with which
  the call returns; a control frame for the writing half; a frame to skip; or an error, with or without
  a frame for the writing half.  \<open>None\<close> is a failed read and \<open>queue_open\<close> tells whether the writing half
  still exists.
\<close>

datatype read_round =
    Deliver bytes
  | Control frame
  | Skip
  | Fail io_kind
  | ControlFail frame io_kind

definition ws_read_frame :: "bool \<Rightarrow> frame option \<Rightarrow> read_round" where
  "ws_read_frame queue_open r =
     (case r of
        None \<Rightarrow> Fail ConnectionAborted
      | Some msg \<Rightarrow>
         (case fr_opcode msg of
            CloseOp \<Rightarrow> if queue_open then ControlFail close_frame NotConnected else Fail NotConnected
          | PingOp \<Rightarrow> if queue_open then Control (control_frame PingOp (fr_payload msg)) else Fail ConnectionAborted
          | PongOp \<Rightarrow> if queue_open then Control (control_frame PongOp []) else Fail ConnectionAborted
          | _ \<Rightarrow> Deliver (fr_payload msg)))"

section \<open>The halves of HTTP/2\<close>

record h2_write =
  hw_sent :: "bytes list"
  hw_buf :: bytes
  hw_capacity :: nat

definition h2_write_new :: h2_write where
  "h2_write_new = \<lparr>hw_sent = [], hw_buf = [], hw_capacity = MAX_PACKET_LENGTH * 20\<rparr>"

text \<open>\<open>split\<close> hands the bytes and their share of the capacity to the channel, whether or not it takes them.\<close>

definition h2_write_op :: "outcomes \<Rightarrow> h2_write \<Rightarrow> h2_write \<times> (unit, io_kind) result" where
  "h2_write_op oc w =
     (let rest = hw_capacity w - length (hw_buf w);
          w1 = w\<lparr>hw_buf := [], hw_capacity := (if rest < MAX_PACKET_LENGTH then MAX_PACKET_LENGTH else rest)\<rparr> in
      if oc_write oc then (w1\<lparr>hw_sent := hw_sent w @ [hw_buf w]\<rparr>, Ok ()) else (w1, Err ConnectionAborted))"

datatype body_frame = Data bytes | Trailers

text \<open>One round of \<open>copy\<close>; \<open>BodyEnd\<close> is the end of the body and \<open>BodyError\<close> a failed read.\<close>

datatype body_input = BodyFrame body_frame | BodyError | BodyEnd

fun h2_read_frame :: "body_input \<Rightarrow> read_round" where
  "h2_read_frame (BodyFrame (Data d)) = Deliver d"
| "h2_read_frame (BodyFrame Trailers) = Skip"
| "h2_read_frame BodyError = Fail ConnectionAborted"
| "h2_read_frame BodyEnd = Fail BrokenPipe"

section \<open>The dispatch of the transports\<close>

datatype tunnel_writer = WebsocketWriter ws_write | Http2Writer h2_write

fun tw_buf :: "tunnel_writer \<Rightarrow> bytes" where
  "tw_buf (WebsocketWriter w) = ww_buf w"
| "tw_buf (Http2Writer w) = hw_buf w"

fun tw_push :: "bytes \<Rightarrow> tunnel_writer \<Rightarrow> tunnel_writer" where
  "tw_push bs (WebsocketWriter w) = WebsocketWriter (w\<lparr>ww_buf := ww_buf w @ bs\<rparr>)"
| "tw_push bs (Http2Writer w) = Http2Writer (w\<lparr>hw_buf := hw_buf w @ bs\<rparr>)"

fun tw_write :: "outcomes \<Rightarrow> tunnel_writer \<Rightarrow> tunnel_writer \<times> (unit, io_kind) result" where
  "tw_write oc (WebsocketWriter w) = apfst WebsocketWriter (ws_write_op oc w)"
| "tw_write oc (Http2Writer w) = apfst Http2Writer (h2_write_op oc w)"

fun tw_ping :: "outcomes \<Rightarrow> tunnel_writer \<Rightarrow> tunnel_writer \<times> (unit, io_kind) result" where
  "tw_ping oc (WebsocketWriter w) = apfst WebsocketWriter (ws_ping oc w)"
| "tw_ping oc (Http2Writer w) = (Http2Writer w, Ok ())"

fun tw_close :: "outcomes \<Rightarrow> tunnel_writer \<Rightarrow> tunnel_writer \<times> (unit, io_kind) result" where
  "tw_close oc (WebsocketWriter w) = apfst WebsocketWriter (ws_close oc w)"
| "tw_close oc (Http2Writer w) = (Http2Writer w, Ok ())"

fun tw_pending :: "outcomes \<Rightarrow> tunnel_writer \<Rightarrow> (tunnel_writer \<times> (unit, io_kind) result) run" where
  "tw_pending oc (WebsocketWriter w) = run_then (ws_handle_pending oc w) (\<lambda>r. Returns (apfst WebsocketWriter r))"
| "tw_pending oc (Http2Writer w) = Returns (Http2Writer w, Ok ())"

text \<open>A control frame from the reading half; HTTP/2 has none.\<close>

fun tw_enqueue :: "frame \<Rightarrow> tunnel_writer \<Rightarrow> tunnel_writer" where
  "tw_enqueue f (WebsocketWriter w) = WebsocketWriter (w\<lparr>ww_pending := ww_pending w @ [f]\<rparr>)"
| "tw_enqueue f (Http2Writer w) = Http2Writer w"

text \<open>What the reading half gets from the connection.\<close>

datatype tunnel_input = WebsocketInput "frame option" | Http2Input body_input

fun tr_round :: "bool \<Rightarrow> tunnel_input \<Rightarrow> read_round" where
  "tr_round queue_open (WebsocketInput f) = ws_read_frame queue_open f"
| "tr_round queue_open (Http2Input b) = h2_read_frame b"

section \<open>From the local stream to the tunnel\<close>

text \<open>The operations of \<open>TunnelWrite\<close>, and the arrival of a control frame on the channel.\<close>

record 'w tunnel_write =
  op_push :: "bytes \<Rightarrow> 'w \<Rightarrow> 'w"
  op_write :: "outcomes \<Rightarrow> 'w \<Rightarrow> 'w \<times> (unit, io_kind) result"
  op_ping :: "outcomes \<Rightarrow> 'w \<Rightarrow> 'w \<times> (unit, io_kind) result"
  op_close :: "outcomes \<Rightarrow> 'w \<Rightarrow> 'w \<times> (unit, io_kind) result"
  op_pending :: "outcomes \<Rightarrow> 'w \<Rightarrow> ('w \<times> (unit, io_kind) result) run"
  op_enqueue :: "frame \<Rightarrow> 'w \<Rightarrow> 'w"

definition writer_ops :: "tunnel_writer tunnel_write" where
  "writer_ops =
     \<lparr>op_push = tw_push, op_write = tw_write, op_ping = tw_ping, op_close = tw_close, op_pending = tw_pending,
      op_enqueue = tw_enqueue\<rparr>"

text \<open>
  The loop \<open>propagate_local_to_remote\<close>, one event per round: a control frame arrives on the channel,
  the loop is woken for the pending operations, bytes are read (none at the end of the stream), the
  other direction is gone, or the ping timer fires.  \<open>LEnded\<close> is the state after the normal close,
  \<open>LAborted\<close> the one after a failed ping, which returns at once.
\<close>

datatype local_event =
    LControl frame
  | LPending outcomes outcomes
  | LRead bytes outcomes outcomes
  | LReadError outcomes
  | LPeerGone outcomes
  | LTick outcomes

datatype local_status = LRunning | LEnded | LAborted

definition end_loop :: "'w tunnel_write \<Rightarrow> outcomes \<Rightarrow> 'w \<Rightarrow> 'w \<times> local_status" where
  "end_loop W oc w = (fst (op_close W oc w), LEnded)"

definition local_step :: "'w tunnel_write \<Rightarrow> bool \<Rightarrow> local_event \<Rightarrow> 'w \<Rightarrow> ('w \<times> local_status) run" where
  "local_step W ping_frequency ev w =
     (case ev of
        LControl f \<Rightarrow> Returns (op_enqueue W f w, LRunning)
      | LPending oc oc_end \<Rightarrow>
          run_then (op_pending W oc w) (\<lambda>(w', r).
            case r of Ok _ \<Rightarrow> Returns (w', LRunning) | Err _ \<Rightarrow> Returns (end_loop W oc_end w'))
      | LRead bs oc oc_end \<Rightarrow>
          if bs = [] then Returns (end_loop W oc_end w)
          else (case op_write W oc (op_push W bs w) of
                  (w', Ok _) \<Rightarrow> Returns (w', LRunning)
                | (w', Err _) \<Rightarrow> Returns (end_loop W oc_end w'))
      | LReadError oc_end \<Rightarrow> Returns (end_loop W oc_end w)
      | LPeerGone oc_end \<Rightarrow> Returns (end_loop W oc_end w)
      | LTick oc \<Rightarrow>
          if \<not> ping_frequency then Returns (w, LRunning)
          else (case op_ping W oc w of
                  (w', Ok _) \<Rightarrow> Returns (w', LRunning)
                | (w', Err _) \<Rightarrow> Returns (w', LAborted)))"

fun propagate_local_to_remote ::
  "'w tunnel_write \<Rightarrow> bool \<Rightarrow> local_event list \<Rightarrow> 'w \<Rightarrow> ('w \<times> local_status) run" where
  "propagate_local_to_remote W ping [] w = Returns (w, LRunning)"
| "propagate_local_to_remote W ping (ev # evs) w =
     run_then (local_step W ping ev w) (\<lambda>(w', st).
       if st = LRunning then propagate_local_to_remote W ping evs w' else Returns (w', st))"

text \<open>The bytes read from the local stream, and the events that can happen: the channel holds control frames.\<close>

fun read_of :: "local_event \<Rightarrow> bytes" where
  "read_of (LRead bs _ _) = bs"
| "read_of _ = []"

definition read_bytes :: "local_event list \<Rightarrow> bytes" where
  "read_bytes evs = concat (map read_of evs)"

definition is_data :: "frame \<Rightarrow> bool" where
  "is_data f \<longleftrightarrow> fr_opcode f \<in> {Continuation, Text, Binary}"

fun event_ok :: "local_event \<Rightarrow> bool" where
  "event_ok (LControl f) = (\<not> is_data f)"
| "event_ok _ = True"

lemma read_bytes_simps [simp]: "read_bytes [] = []" "read_bytes (ev # evs) = read_of ev @ read_bytes evs"
  by (simp_all add: read_bytes_def)

text \<open>
  The contract of \<open>TunnelWrite\<close>: \<open>sent\<close> are the data bytes on the wire.  A write moves the buffer to the
  wire; a failed one may or may not have; nothing else touches either, and no operation panics.
\<close>

locale tunnel_writes =
  fixes W :: "'w tunnel_write" and buf :: "'w \<Rightarrow> bytes" and sent :: "'w \<Rightarrow> bytes" and wf :: "'w \<Rightarrow> bool"
  assumes push: "wf w \<Longrightarrow> wf (op_push W bs w) \<and> buf (op_push W bs w) = buf w @ bs \<and> sent (op_push W bs w) = sent w"
    and write_Ok: "wf w \<Longrightarrow> op_write W oc w = (w', Ok u) \<Longrightarrow> wf w' \<and> buf w' = [] \<and> sent w' = sent w @ buf w"
    and write_Err: "wf w \<Longrightarrow> op_write W oc w = (w', Err e) \<Longrightarrow> wf w' \<and> sent w' \<in> {sent w, sent w @ buf w}"
    and ping: "wf w \<Longrightarrow> op_ping W oc w = (w', r) \<Longrightarrow> wf w' \<and> buf w' = buf w \<and> sent w' = sent w"
    and close: "wf w \<Longrightarrow> op_close W oc w = (w', r) \<Longrightarrow> sent w' = sent w"
    and pending: "wf w \<Longrightarrow> \<exists>w' r. op_pending W oc w = Returns (w', r) \<and> wf w' \<and> buf w' = buf w \<and> sent w' = sent w"
    and enqueue: "wf w \<Longrightarrow> \<not> is_data f \<Longrightarrow> wf (op_enqueue W f w) \<and> buf (op_enqueue W f w) = buf w \<and> sent (op_enqueue W f w) = sent w"
begin

lemma end_loop_sent: "wf w \<Longrightarrow> sent (fst (end_loop W oc w)) = sent w"
  using close by (cases "op_close W oc w") (simp add: end_loop_def)

lemma end_loop_status [simp]: "snd (end_loop W oc w) = LEnded"
  by (simp add: end_loop_def)

text \<open>A round sends what it read, or ends the loop having sent it or not.\<close>

lemma local_step_sent:
  assumes "wf w" "buf w = []" "event_ok ev"
  shows "\<exists>w' st. local_step W p ev w = Returns (w', st) \<and> sent w' \<in> {sent w, sent w @ read_of ev} \<and>
     (st = LRunning \<longrightarrow> wf w' \<and> buf w' = [] \<and> sent w' = sent w @ read_of ev)"
proof (cases ev)
  case (LPending oc oc_end)
  obtain w' r where "op_pending W oc w = Returns (w', r)" "wf w'" "buf w' = []" "sent w' = sent w"
    using pending assms by metis
  then show ?thesis using LPending end_loop_sent
    by (cases r; cases "end_loop W oc_end w'") (auto simp: local_step_def end_loop_def dest: close)
next
  case (LRead bs oc oc_end)
  show ?thesis
  proof (cases "bs = []")
    case True
    then show ?thesis using LRead assms end_loop_sent by (simp add: local_step_def end_loop_def)
  next
    case False
    obtain w' r where w: "op_write W oc (op_push W bs w) = (w', r)" by fastforce
    note p = push [OF assms(1), of bs]
    show ?thesis
    proof (cases r)
      case (Ok u)
      then show ?thesis using write_Ok [of "op_push W bs w" oc w' u] w p assms False LRead by (simp add: local_step_def)
    next
      case (Err e)
      then have "wf w' \<and> sent w' \<in> {sent w, sent w @ bs}"
        using write_Err [of "op_push W bs w" oc w' e] w p assms by simp
      then show ?thesis using end_loop_sent [of w' oc_end] w False LRead Err by (auto simp: local_step_def end_loop_def)
    qed
  qed
next
  case (LTick oc)
  then show ?thesis using assms ping [of w oc]
    by (cases "op_ping W oc w"; cases "snd (op_ping W oc w)") (auto simp: local_step_def)
qed (use assms enqueue end_loop_sent in \<open>auto simp: local_step_def end_loop_def\<close>)

lemma propagate_sent:
  assumes "wf w" "buf w = []" "list_all event_ok evs"
  shows "\<exists>w' st. propagate_local_to_remote W p evs w = Returns (w', st) \<and> prefix (sent w') (sent w @ read_bytes evs) \<and>
     (st = LRunning \<longrightarrow> sent w' = sent w @ read_bytes evs)"
  using assms
proof (induction evs arbitrary: w)
  case (Cons ev evs)
  obtain w1 st1 where 1: "local_step W p ev w = Returns (w1, st1)" "sent w1 \<in> {sent w, sent w @ read_of ev}"
    "st1 = LRunning \<longrightarrow> wf w1 \<and> buf w1 = [] \<and> sent w1 = sent w @ read_of ev"
    using local_step_sent [OF Cons.prems(1, 2), of ev p] Cons.prems(3) by auto
  show ?case
  proof (cases "st1 = LRunning")
    case True
    then show ?thesis using 1 Cons.IH [of w1] Cons.prems(3) by auto
  next
    case False
    then show ?thesis using 1 by auto
  qed
qed simp

end

text \<open>The data bytes that a transport has put on the wire, and the state it keeps.\<close>

definition data_bytes :: "frame list \<Rightarrow> bytes" where
  "data_bytes fs = concat (map fr_payload (filter is_data fs))"

fun tw_sent :: "tunnel_writer \<Rightarrow> bytes" where
  "tw_sent (WebsocketWriter w) = data_bytes (ww_sent w)"
| "tw_sent (Http2Writer w) = concat (hw_sent w)"

fun tw_wf :: "tunnel_writer \<Rightarrow> bool" where
  "tw_wf (WebsocketWriter w) = list_all (\<lambda>f. \<not> is_data f) (ww_pending w)"
| "tw_wf (Http2Writer w) = True"

lemma data_bytes_simps [simp]:
  "data_bytes [] = []" "data_bytes (fs @ gs) = data_bytes fs @ data_bytes gs"
  "data_bytes (f # fs) = (if is_data f then fr_payload f else []) @ data_bytes fs"
  by (simp_all add: data_bytes_def)

lemma is_data_control [simp]:
  "is_data (control_frame Binary bs)" "\<not> is_data (control_frame PingOp bs)" "\<not> is_data (control_frame PongOp bs)"
  "\<not> is_data close_frame"
  by (simp_all add: is_data_def control_frame_def close_frame_def)

lemma control_frame_payload [simp]: "fr_payload (control_frame op bs) = bs"
  by (simp add: control_frame_def)

lemma send_frame_sel [simp]:
  "ww_sent (send_frame f w) = ww_sent w @ [f]" "ww_buf (send_frame f w) = ww_buf w" "ww_pending (send_frame f w) = ww_pending w"
  "ww_in_flight (send_frame f w) = ww_in_flight w"
  by (simp_all add: send_frame_def)

lemma answer_pending_keeps:
  assumes "list_all (\<lambda>f. \<not> is_data f) fs"
  shows "\<exists>w' r. answer_pending oks fs w = Returns (w', r) \<and> list_all (\<lambda>f. \<not> is_data f) (ww_pending w') \<and>
     ww_buf w' = ww_buf w \<and> data_bytes (ww_sent w') = data_bytes (ww_sent w)"
  using assms
proof (induction oks fs w rule: answer_pending.induct)
  case (2 oks f fs w)
  have f: "\<not> is_data f" "fr_opcode f \<in> {CloseOp, PingOp, PongOp}"
    using 2(4) by (auto simp: is_data_def intro: opcode.exhaust [of "fr_opcode f"])
  then consider (close) "fr_opcode f = CloseOp" | (ping) "fr_opcode f = PingOp" | (pong) "fr_opcode f = PongOp" by auto
  then show ?case
  proof cases
    case close
    then show ?thesis using 2(1) [OF close] 2(4) f by (auto simp del: send_frame_sel simp add: send_frame_sel)
  next
    case ping
    then show ?thesis using 2(2) [OF ping] 2(4) by auto
  next
    case pong
    then show ?thesis using 2(3) [OF pong] 2(4) by auto
  qed
qed simp

interpretation writer: tunnel_writes writer_ops tw_buf tw_sent tw_wf
proof unfold_locales
  fix w :: tunnel_writer and bs oc f u e r w'
  show "tw_wf w \<Longrightarrow> tw_wf (op_push writer_ops bs w) \<and> tw_buf (op_push writer_ops bs w) = tw_buf w @ bs \<and>
      tw_sent (op_push writer_ops bs w) = tw_sent w"
    by (cases w) (simp_all add: writer_ops_def)
  show "tw_wf w \<Longrightarrow> op_write writer_ops oc w = (w', Ok u) \<Longrightarrow> tw_wf w' \<and> tw_buf w' = [] \<and> tw_sent w' = tw_sent w @ tw_buf w"
    by (cases w) (auto simp: writer_ops_def ws_write_op_def h2_write_op_def Let_def split: if_split_asm)
  show "tw_wf w \<Longrightarrow> op_write writer_ops oc w = (w', Err e) \<Longrightarrow> tw_wf w' \<and> tw_sent w' \<in> {tw_sent w, tw_sent w @ tw_buf w}"
    by (cases w) (auto simp: writer_ops_def ws_write_op_def h2_write_op_def Let_def split: if_split_asm)
  show "tw_wf w \<Longrightarrow> op_ping writer_ops oc w = (w', r) \<Longrightarrow> tw_wf w' \<and> tw_buf w' = tw_buf w \<and> tw_sent w' = tw_sent w"
    by (cases w) (auto simp: writer_ops_def ws_ping_def Let_def split: if_split_asm)
  show "tw_wf w \<Longrightarrow> op_close writer_ops oc w = (w', r) \<Longrightarrow> tw_sent w' = tw_sent w"
    by (cases w) (auto simp: writer_ops_def ws_close_def split: if_split_asm)
  show "tw_wf w \<Longrightarrow> \<exists>w' r. op_pending writer_ops oc w = Returns (w', r) \<and> tw_wf w' \<and> tw_buf w' = tw_buf w \<and> tw_sent w' = tw_sent w"
  proof (cases w)
    case (WebsocketWriter ws)
    assume "tw_wf w"
    then have "list_all (\<lambda>f. \<not> is_data f) (ww_pending ws)" using WebsocketWriter by simp
    from answer_pending_keeps [OF this, of "oc_answers oc" ws] show ?thesis
      using WebsocketWriter by (auto simp: writer_ops_def ws_handle_pending_def)
  qed (simp add: writer_ops_def)
  show "tw_wf w \<Longrightarrow> \<not> is_data f \<Longrightarrow> tw_wf (op_enqueue writer_ops f w) \<and> tw_buf (op_enqueue writer_ops f w) = tw_buf w \<and>
      tw_sent (op_enqueue writer_ops f w) = tw_sent w"
    by (cases w) (auto simp: writer_ops_def)
qed

section \<open>From the tunnel to the local stream\<close>

text \<open>
  The loop \<open>propagate_remote_to_local\<close>, one event per round: an input of the reading half, with the
  outcome of writing it to the local stream (\<open>None\<close> for a complete write, otherwise the number of bytes
  written before the failure), or the end of the other direction.
\<close>

datatype 'i remote_event = RInput 'i bool "nat option" | RCloseSignal

record remote_state =
  rs_local :: bytes
  rs_control :: "frame list"
  rs_running :: bool

definition remote_start :: remote_state where
  "remote_start = \<lparr>rs_local = [], rs_control = [], rs_running = True\<rparr>"

definition deliver :: "bytes \<Rightarrow> nat option \<Rightarrow> remote_state \<Rightarrow> remote_state" where
  "deliver bs failed_after s =
     (case failed_after of
        None \<Rightarrow> s\<lparr>rs_local := rs_local s @ bs\<rparr>
      | Some n \<Rightarrow> s\<lparr>rs_local := rs_local s @ take n bs, rs_running := False\<rparr>)"

fun remote_step :: "(bool \<Rightarrow> 'i \<Rightarrow> read_round) \<Rightarrow> 'i remote_event \<Rightarrow> remote_state \<Rightarrow> remote_state" where
  "remote_step round (RInput i queue_open failed_after) s =
     (case round queue_open i of
        Deliver bs \<Rightarrow> deliver bs failed_after s
      | Control c \<Rightarrow> s\<lparr>rs_control := rs_control s @ [c]\<rparr>
      | Skip \<Rightarrow> s
      | ControlFail c _ \<Rightarrow> s\<lparr>rs_control := rs_control s @ [c], rs_running := False\<rparr>
      | Fail _ \<Rightarrow> s\<lparr>rs_running := False\<rparr>)"
| "remote_step round RCloseSignal s = s\<lparr>rs_running := False\<rparr>"

fun propagate_remote_to_local ::
  "(bool \<Rightarrow> 'i \<Rightarrow> read_round) \<Rightarrow> 'i remote_event list \<Rightarrow> remote_state \<Rightarrow> remote_state" where
  "propagate_remote_to_local round [] s = s"
| "propagate_remote_to_local round (ev # evs) s =
     (if rs_running s then propagate_remote_to_local round evs (remote_step round ev s) else s)"

fun input_of :: "'i remote_event \<Rightarrow> 'i list" where
  "input_of (RInput i _ _) = [i]"
| "input_of RCloseSignal = []"

definition inputs_of :: "'i remote_event list \<Rightarrow> 'i list" where
  "inputs_of evs = concat (map input_of evs)"

lemma inputs_of_simps [simp]: "inputs_of [] = []" "inputs_of (ev # evs) = input_of ev @ inputs_of evs"
  by (simp_all add: inputs_of_def)

text \<open>The contract of \<open>TunnelRead\<close>: a round delivers the data of its input, if the input has any.\<close>

locale tunnel_reads =
  fixes round :: "bool \<Rightarrow> 'i \<Rightarrow> read_round" and payload :: "'i \<Rightarrow> bytes"
  assumes delivers: "round q i = Deliver bs \<Longrightarrow> payload i = bs"
    and no_data: "\<forall>bs. round q i \<noteq> Deliver bs \<Longrightarrow> payload i = []"
begin

lemma remote_step_local:
  "prefix (rs_local (remote_step round ev s)) (rs_local s @ concat (map payload (input_of ev))) \<and>
   (rs_running (remote_step round ev s) \<longrightarrow>
      rs_local (remote_step round ev s) = rs_local s @ concat (map payload (input_of ev)))"
proof (cases ev)
  case (RInput i q n)
  then show ?thesis
    using delivers [of q i] no_data [of q i]
    by (cases "round q i"; cases n) (simp_all add: deliver_def take_is_prefix)
qed simp

lemma propagate_local:
  "prefix (rs_local (propagate_remote_to_local round evs s)) (rs_local s @ concat (map payload (inputs_of evs))) \<and>
   (rs_running (propagate_remote_to_local round evs s) \<longrightarrow>
      rs_local (propagate_remote_to_local round evs s) = rs_local s @ concat (map payload (inputs_of evs)))"
proof (induction evs arbitrary: s)
  case (Cons ev evs)
  note 1 = remote_step_local [of ev s]
  show ?case
  proof (cases "rs_running s \<and> rs_running (remote_step round ev s)")
    case True
    then show ?thesis using Cons.IH [of "remote_step round ev s"] 1 by simp
  next
    case False
    moreover have "propagate_remote_to_local round evs (remote_step round ev s) = remote_step round ev s"
      if "\<not> rs_running (remote_step round ev s)" using that by (cases evs) simp_all
    ultimately show ?thesis
      using 1 prefix_prefix [of "rs_local (remote_step round ev s)" "rs_local s @ concat (map payload (input_of ev))"
          "concat (map payload (inputs_of evs))"] by auto
  qed
qed simp

end

fun tr_payload :: "tunnel_input \<Rightarrow> bytes" where
  "tr_payload (WebsocketInput (Some f)) = (if is_data f then fr_payload f else [])"
| "tr_payload (Http2Input (BodyFrame (Data d))) = d"
| "tr_payload _ = []"

interpretation reader: tunnel_reads tr_round tr_payload
proof unfold_locales
  fix q i bs
  show "tr_round q i = Deliver bs \<Longrightarrow> tr_payload i = bs"
    by (cases i rule: tr_payload.cases) (auto simp: ws_read_frame_def is_data_def split: opcode.split_asm if_split_asm)
  show "\<forall>bs. tr_round q i \<noteq> Deliver bs \<Longrightarrow> tr_payload i = []"
    by (cases i rule: tr_payload.cases) (auto simp: ws_read_frame_def is_data_def split: opcode.split_asm)
qed

section \<open>From one end to the other\<close>

text \<open>What the connection has taken from the writing half, as inputs of the reading half of the peer.\<close>

fun wire :: "tunnel_writer \<Rightarrow> tunnel_input list" where
  "wire (WebsocketWriter w) = map (\<lambda>f. WebsocketInput (Some f)) (ww_sent w)"
| "wire (Http2Writer w) = map (\<lambda>d. Http2Input (BodyFrame (Data d))) (hw_sent w)"

lemma wire_payload: "concat (map tr_payload (wire w)) = tw_sent w"
proof (cases w)
  case (WebsocketWriter ws)
  have "concat (map (\<lambda>f. tr_payload (WebsocketInput (Some f))) fs) = data_bytes fs" for fs by (induction fs) simp_all
  then show ?thesis using WebsocketWriter by (simp add: comp_def)
qed (simp add: comp_def)

definition fresh_writer :: "tunnel_writer \<Rightarrow> bool" where
  "fresh_writer w \<longleftrightarrow> w \<in> {WebsocketWriter ws_write_new, Http2Writer h2_write_new}"

lemma fresh_writer_ok: "fresh_writer w \<Longrightarrow> tw_wf w \<and> tw_buf w = [] \<and> tw_sent w = []"
  by (auto simp: fresh_writer_def ws_write_new_def h2_write_new_def)

text \<open>
  C4. A tunnel carries the bytes of the local stream unchanged and in order.  Over websocket and HTTP/2
  alike, whatever control frames, pings, write failures and closings interleave on either side, the
  sending loop does not panic, and if the peer reads a prefix of what the connection took, the bytes it
  has written to its local stream are a prefix of the bytes read at this end.  Nothing is lost while
  both loops run: once the peer has read everything, it has written all of them.
\<close>

theorem tunnel_delivers_in_order:
  assumes "fresh_writer w0" "list_all event_ok evs"
  shows "\<exists>w st. propagate_local_to_remote writer_ops ping evs w0 = Returns (w, st) \<and>
     (\<forall>revs. prefix (inputs_of revs) (wire w) \<longrightarrow>
        (let s = propagate_remote_to_local tr_round revs remote_start in
         prefix (rs_local s) (read_bytes evs) \<and>
         (st = LRunning \<and> inputs_of revs = wire w \<and> rs_running s \<longrightarrow> rs_local s = read_bytes evs)))"
proof -
  obtain w st where w: "propagate_local_to_remote writer_ops ping evs w0 = Returns (w, st)"
    "prefix (tw_sent w) (read_bytes evs)" "st = LRunning \<longrightarrow> tw_sent w = read_bytes evs"
    using writer.propagate_sent [of w0 evs ping] fresh_writer_ok [OF assms(1)] assms(2) by auto
  have "prefix (rs_local s) (read_bytes evs) \<and>
      (st = LRunning \<and> inputs_of revs = wire w \<and> rs_running s \<longrightarrow> rs_local s = read_bytes evs)"
    if "prefix (inputs_of revs) (wire w)" "s = propagate_remote_to_local tr_round revs remote_start" for revs s
  proof -
    have "prefix (concat (map tr_payload (inputs_of revs))) (tw_sent w)"
      using that(1) unfolding wire_payload [symmetric] by (auto simp: prefix_def)
    then show ?thesis
      using reader.propagate_local [of revs remote_start] that(2) w(2, 3) wire_payload [of w]
      by (auto simp: remote_start_def dest: prefix_order.trans)
  qed
  then show ?thesis using w(1) by (auto simp: Let_def)
qed

definition demo_oc :: outcomes where
  "demo_oc = \<lparr>oc_write = True, oc_flush = True, oc_answers = []\<rparr>"

definition demo_local_events :: "local_event list" where
  "demo_local_events =
     [LRead [1, 2] demo_oc demo_oc, LControl (control_frame PingOp [7]), LPending demo_oc demo_oc, LTick demo_oc,
      LRead [3] demo_oc demo_oc]"

definition demo_remote_events :: "tunnel_input remote_event list" where
  "demo_remote_events =
     [RInput (WebsocketInput (Some (control_frame Binary [1, 2]))) True None,
      RInput (WebsocketInput (Some (control_frame PongOp [7]))) True None,
      RInput (WebsocketInput (Some (control_frame PingOp []))) True None,
      RInput (WebsocketInput (Some (control_frame Binary [3]))) True None]"

theorem tunnel_delivers_in_order_witness:
  "rs_local (propagate_remote_to_local tr_round demo_remote_events remote_start) = read_bytes demo_local_events \<and>
   read_bytes demo_local_events = [1, 2, 3]"
proof -
  let ?w0 = "WebsocketWriter ws_write_new"
  let ?s = "propagate_remote_to_local tr_round demo_remote_events remote_start"
  obtain w st where w: "propagate_local_to_remote writer_ops True demo_local_events ?w0 = Returns (w, st)"
    and d: "\<forall>revs. prefix (inputs_of revs) (wire w) \<longrightarrow>
        (let s = propagate_remote_to_local tr_round revs remote_start in
         prefix (rs_local s) (read_bytes demo_local_events) \<and>
         (st = LRunning \<and> inputs_of revs = wire w \<and> rs_running s \<longrightarrow> rs_local s = read_bytes demo_local_events))"
    using tunnel_delivers_in_order [of ?w0 demo_local_events True]
    by (auto simp: fresh_writer_def demo_local_events_def)
  have "st = LRunning \<and> inputs_of demo_remote_events = wire w"
    using w by (auto simp: demo_local_events_def writer_ops_def local_step_def ws_write_op_def ws_write_new_def demo_oc_def
        ws_ping_def ws_handle_pending_def send_frame_def control_frame_def demo_remote_events_def Let_def)
  moreover have "rs_running ?s"
    by (simp add: demo_remote_events_def remote_start_def ws_read_frame_def control_frame_def deliver_def)
  ultimately have "rs_local ?s = read_bytes demo_local_events" using d by (simp add: Let_def)
  then show ?thesis by (simp add: demo_local_events_def)
qed

section \<open>Pings\<close>

fun is_tick :: "local_event \<Rightarrow> bool" where
  "is_tick (LTick _) = True"
| "is_tick _ = False"

fun not_pong :: "local_event \<Rightarrow> bool" where
  "not_pong (LControl f) = (fr_opcode f \<noteq> PongOp)"
| "not_pong _ = True"

lemma answer_pending_in_flight:
  "list_all (\<lambda>f. fr_opcode f \<noteq> PongOp) fs \<Longrightarrow> answer_pending oks fs w = Returns (w', r) \<Longrightarrow>
     ww_in_flight w' = ww_in_flight w \<and> list_all (\<lambda>f. fr_opcode f \<noteq> PongOp) (ww_pending w')"
  by (induction oks fs w rule: answer_pending.induct) (auto split: opcode.split_asm if_split_asm)

lemma local_step_in_flight:
  assumes "local_step writer_ops True ev (WebsocketWriter w) = Returns (x, LRunning)" "not_pong ev"
    "list_all (\<lambda>f. fr_opcode f \<noteq> PongOp) (ww_pending w)"
  shows "\<exists>w'. x = WebsocketWriter w' \<and> list_all (\<lambda>f. fr_opcode f \<noteq> PongOp) (ww_pending w') \<and>
     (if is_tick ev then ww_in_flight w < 3 \<and> ww_in_flight w' = ww_in_flight w + 1 else ww_in_flight w' = ww_in_flight w)"
proof (cases ev)
  case (LPending oc oc_end)
  then obtain w' r where "answer_pending (oc_answers oc) (ww_pending w) w = Returns (w', r)" "x = WebsocketWriter w'"
    using assms(1) by (auto simp: local_step_def writer_ops_def ws_handle_pending_def end_loop_def elim!: run_then_elim split: result.split_asm)
  then show ?thesis using answer_pending_in_flight [OF assms(3)] LPending by auto
qed (use assms in \<open>auto simp: local_step_def writer_ops_def ws_write_op_def ws_ping_def end_loop_def Let_def
       split: if_split_asm result.split_asm\<close>)

lemma ticks_bounded:
  assumes "propagate_local_to_remote writer_ops True evs (WebsocketWriter w) = Returns (x, LRunning)" "list_all not_pong evs"
    "list_all (\<lambda>f. fr_opcode f \<noteq> PongOp) (ww_pending w)" "unat (ww_in_flight w) = k" "k \<le> 3"
  shows "k + length (filter is_tick evs) \<le> 3"
  using assms
proof (induction evs arbitrary: w k)
  case (Cons ev evs)
  obtain y where y: "local_step writer_ops True ev (WebsocketWriter w) = Returns (y, LRunning)"
    "propagate_local_to_remote writer_ops True evs y = Returns (x, LRunning)"
    using Cons.prems(1) by (auto simp: result_simps split: if_split_asm)
  obtain w' where w': "y = WebsocketWriter w'" "list_all (\<lambda>f. fr_opcode f \<noteq> PongOp) (ww_pending w')"
    "if is_tick ev then ww_in_flight w < 3 \<and> ww_in_flight w' = ww_in_flight w + 1 else ww_in_flight w' = ww_in_flight w"
    using local_step_in_flight [OF y(1)] Cons.prems(2, 3) by auto
  show ?case
  proof (cases "is_tick ev")
    case True
    then have "unat (ww_in_flight w') = Suc k" "k < 3"
      using w'(3) Cons.prems(4) by (auto simp: word_less_nat_alt unat_word_ariths)
    then show ?thesis using Cons.IH [of w' "Suc k"] y(2) w'(1, 2) Cons.prems(2) True by simp
  next
    case False
    then show ?thesis using Cons.IH [of w' k] y(2) w' Cons.prems by simp
  qed
qed simp

text \<open>
  C28. A peer that is gone is noticed: over a websocket with pings enabled, if no pong ever arrives, the
  sending loop has ended by the fourth tick of the ping timer, whatever else happens in between.
\<close>

theorem dead_peer_detected:
  assumes "list_all event_ok evs" "list_all not_pong evs" "4 \<le> length (filter is_tick evs)"
  shows "\<exists>w st. propagate_local_to_remote writer_ops True evs (WebsocketWriter ws_write_new) = Returns (w, st) \<and> st \<noteq> LRunning"
proof -
  have "fresh_writer (WebsocketWriter ws_write_new)" by (simp add: fresh_writer_def)
  then obtain w st where w: "propagate_local_to_remote writer_ops True evs (WebsocketWriter ws_write_new) = Returns (w, st)"
    using writer.propagate_sent [of "WebsocketWriter ws_write_new" evs True] fresh_writer_ok assms(1) by blast
  moreover have "st \<noteq> LRunning"
    using ticks_bounded [of evs ws_write_new w 0] w assms(2, 3) by (auto simp: ws_write_new_def)
  ultimately show ?thesis by blast
qed

theorem dead_peer_detected_witness:
  "\<exists>w st. propagate_local_to_remote writer_ops True
     [LTick demo_oc, LTick demo_oc, LRead [1] demo_oc demo_oc, LTick demo_oc, LTick demo_oc] (WebsocketWriter ws_write_new)
     = Returns (w, st) \<and> st \<noteq> LRunning"
  by (rule dead_peer_detected) simp_all

text \<open>
  A pong that answers no ping, which a peer may send at any time, lets the counter wrap: the next tick
  aborts the tunnel without a closing frame.
\<close>

lemma unsolicited_pong_aborts:
  "\<exists>w. propagate_local_to_remote writer_ops True
      [LControl (control_frame PongOp []), LPending oc oc_end, LTick oc'] (WebsocketWriter ws_write_new)
      = Returns (WebsocketWriter w, LAborted) \<and> ww_sent w = []"
  by (simp add: writer_ops_def local_step_def ws_handle_pending_def ws_write_new_def control_frame_def ws_ping_def Let_def)

end
