(* ===== verification/Client.thy ===== *)
theory Client
  imports Connectors Listeners Reloaders Transport_Io
begin

text \<open>
  The client (\<open>tunnel/client\<close>): the connection to the server behind the pool, the byte stream over it,
  the upgrade over websocket and HTTP/2, the tunnel of an accepted connection, and the loop of a reverse
  tunnel with its backoff.  The pool (bb8), the websocket handshake and the HTTP/2 client are parameters.
\<close>

section \<open>The stream over a connection\<close>

text \<open>
  A read half: the connection and the bytes that were read ahead of the upgrade.  The three kinds of
  connection behave alike; the answer of the connection to a poll is an argument.
\<close>

datatype transport_kind = Plain | TlsClient | TlsSrv

record 'c transport_read =
  th_kind :: transport_kind
  th_cnx :: 'c
  th_buf :: bytes

definition from_tcp :: "'c \<Rightarrow> bytes \<Rightarrow> 'c transport_read" where
  "from_tcp tcp read_buf = \<lparr>th_kind = Plain, th_cnx = tcp, th_buf = read_buf\<rparr>"

definition from_client_tls :: "'c \<Rightarrow> bytes \<Rightarrow> 'c transport_read" where
  "from_client_tls tls read_buf = \<lparr>th_kind = TlsClient, th_cnx = tls, th_buf = read_buf\<rparr>"

definition from_server_tls :: "'c \<Rightarrow> bytes \<Rightarrow> 'c transport_read" where
  "from_server_tls tls read_buf = \<lparr>th_kind = TlsSrv, th_cnx = tls, th_buf = read_buf\<rparr>"

definition with_read_buf :: "'c transport_read \<Rightarrow> bytes \<Rightarrow> 'c transport_read" where
  "with_read_buf s read_buf = s\<lparr>th_buf := read_buf\<rparr>"

definition transport_poll_read ::
  "nat \<Rightarrow> (bytes, 'e) result poll \<Rightarrow> 'c transport_read \<Rightarrow> 'c transport_read \<times> (bytes, 'e) result poll" where
  "transport_poll_read remaining inner s =
     (if th_buf s \<noteq> [] then
        (let copy_len = min (length (th_buf s)) remaining in
         (s\<lparr>th_buf := drop copy_len (th_buf s)\<rparr>, Ready (Ok (take copy_len (th_buf s)))))
      else (s, inner))"

section \<open>The connection to the server\<close>

datatype ('tcp, 'tls) transport_stream = TcpStream 'tcp | TlsStream 'tls

text \<open>What a pooled connection is made of: the peer and what is left of an exchange with a proxy.\<close>

type_synonym 'e tcp_stream = "socket_addr \<times> 'e read_event list"

datatype 'e cnx_error = CnxTcp "'e connect_error" | CnxProxy "'e proxy_error" | CnxTls "'e tls_error"

definition ws_connection_connect ::
  "'e net_env \<Rightarrow> ('sys, 'ech, 'e) dns_lib \<Rightarrow> text_lib \<Rightarrow> 'e proxy_io \<Rightarrow> (string \<Rightarrow> string option)
   \<Rightarrow> ('ct client_tls \<Rightarrow> server_name \<Rightarrow> 'e tcp_stream \<Rightarrow> ('tls, 'e) result)
   \<Rightarrow> ('ct client_tls, 'sys) ws_client_config \<Rightarrow> (('e tcp_stream, 'tls) transport_stream option, 'e cnx_error) result" where
  "ws_connection_connect N D T X dns_name handshake cfg =
     (let addr = cc_remote_addr cfg; timeout = cc_timeout_connect cfg in
      and_then (case cc_http_proxy cfg of
                  Some proxy \<Rightarrow>
                    map_err CnxProxy (connect_with_http_proxy N D T X proxy (ta_host addr) (ta_port addr)
                      (cc_so_mark cfg) timeout (cc_dns_resolver cfg))
                | None \<Rightarrow>
                    map_ok (\<lambda>a. (a, [])) (map_err CnxTcp (tcp_connect N D (ta_host addr) (ta_port addr)
                      (cc_so_mark cfg) timeout (cc_dns_resolver cfg)))) (\<lambda>tcp_stream.
      if ta_tls addr \<noteq> None
      then map_ok (\<lambda>t. Some (TlsStream t)) (map_err CnxTls (tls_connect dns_name handshake cfg tcp_stream))
      else Ok (Some (TcpStream tcp_stream))))"

text \<open>A connection that was taken is broken for the pool.\<close>

definition has_broken :: "'t option \<Rightarrow> bool" where
  "has_broken conn \<longleftrightarrow> conn = None"

section \<open>The upgrade\<close>

datatype 'e upgrade_error =
    PoolError 'e
  | RequestInvalid
  | HandshakeError 'e
  | RejectedStatus nat

text \<open>
  \<open>pooled\<close> is the answer of the pool, \<open>ws_handshake\<close> the websocket handshake over the transport.  For
  HTTP/2, \<open>h2_handshake\<close> makes a sender and \<open>send_request\<close> sends the request and waits for the answer.
\<close>

record ('t, 'snd, 'e) upgrade_lib =
  ul_http :: http_lib
  ul_tokens :: token_lib
  ul_read_file :: "path \<Rightarrow> 'e file_lines"
  ul_key :: string
  ul_ws_handshake :: "request \<Rightarrow> 't \<Rightarrow> (response, 'e) result"
  ul_h2_handshake :: "'t \<Rightarrow> ('snd, 'e) result"
  ul_send_request :: "'snd \<Rightarrow> request \<Rightarrow> (response, 'e) result"

definition take_transport :: "'t option \<Rightarrow> 't run" where
  "take_transport conn = expect ''called `Option::unwrap()` on a `None` value'' conn"

definition websocket_connect ::
  "('t, 'snd, 'e) upgrade_lib \<Rightarrow> ('conn, 'sys) ws_client_config \<Rightarrow> ('t option, 'e) result \<Rightarrow> u128 \<Rightarrow> remote_addr
   \<Rightarrow> (response, 'e upgrade_error) result run" where
  "websocket_connect U cfg pooled request_id dest =
     (case pooled of
        Err e \<Rightarrow> Returns (Err (PoolError e))
      | Ok conn \<Rightarrow>
          run_then (ws_request (ul_http U) (ul_tokens U) (ul_read_file U) (ul_key U) cfg request_id dest) (\<lambda>r.
          case r of
            Err _ \<Rightarrow> Returns (Err RequestInvalid)
          | Ok req \<Rightarrow>
              run_then (take_transport conn) (\<lambda>transport.
                Returns (map_err HandshakeError (ul_ws_handshake U req transport)))))"

definition http2_connect ::
  "('t, 'snd, 'e) upgrade_lib \<Rightarrow> ('conn, 'sys) ws_client_config \<Rightarrow> ('t option, 'e) result \<Rightarrow> u128 \<Rightarrow> remote_addr
   \<Rightarrow> (response, 'e upgrade_error) result run" where
  "http2_connect U cfg pooled request_id dest =
     (case pooled of
        Err e \<Rightarrow> Returns (Err (PoolError e))
      | Ok conn \<Rightarrow>
          run_then (http2_request (ul_http U) (ul_tokens U) (ul_read_file U) cfg request_id dest) (\<lambda>r.
          case r of
            Err _ \<Rightarrow> Returns (Err RequestInvalid)
          | Ok req \<Rightarrow>
              run_then (take_transport conn) (\<lambda>transport.
                Returns (and_then (map_err HandshakeError (ul_h2_handshake U transport)) (\<lambda>sender.
                  and_then (map_err HandshakeError (ul_send_request U sender req)) (\<lambda>response.
                    if 200 \<le> rs_status response \<and> rs_status response < 300 then Ok response
                    else Err (RejectedStatus (rs_status response))))))))"

definition server_connect ::
  "('t, 'snd, 'e) upgrade_lib \<Rightarrow> ('conn, 'sys) ws_client_config \<Rightarrow> ('t option, 'e) result \<Rightarrow> u128 \<Rightarrow> remote_addr
   \<Rightarrow> (tunnel_writer \<times> response, 'e upgrade_error) result run" where
  "server_connect U cfg pooled request_id dest =
     (case ta_scheme (cc_remote_addr cfg) of
        Ws \<Rightarrow> run_then (websocket_connect U cfg pooled request_id dest) (\<lambda>r. Returns (map_ok (Pair (WebsocketWriter ws_write_new)) r))
      | Wss \<Rightarrow> run_then (websocket_connect U cfg pooled request_id dest) (\<lambda>r. Returns (map_ok (Pair (WebsocketWriter ws_write_new)) r))
      | Http \<Rightarrow> run_then (http2_connect U cfg pooled request_id dest) (\<lambda>r. Returns (map_ok (Pair (Http2Writer h2_write_new)) r))
      | Https \<Rightarrow> run_then (http2_connect U cfg pooled request_id dest) (\<lambda>r. Returns (map_ok (Pair (Http2Writer h2_write_new)) r)))"

text \<open>
  \<open>connect_to_server\<close>: the upgrade, then the two copying loops; \<open>evs\<close> are the events of the loop from
  the local stream and \<open>revs\<close> those of the loop to it.
\<close>

definition connect_to_server ::
  "('t, 'snd, 'e) upgrade_lib \<Rightarrow> ('conn, 'sys) ws_client_config \<Rightarrow> ('t option, 'e) result \<Rightarrow> u128 \<Rightarrow> remote_addr
   \<Rightarrow> local_event list \<Rightarrow> tunnel_input remote_event list
   \<Rightarrow> ((tunnel_writer \<times> local_status) \<times> remote_state, 'e upgrade_error) result run" where
  "connect_to_server U cfg pooled request_id remote_cfg evs revs =
     run_then (server_connect U cfg pooled request_id remote_cfg) (\<lambda>r.
       case r of
         Err e \<Rightarrow> Returns (Err e)
       | Ok (ws_tx, _) \<Rightarrow>
           run_then (propagate_local_to_remote writer_ops (cc_ping_frequency cfg \<noteq> None) evs ws_tx) (\<lambda>l.
             Returns (Ok (l, propagate_remote_to_local tr_round revs remote_start))))"

section \<open>Reverse tunnels\<close>

text \<open>\<open>new_reconnect_delay\<close>: the closure's state is the next delay.\<close>

definition first_delay :: duration where
  "first_delay = from_secs 1"

definition reconnect_delay :: "duration \<Rightarrow> duration \<Rightarrow> duration \<times> duration" where
  "reconnect_delay max_delay next_delay = (next_delay, min (next_delay * 2) max_delay)"

text \<open>The destination the server names in the cookie of its answer; a host that cannot be parsed is the empty domain.\<close>

definition cookie_remote :: "http_lib \<Rightarrow> token_lib \<Rightarrow> response \<Rightarrow> remote_addr option" where
  "cookie_remote H J resp =
     Option.bind (hm_get (rs_headers resp) ''cookie'') (\<lambda>h.
     Option.bind (h_to_str H h) (\<lambda>s.
     map_option (\<lambda>jwt. \<lparr>ra_protocol = jwt_p jwt, ra_host = unwrap_or (Domain []) (j_host_parse J (jwt_r jwt)),
                      ra_port = jwt_rp jwt\<rparr>) (jwt_token_to_tunnel J s)))"

text \<open>
  A round of the loop of \<open>run_reverse_tunnel\<close>: \<open>pooled\<close> and the library give the outcome of the upgrade;
  \<open>connect\<close> is the connector.  The state holds the next delay, the sleeps so far and the tunnels that
  were spawned.
\<close>

record 'c reverse_client =
  rv_delay :: duration
  rv_sleeps :: "duration list"
  rv_tunnels :: "(remote_addr option \<times> 'c) list"

definition reverse_client_new :: "'c reverse_client" where
  "reverse_client_new = \<lparr>rv_delay = first_delay, rv_sleeps = [], rv_tunnels = []\<rparr>"

definition reverse_round ::
  "('t, 'snd, 'e) upgrade_lib \<Rightarrow> ('conn, 'sys) ws_client_config \<Rightarrow> duration \<Rightarrow> remote_addr \<Rightarrow> ('t option, 'e) result \<Rightarrow> u128
   \<Rightarrow> (remote_addr option \<Rightarrow> ('c, 'f) result) \<Rightarrow> 'c reverse_client \<Rightarrow> 'c reverse_client run" where
  "reverse_round U cfg max_backoff remote_addr pooled request_id connect s =
     run_then (server_connect U cfg pooled request_id remote_addr) (\<lambda>r.
       case r of
         Err _ \<Rightarrow>
           (case reconnect_delay max_backoff (rv_delay s) of (d, next) \<Rightarrow>
             Returns (s\<lparr>rv_delay := next, rv_sleeps := rv_sleeps s @ [d]\<rparr>))
       | Ok (_, response) \<Rightarrow>
           (let s1 = s\<lparr>rv_delay := first_delay\<rparr>; remote = cookie_remote (ul_http U) (ul_tokens U) response in
            case connect remote of
              Err _ \<Rightarrow> Returns s1
            | Ok c \<Rightarrow> Returns (s1\<lparr>rv_tunnels := rv_tunnels s @ [(remote, c)]\<rparr>)))"

record ('t, 'snd, 'e, 'c, 'f) reverse_input =
  ri_lib :: "('t, 'snd, 'e) upgrade_lib"
  ri_pooled :: "('t option, 'e) result"
  ri_request_id :: u128
  ri_connect :: "remote_addr option \<Rightarrow> ('c, 'f) result"

fun run_reverse_tunnel ::
  "('conn, 'sys) ws_client_config \<Rightarrow> duration \<Rightarrow> remote_addr \<Rightarrow> ('t, 'snd, 'e, 'c, 'f) reverse_input list
   \<Rightarrow> 'c reverse_client \<Rightarrow> 'c reverse_client run" where
  "run_reverse_tunnel cfg m remote [] s = Returns s"
| "run_reverse_tunnel cfg m remote (i # is) s =
     run_then (reverse_round (ri_lib i) cfg m remote (ri_pooled i) (ri_request_id i) (ri_connect i) s)
       (run_reverse_tunnel cfg m remote is)"

section \<open>The client\<close>

record ('ech, 'sys) ws_client =
  wc_config :: "('ech client_tls, 'sys) ws_client_config"
  wc_min_idle :: u32
  wc_connection_timeout :: duration
  wc_reverse_max_backoff :: duration
  wc_reloader :: "'ech client_reload option"

datatype 'w client_new_error = ReloaderError 'w | PoolBuildError 'w

text \<open>\<open>build\<close> is the start of the pool, which may wait for its idle connections.\<close>

definition ws_client_new ::
  "'w watch_lib \<Rightarrow> (('ech client_tls, 'sys) ws_client_config \<Rightarrow> u32 \<Rightarrow> duration \<Rightarrow> (unit, 'w) result)
   \<Rightarrow> ('ech client_tls, 'sys) ws_client_config \<Rightarrow> u32 \<Rightarrow> duration \<Rightarrow> duration \<Rightarrow> (('ech, 'sys) ws_client, 'w client_new_error) result" where
  "ws_client_new W build cfg connection_min_idle connection_retry_max_backoff reverse_max_backoff =
     and_then (map_err ReloaderError (new_for_client W cfg)) (\<lambda>reloader.
     and_then (map_err PoolBuildError (build cfg connection_min_idle connection_retry_max_backoff)) (\<lambda>_.
       Ok \<lparr>wc_config = cfg, wc_min_idle = connection_min_idle, wc_connection_timeout = connection_retry_max_backoff,
           wc_reverse_max_backoff = reverse_max_backoff, wc_reloader = reloader\<rparr>))"

section \<open>Properties\<close>

text \<open>Bytes that were read ahead come first, and a read with room makes progress on them.\<close>

lemma transport_read_ahead:
  assumes "transport_poll_read n inner s = (s', r)"
  shows "if th_buf s = [] then s' = s \<and> r = inner
    else \<exists>bs. r = Ready (Ok bs) \<and> bs @ th_buf s' = th_buf s \<and> (0 < n \<longrightarrow> bs \<noteq> []) \<and> length bs \<le> n"
  using assms by (auto simp: transport_poll_read_def Let_def)

lemma ws_request_encodable:
  "jwt_encodable (ra_protocol dest) \<Longrightarrow> \<exists>r. ws_request H J f key cfg u dest = Returns r"
  by (simp add: ws_request_def tunnel_to_jwt_token_encodable)

lemma http2_request_encodable:
  "jwt_encodable (ra_protocol dest) \<Longrightarrow> \<exists>r. http2_request H J f cfg u dest = Returns r"
  by (simp add: http2_request_def tunnel_to_jwt_token_encodable split: prod.split)

lemma server_connect_returns:
  assumes "jwt_encodable (ra_protocol dest)" "pooled \<noteq> Ok None"
  shows "\<exists>r. server_connect U cfg pooled u dest = Returns r \<and> (\<forall>w resp. r = Ok (w, resp) \<longrightarrow> fresh_writer w)"
proof -
  have pooled: "(\<exists>e. pooled = Err e) \<or> (\<exists>t. pooled = Ok (Some t))" using assms(2) by (metis not_Some_eq result.exhaust)
  obtain q q' where "ws_request (ul_http U) (ul_tokens U) (ul_read_file U) (ul_key U) cfg u dest = Returns q"
    "http2_request (ul_http U) (ul_tokens U) (ul_read_file U) cfg u dest = Returns q'"
    using ws_request_encodable http2_request_encodable assms(1) by metis
  then have "\<exists>r. websocket_connect U cfg pooled u dest = Returns r" "\<exists>r. http2_connect U cfg pooled u dest = Returns r"
    using pooled by (auto simp: websocket_connect_def http2_connect_def take_transport_def split: result.split)
  then show ?thesis
    by (cases "ta_scheme (cc_remote_addr cfg)") (auto simp: server_connect_def fresh_writer_def result_simps)
qed


section \<open>The backoff of reverse tunnels\<close>

definition fails :: "('conn, 'sys) ws_client_config \<Rightarrow> remote_addr \<Rightarrow> ('t, 'snd, 'e, 'c, 'f) reverse_input \<Rightarrow> bool" where
  "fails cfg remote i \<longleftrightarrow> (\<exists>e. server_connect (ri_lib i) cfg (ri_pooled i) (ri_request_id i) remote = Returns (Err e))"

definition backoff :: "duration \<Rightarrow> nat \<Rightarrow> duration" where
  "backoff m k = (if k = 0 then from_secs 1 else min (2 ^ k * from_secs 1) m)"

lemma backoff_Suc: "min (backoff m k * 2) m = backoff m (Suc k)"
  by (auto simp: backoff_def min_def)

lemma reverse_failures:
  assumes "\<forall>i \<in> set is. fails cfg remote i" "rv_delay s = backoff m k"
  shows "run_reverse_tunnel cfg m remote is s = Returns (s\<lparr>rv_delay := backoff m (k + length is),
     rv_sleeps := rv_sleeps s @ map (backoff m) [k..<k + length is]\<rparr>)"
  using assms
proof (induction "is" arbitrary: s k)
  case (Cons i "is")
  have "reverse_round (ri_lib i) cfg m remote (ri_pooled i) (ri_request_id i) (ri_connect i) s
      = Returns (s\<lparr>rv_delay := backoff m (Suc k), rv_sleeps := rv_sleeps s @ [backoff m k]\<rparr>)"
    using Cons.prems by (auto simp: reverse_round_def reconnect_delay_def fails_def backoff_Suc)
  then show ?case
    using Cons.IH [of "s\<lparr>rv_delay := backoff m (Suc k), rv_sleeps := rv_sleeps s @ [backoff m k]\<rparr>" "Suc k"] Cons.prems(1)
    by (simp add: upt_conv_Cons del: upt_Suc)
qed (simp add: upt_conv_Nil)

lemma reverse_round_delay:
  assumes "reverse_round U cfg m remote pooled u conn s = Returns s'" "\<exists>k. rv_delay s = backoff m k"
    "set (rv_sleeps s) \<subseteq> range (backoff m)"
  shows "(\<exists>k. rv_delay s' = backoff m k) \<and> set (rv_sleeps s') \<subseteq> range (backoff m)"
proof -
  obtain r where r: "server_connect U cfg pooled u remote = Returns r"
    using assms(1) by (auto simp: reverse_round_def result_simps)
  have f: "first_delay = backoff m 0" by (simp add: first_delay_def backoff_def)
  show ?thesis
  proof (cases r)
    case (Err e)
    then show ?thesis using assms r backoff_Suc [of m]
      by (auto simp: reverse_round_def reconnect_delay_def)
  next
    case (Ok x)
    then show ?thesis using assms r f
      by (cases x) (auto simp: reverse_round_def Let_def split: result.split_asm)
  qed
qed

lemma run_reverse_delays:
  assumes "run_reverse_tunnel cfg m remote is s = Returns s'" "\<exists>k. rv_delay s = backoff m k"
    "set (rv_sleeps s) \<subseteq> range (backoff m)"
  shows "set (rv_sleeps s') \<subseteq> range (backoff m)"
  using assms
proof (induction "is" arbitrary: s)
  case (Cons i "is")
  obtain s1 where "reverse_round (ri_lib i) cfg m remote (ri_pooled i) (ri_request_id i) (ri_connect i) s = Returns s1"
    "run_reverse_tunnel cfg m remote is s1 = Returns s'"
    using Cons.prems(1) by (auto simp: result_simps)
  then show ?case using Cons.IH [of s1] reverse_round_delay Cons.prems(2, 3) by blast
qed simp


section \<open>A concrete client\<close>

definition demo_upgrade :: "jwt_tunnel_config \<Rightarrow> (unit, unit, string) upgrade_lib" where
  "demo_upgrade jwt =
     \<lparr>ul_http = demo_http, ul_tokens = demo_tokens jwt, ul_read_file = (\<lambda>_. None), ul_key = ''key'',
      ul_ws_handshake = (\<lambda>_ _. Ok \<lparr>rs_status = 101, rs_headers = [(''cookie'', ''e30.e30.e30'')], rs_body = []\<rparr>),
      ul_h2_handshake = (\<lambda>_. Ok ()), ul_send_request = (\<lambda>_ _. Ok \<lparr>rs_status = 200, rs_headers = [], rs_body = []\<rparr>)\<rparr>"


definition demo_failing :: "(unit, unit, string, unit, string) reverse_input" where
  "demo_failing =
     \<lparr>ri_lib = demo_upgrade demo_jwt, ri_pooled = Err ''timeout'', ri_request_id = 7, ri_connect = (\<lambda>_. Ok ())\<rparr>"

lemma demo_fails: "fails demo_client demo_dest demo_failing"
  by (simp add: fails_def demo_failing_def server_connect_def demo_client_def websocket_connect_def)


end
