(* ===== verification/Startup.thy ===== *)
theory Startup
  imports Cli_Args Serve Client "HOL-Library.AList"
begin

text \<open>
  The start of a client and of a server from their arguments (\<open>lib.rs\<close>).  The environment holds the
  libraries and the answers of the system; \<open>ss_aws_lc\<close> is the feature \<open>aws-lc-rs\<close>.
\<close>

section \<open>Environment\<close>

text \<open>The listeners of the forward tunnels, with the arguments of their constructors.\<close>

datatype forward_listener =
    ListenTcp socket_addr "host \<times> u16" bool
  | ListenTproxyTcp socket_addr bool
  | ListenUnix path "host \<times> u16" bool
  | ListenTproxyUdp socket_addr "duration option"
  | ListenUdp socket_addr "host \<times> u16" "duration option"
  | ListenSocks5 socket_addr "duration option" "credentials option"
  | ListenHttpProxy socket_addr "duration option" "credentials option" bool
  | ListenStdio "host \<times> u16" bool
  | ListenTunnelStdio "host \<times> u16" bool "duration option"

record ('sys, 'ech, 'e) startup_env =
  ss_tls :: "('ech, 'e) tls_lib"
  ss_http :: http_lib
  ss_url :: "string \<Rightarrow> url option"
  ss_set_username :: "url \<Rightarrow> string \<Rightarrow> url option"
  ss_set_password :: "url \<Rightarrow> string option \<Rightarrow> url option"
  ss_host_parse :: "string \<Rightarrow> host option"
  ss_host_to_string :: "host \<Rightarrow> string"
  ss_system_conf :: "'sys option"
  ss_dns :: "('sys, 'ech, 'e) dns_lib"
  ss_path_exists :: "path \<Rightarrow> bool"
  ss_aws_lc :: bool
  ss_socket_addrs :: "url \<Rightarrow> u16 \<Rightarrow> (socket_addr list, 'e) result"
  ss_embedded_certificate :: "cert list \<times> private_key"
  ss_listen :: "forward_listener \<Rightarrow> (unit, 'e) result"
  ss_watch :: "'e watch_lib"
  ss_pool_build :: "('ech client_tls, 'sys) ws_client_config \<Rightarrow> u32 \<Rightarrow> duration \<Rightarrow> (unit, 'e) result"

datatype 'e start_error =
    InvalidHttpProxy
  | CannotSetLogin
  | CannotSetPassword
  | EchNotSupported
  | EchLookup 'e
  | InvalidHostHeader
  | CannotBind 'e
  | CannotListen 'e
  | ClientSetup "'e client_new_error"

section \<open>The outgoing HTTP proxy\<close>

definition mk_http_proxy ::
  "('sys, 'ech, 'e) startup_env \<Rightarrow> string option \<Rightarrow> string option \<Rightarrow> string option \<Rightarrow> (url option, 'e start_error) result" where
  "mk_http_proxy E http_proxy proxy_login proxy_password =
     (case http_proxy of
        None \<Rightarrow> Ok None
      | Some proxy \<Rightarrow>
          and_then (ok_or InvalidHttpProxy
            (ss_url E (if starts_with ''http://'' proxy then proxy else ''http://'' @ proxy))) (\<lambda>u0.
          and_then (case proxy_login of
                      None \<Rightarrow> Ok u0
                    | Some login \<Rightarrow> ok_or CannotSetLogin (ss_set_username E u0 login)) (\<lambda>u1.
          and_then (case proxy_password of
                      None \<Rightarrow> Ok u1
                    | Some password \<Rightarrow> ok_or CannotSetPassword (ss_set_password E u1 (Some password))) (\<lambda>u2.
            Ok (Some u2)))))"

section \<open>The client\<close>

definition unwrap_ok :: "string \<Rightarrow> ('a, 'e) result \<Rightarrow> 'a run" where
  "unwrap_ok m r = (case r of Ok x \<Rightarrow> Returns x | Err _ \<Rightarrow> Panics m)"

text \<open>Continue with the value of a fallible step, or return its error.\<close>

definition try_then :: "('a, 'e) result \<Rightarrow> ('a \<Rightarrow> ('b, 'e) result run) \<Rightarrow> ('b, 'e) result run" where
  "try_then r f = (case r of Ok x \<Rightarrow> f x | Err e \<Rightarrow> Returns (Err e))"

definition client_certificate ::
  "('sys, 'ech, 'e) startup_env \<Rightarrow> client_args \<Rightarrow> (cert list option \<times> private_key option) run" where
  "client_certificate E args =
     (case (ca_tls_certificate args, ca_tls_private_key args) of
        (Some cert, Some key) \<Rightarrow>
          run_then (unwrap_ok ''Cannot load client TLS certificate (mTLS)'' (load_certificates_from_pem (ss_tls E) cert)) (\<lambda>c.
          run_then (unwrap_ok ''Cannot load client TLS private key (mTLS)'' (load_private_key_from_file (ss_tls E) key)) (\<lambda>k.
            Returns (Some c, Some k)))
      | _ \<Rightarrow> Returns (None, None))"

definition upgrade_path_prefix :: "('sys, 'ech, 'e) startup_env \<Rightarrow> client_args \<Rightarrow> cert list option \<Rightarrow> string" where
  "upgrade_path_prefix E args certs =
     (if ca_http_upgrade_path_prefix args = DEFAULT_CLIENT_UPGRADE_PATH_PREFIX
      then unwrap_or (ca_http_upgrade_path_prefix args) (Option.bind certs (cert_cn (ss_tls E)))
      else ca_http_upgrade_path_prefix args)"

definition client_ech ::
  "('sys, 'ech, 'e) startup_env \<Rightarrow> client_args \<Rightarrow> 'sys dns_resolver \<Rightarrow> ('ech option, 'e start_error) result run" where
  "client_ech E args dns =
     (if ca_tls_ech_enable args then
        (if \<not> ss_aws_lc E then Returns (Err EchNotSupported)
         else run_then (expect ''called `Option::unwrap()` on a `None` value'' (url_host (ca_remote_addr args))) (\<lambda>h.
           Returns (map_err EchLookup (lookup_ech_config (ss_dns E) dns h))))
      else Returns (Ok None))"

definition client_tls_config ::
  "('sys, 'ech, 'e) startup_env \<Rightarrow> client_args \<Rightarrow> transport_scheme \<Rightarrow> 'sys dns_resolver \<Rightarrow> cert list option \<Rightarrow> private_key option
   \<Rightarrow> ('ech client_tls tls_client_config option, 'e start_error) result run" where
  "client_tls_config E args scheme dns certs key =
     (if scheme \<in> {Ws, Http} then Returns (Ok None)
      else run_then (client_ech E args dns) (\<lambda>ech. try_then ech (\<lambda>ech_config.
        run_then (unwrap_ok ''Cannot create tls connector''
          (tls_connector_new (ss_tls E) (ca_tls_verify_certificate args) (alpn_protocols scheme)
             (\<not> ca_tls_sni_disable args) ech_config certs key)) (\<lambda>connector.
          Returns (Ok (Some
            \<lparr>tls_sni_disabled = ca_tls_sni_disable args, tls_sni_override = ca_tls_sni_override args,
             tls_verify_certificate = ca_tls_verify_certificate args, tls_connector = connector,
             tls_certificate_path = ca_tls_certificate args, tls_key_path = ca_tls_private_key args\<rparr>))))))"

definition host_header :: "('sys, 'ech, 'e) startup_env \<Rightarrow> client_args \<Rightarrow> (string, 'e start_error) result run" where
  "host_header E args =
     (case find (\<lambda>h. fst h = ''host'') (ca_http_headers args) of
        Some (_, v) \<Rightarrow> Returns (Ok v)
      | None \<Rightarrow>
          run_then (expect ''called `Option::unwrap()` on a `None` value'' (url_host (ca_remote_addr args))) (\<lambda>h.
            let text = (case url_port_or_known_default (ca_remote_addr args) of
                          None \<Rightarrow> ss_host_to_string E h
                        | Some port \<Rightarrow>
                            if port = 80 \<or> port = 443 then ss_host_to_string E h
                            else ss_host_to_string E h @ '':'' @ show_u16 port)
            in Returns (if h_value_ok (ss_http E) text then Ok text else Err InvalidHostHeader)))"

text \<open>Headers collected into a map: the last of several equal names counts.\<close>

definition collect_headers :: "(string \<times> string) list \<Rightarrow> (string \<times> string) list" where
  "collect_headers hs = fold (\<lambda>(k, v) m. AList.update k v m) (filter (\<lambda>h. fst h \<noteq> ''host'') hs) []"

definition ping_frequency :: "duration option \<Rightarrow> duration option" where
  "ping_frequency d =
     (case or_else d (Some (from_secs 30)) of
        None \<Rightarrow> None
      | Some t \<Rightarrow> if 0 < as_secs t then Some t else None)"

definition client_addr_of ::
  "client_args \<Rightarrow> 'tls option \<Rightarrow> 'tls transport_addr run" where
  "client_addr_of args tls =
     run_then (expect ''invalid scheme'' (scheme_from_str (url_scheme (ca_remote_addr args)))) (\<lambda>scheme.
     run_then (expect ''no host'' (url_host (ca_remote_addr args))) (\<lambda>h.
     run_then (expect ''no port'' (url_port_or_known_default (ca_remote_addr args))) (\<lambda>port.
       expect ''no tls'' (transport_addr_new scheme h port tls))))"

definition create_client ::
  "('sys, 'ech, 'e) startup_env \<Rightarrow> client_args
   \<Rightarrow> (('ech, 'sys) ws_client, 'e start_error) result run" where
  "create_client E args =
     run_then (client_certificate E args) (\<lambda>(certs, key).
     try_then (mk_http_proxy E (ca_http_proxy args) (ca_http_proxy_login args) (ca_http_proxy_password args)) (\<lambda>http_proxy.
     run_then (unwrap_ok ''cannot create dns resolver''
       (new_from_urls (ss_host_parse E) (ss_system_conf E) (ca_dns_resolver args) http_proxy
          (ca_socket_so_mark args) (\<not> ca_dns_resolver_prefer_ipv4 args))) (\<lambda>dns_resolver.
     run_then (expect ''invalid scheme in server url'' (scheme_from_str (url_scheme (ca_remote_addr args)))) (\<lambda>scheme.
     run_then (client_tls_config E args scheme dns_resolver certs key) (\<lambda>tls_res. try_then tls_res (\<lambda>tls.
     run_then (host_header E args) (\<lambda>hh. try_then hh (\<lambda>host_header.
     if (case ca_http_headers_file args of Some p \<Rightarrow> \<not> ss_path_exists E p | None \<Rightarrow> False)
     then Panics ''http headers file does not exists''
     else run_then (client_addr_of args tls) (\<lambda>addr.
       Returns (map_err ClientSetup (ws_client_new (ss_watch E) (ss_pool_build E)
         \<lparr>cc_remote_addr = addr, cc_so_mark = ca_socket_so_mark args,
          cc_path_prefix = upgrade_path_prefix E args certs,
          cc_credentials = ca_http_upgrade_credentials args, cc_headers = collect_headers (ca_http_headers args),
          cc_headers_file = ca_http_headers_file args, cc_header_host = host_header,
          cc_timeout_connect = from_secs 10, cc_ping_frequency = ping_frequency (ca_websocket_ping_frequency args),
          cc_mask_frame = ca_websocket_mask_frame args, cc_http_proxy = http_proxy,
          cc_dns_resolver = dns_resolver\<rparr>
         (ca_connection_min_idle args) (ca_connection_retry_max_backoff args)
         (ca_reverse_tunnel_connection_retry_max_backoff args))))))))))))"

section \<open>The tunnels of a client\<close>

datatype 'sys reverse_connector =
    ReverseByTcp "'sys tunnel_connector"
  | ReverseByUdp "'sys tunnel_connector"
  | ReverseBySocks5 "'sys socks5_connector"

datatype 'sys started =
    RunReverse remote_addr "'sys reverse_connector"
  | RunListener forward_listener

definition dest_connector :: "('conn, 'sys) ws_client_config \<Rightarrow> local_to_remote \<Rightarrow> 'sys tunnel_connector" where
  "dest_connector cfg tunnel =
     \<lparr>tc_host = fst (lr_remote tunnel), tc_port = snd (lr_remote tunnel), tc_so_mark = cc_so_mark cfg,
      tc_timeout = cc_timeout_connect cfg, tc_dns = cc_dns_resolver cfg\<rparr>"

definition start_reverse :: "('conn, 'sys) ws_client_config \<Rightarrow> local_to_remote \<Rightarrow> 'sys started list run" where
  "start_reverse cfg tunnel =
     (case to_host_port (lr_local tunnel) of (h, p) \<Rightarrow>
      let remote = \<lparr>ra_protocol = lr_protocol tunnel, ra_host = h, ra_port = p\<rparr>; c = dest_connector cfg tunnel in
      case lr_protocol tunnel of
        ReverseTcp \<Rightarrow> Returns [RunReverse remote (ReverseByTcp c)]
      | ReverseUdp _ \<Rightarrow> Returns [RunReverse remote (ReverseByUdp c)]
      | ReverseSocks5 _ _ \<Rightarrow>
          Returns [RunReverse remote (ReverseBySocks5
            \<lparr>sc_so_mark = cc_so_mark cfg, sc_timeout = cc_timeout_connect cfg, sc_dns = cc_dns_resolver cfg\<rparr>)]
      | ReverseHttpProxy _ _ \<Rightarrow> Returns [RunReverse remote (ReverseByTcp c)]
      | ReverseUnix _ \<Rightarrow> Returns [RunReverse remote (ReverseByTcp c)]
      | Unix _ _ \<Rightarrow> Panics ''Invalid protocol for reverse tunnel''
      | _ \<Rightarrow> Returns [])"

text \<open>A tunnel over standard input runs to its end inside the loop and the process exits.\<close>

datatype 'sys client_run = Tunnels "'sys started list" | ExitedAfter "'sys started list" forward_listener

definition listener_of :: "local_to_remote \<Rightarrow> forward_listener option" where
  "listener_of t =
     (case lr_protocol t of
        Tcp proxy_protocol \<Rightarrow> Some (ListenTcp (lr_local t) (lr_remote t) proxy_protocol)
      | TProxyTcp \<Rightarrow> Some (ListenTproxyTcp (lr_local t) False)
      | Unix path proxy_protocol \<Rightarrow> Some (ListenUnix path (lr_remote t) proxy_protocol)
      | TProxyUdp timeout \<Rightarrow> Some (ListenTproxyUdp (lr_local t) timeout)
      | Udp timeout \<Rightarrow> Some (ListenUdp (lr_local t) (lr_remote t) timeout)
      | Socks5 timeout credentials \<Rightarrow> Some (ListenSocks5 (lr_local t) timeout credentials)
      | HttpProxy timeout credentials proxy_protocol \<Rightarrow>
          Some (ListenHttpProxy (lr_local t) timeout credentials proxy_protocol)
      | Stdio proxy_protocol \<Rightarrow> Some (ListenStdio (lr_remote t) proxy_protocol)
      | TunnelStdio proxy_protocol timeout \<Rightarrow> Some (ListenTunnelStdio (lr_remote t) proxy_protocol timeout)
      | _ \<Rightarrow> None)"

fun on_stdio :: "forward_listener \<Rightarrow> bool" where
  "on_stdio (ListenStdio _ _) = True"
| "on_stdio (ListenTunnelStdio _ _ _) = True"
| "on_stdio _ = False"

fun start_forward ::
  "('sys, 'ech, 'e) startup_env \<Rightarrow> 'sys started list \<Rightarrow> local_to_remote list \<Rightarrow> ('sys client_run, 'e start_error) result" where
  "start_forward E ts [] = Ok (Tunnels ts)"
| "start_forward E ts (tunnel # rest) =
     (case listener_of tunnel of
        None \<Rightarrow> start_forward E ts rest
      | Some l \<Rightarrow>
         (case ss_listen E l of
            Err e \<Rightarrow> Err (CannotListen e)
          | Ok _ \<Rightarrow>
              if on_stdio l then Ok (ExitedAfter ts l)
              else start_forward E (ts @ [RunListener l]) rest))"

fun start_reverses :: "('conn, 'sys) ws_client_config \<Rightarrow> local_to_remote list \<Rightarrow> 'sys started list run" where
  "start_reverses cfg [] = Returns []"
| "start_reverses cfg (t # rest) =
     run_then (start_reverse cfg t) (\<lambda>s. run_then (start_reverses cfg rest) (\<lambda>ss. Returns (s @ ss)))"

definition create_client_tunnels ::
  "('sys, 'ech, 'e) startup_env \<Rightarrow> client_args \<Rightarrow> ('sys client_run, 'e start_error) result run" where
  "create_client_tunnels E args =
     run_then (create_client E (args\<lparr>ca_remote_to_local := [], ca_local_to_remote := []\<rparr>)) (\<lambda>res. try_then res (\<lambda>client.
     run_then (start_reverses (wc_config client) (ca_remote_to_local args)) (\<lambda>reverse.
       Returns (start_forward E reverse (ca_local_to_remote args)))))"

section \<open>The server\<close>

definition trim_matches :: "(char \<Rightarrow> bool) \<Rightarrow> string \<Rightarrow> string" where
  "trim_matches P s = rev (dropWhile P (rev (dropWhile P s)))"

definition restrict_to_of :: "string \<Rightarrow> (string \<times> u16) run" where
  "restrict_to_of x =
     run_then (expect ''Invalid restrict-to format'' (rsplit_once CHR '':'' x)) (\<lambda>(host, port).
     run_then (expect ''Invalid restrict-to port format'' (parse_u16 port)) (\<lambda>p.
       Returns (trim_matches (\<lambda>c. c \<in> {CHR ''['', CHR '']''}) host, p)))"

fun run_map :: "('a \<Rightarrow> 'b run) \<Rightarrow> 'a list \<Rightarrow> 'b list run" where
  "run_map f [] = Returns []"
| "run_map f (x # xs) = run_then (f x) (\<lambda>y. run_then (run_map f xs) (\<lambda>ys. Returns (y # ys)))"

definition server_tls_config :: "('sys, 'ech, 'e) startup_env \<Rightarrow> server_args \<Rightarrow> tls_server_config option run" where
  "server_tls_config E args =
     (if url_scheme (sa_remote_addr args) = ''wss'' then
        run_then (case sa_tls_certificate args of
                    Some p \<Rightarrow> unwrap_ok ''Cannot load tls certificate'' (load_certificates_from_pem (ss_tls E) p)
                  | None \<Rightarrow> Returns (fst (ss_embedded_certificate E))) (\<lambda>cert.
        run_then (case sa_tls_private_key args of
                    Some p \<Rightarrow> unwrap_ok ''Cannot load tls private key'' (load_private_key_from_file (ss_tls E) p)
                  | None \<Rightarrow> Returns (snd (ss_embedded_certificate E))) (\<lambda>key.
        run_then (case sa_tls_client_ca_certs args of
                    Some p \<Rightarrow> run_then (unwrap_ok ''Cannot load client CA certificate (mTLS)''
                                (load_certificates_from_pem (ss_tls E) p)) (\<lambda>c. Returns (Some c))
                  | None \<Rightarrow> Returns None) (\<lambda>ca.
          Returns (Some
            \<lparr>ts_certificate = cert, ts_key = key, ts_client_ca_certificates = ca,
             ts_certificate_path = sa_tls_certificate args, ts_key_path = sa_tls_private_key args,
             ts_client_ca_certs_path = sa_tls_client_ca_certs args\<rparr>))))
      else Returns None)"

text \<open>\<open>config_file\<close> is \<open>RestrictionsRules::from_config_file\<close>.\<close>

definition server_rules ::
  "('re, 'net) match_lib \<Rightarrow> (path \<Rightarrow> (('re, 'net) restrictions_rules, 'f) result) \<Rightarrow> server_args
   \<Rightarrow> ('re, 'net) restrictions_rules run" where
  "server_rules L config_file args =
     (case sa_restrict_config args of
        Some path \<Rightarrow> unwrap_ok ''Cannot parse restriction file'' (config_file path)
      | None \<Rightarrow>
          run_then (run_map restrict_to_of (unwrap_or [] (sa_restrict_to args))) (\<lambda>restrict_to.
          run_then (from_path_prefix L (unwrap_or [] (sa_restrict_http_upgrade_path_prefix args)) restrict_to) (\<lambda>r.
            unwrap_ok ''Cannot convert restriction rules from path-prefix and restric-to'' r)))"

definition run_server_impl ::
  "('sys, 'ech, 'e) startup_env \<Rightarrow> ('re, 'net) match_lib \<Rightarrow> (path \<Rightarrow> (('re, 'net) restrictions_rules, 'f) result) \<Rightarrow> server_args
   \<Rightarrow> ('sys ws_server_config \<times> ('re, 'net) restrictions_rules, 'e start_error) result run" where
  "run_server_impl E L config_file args =
     run_then (server_tls_config E args) (\<lambda>tls.
     run_then (server_rules L config_file args) (\<lambda>rules.
     try_then (mk_http_proxy E (sa_http_proxy args) (sa_http_proxy_login args) (sa_http_proxy_password args)) (\<lambda>http_proxy.
     try_then (map_err CannotBind (ss_socket_addrs E (sa_remote_addr args) 8080)) (\<lambda>addrs.
     run_then (case addrs of [] \<Rightarrow> Panics ''index out of bounds'' | a # _ \<Rightarrow> Returns a) (\<lambda>bind.
     run_then (unwrap_ok ''Cannot create DNS resolver''
       (new_from_urls (ss_host_parse E) (ss_system_conf E) (sa_dns_resolver args) None
          (sa_socket_so_mark args) (\<not> sa_dns_resolver_prefer_ipv4 args))) (\<lambda>dns_resolver.
       Returns (Ok
         (\<lparr>ws_so_mark = sa_socket_so_mark args, ws_bind = bind,
           ws_ping_frequency = ping_frequency (sa_websocket_ping_frequency args), ws_timeout_connect = from_secs 10,
           ws_mask_frame = sa_websocket_mask_frame args, ws_tls = tls, ws_dns_resolver = dns_resolver,
           ws_restriction_config = sa_restrict_config args, ws_http_proxy = http_proxy,
           ws_remote_server_idle_timeout = sa_remote_to_local_server_idle_timeout args,
           ws_tunnel_resolver = sa_tunnel_resolver args\<rparr>,
          rules))))))))"

section \<open>Properties of the start\<close>

lemma try_then_Ok [result_simps]:
  "try_then r f = Returns (Ok y) \<longleftrightarrow> (\<exists>x. r = Ok x \<and> f x = Returns (Ok y))"
  by (cases r) (auto simp: try_then_def)

lemma unwrap_ok_Returns [result_simps]: "unwrap_ok m r = Returns x \<longleftrightarrow> r = Ok x"
  by (cases r) (auto simp: unwrap_ok_def)

text \<open>What a parsed argument starts.\<close>

lemma start_reverse_one: "is_reverse_tunnel (lr_protocol t) \<Longrightarrow> \<exists>s. start_reverse cfg t = Returns [s]"
  by (cases "lr_protocol t") (auto simp: start_reverse_def Let_def split: prod.split)

lemma listener_of_forward: "\<not> is_reverse_tunnel (lr_protocol t) \<Longrightarrow> \<exists>l. listener_of t = Some l"
  by (cases "lr_protocol t") (auto simp: listener_of_def)

lemma start_reverses_all:
  "\<forall>t \<in> set ts. is_reverse_tunnel (lr_protocol t) \<Longrightarrow>
     \<exists>ss. start_reverses cfg ts = Returns ss \<and> list_all2 (\<lambda>t s. start_reverse cfg t = Returns [s]) ts ss"
proof (induction ts)
  case (Cons t ts)
  obtain s where s: "start_reverse cfg t = Returns [s]" using start_reverse_one Cons.prems by (metis list.set_intros(1))
  obtain ss where "start_reverses cfg ts = Returns ss" "list_all2 (\<lambda>t s. start_reverse cfg t = Returns [s]) ts ss"
    using Cons by auto
  then show ?case using s by (intro exI [of _ "s # ss"]) simp
qed simp

lemma start_forward_all:
  assumes "\<forall>t \<in> set ts. \<exists>l. listener_of t = Some l \<and> \<not> on_stdio l \<and> ss_listen E l = Ok ()"
  shows "\<exists>ls. start_forward E acc ts = Ok (Tunnels (acc @ map RunListener ls)) \<and> map Some ls = map listener_of ts"
  using assms
proof (induction ts arbitrary: acc)
  case (Cons t ts)
  obtain l where l: "listener_of t = Some l" "\<not> on_stdio l" "ss_listen E l = Ok ()" using Cons.prems by auto
  obtain ls where "start_forward E (acc @ [RunListener l]) ts = Ok (Tunnels ((acc @ [RunListener l]) @ map RunListener ls))"
    "map Some ls = map listener_of ts" using Cons.IH [of "acc @ [RunListener l]"] Cons.prems by auto
  then show ?case using l by (intro exI [of _ "l # ls"]) simp
qed simp


section \<open>Properties of the server's start\<close>

text \<open>The textual forms of a \<open>--restrict-to\<close> argument.\<close>

definition restrict_text :: "string \<times> u16 \<Rightarrow> string" where
  "restrict_text hp =
     (if CHR '':'' \<in> set (fst hp) then ''['' @ fst hp @ '']:'' @ show_u16 (snd hp) else fst hp @ '':'' @ show_u16 (snd hp))"

lemma trim_matches_none:
  assumes "\<forall>c \<in> set s. \<not> P c" "P a" "P b"
  shows "trim_matches P s = s" "trim_matches P (a # s @ [b]) = s"
proof -
  have d: "dropWhile P t = t" if "\<forall>c \<in> set t. \<not> P c" for t using that by (cases t) auto
  show "trim_matches P s = s" using d [of s] d [of "rev s"] assms(1) by (simp add: trim_matches_def)
  have "dropWhile P (s @ [b]) = (if s = [] then [] else s @ [b])" using assms by (cases s) auto
  then show "trim_matches P (a # s @ [b]) = s"
    using assms d [of "rev s"] by (auto simp: trim_matches_def)
qed

lemma restrict_to_of_text:
  assumes "\<forall>c \<in> set h. c \<notin> {CHR ''['', CHR '']''}"
  shows "restrict_to_of (restrict_text (h, p)) = Returns (h, p)"
proof -
  have "CHR '':'' \<notin> set (show_u16 p)" by (rule show_u16_no_char) simp
  then have "rsplit_once CHR '':'' (restrict_text (h, p)) = Some (if CHR '':'' \<in> set h then ''['' @ h @ '']'' else h, show_u16 p)"
    by (auto simp: restrict_text_def rsplit_once_Some)
  then show ?thesis
    using trim_matches_none [of h "\<lambda>c. c \<in> {CHR ''['', CHR '']''}" "CHR ''[''" "CHR '']''"] assms
    by (simp add: restrict_to_of_def)
qed

lemma run_map_text:
  "\<forall>hp \<in> set hps. \<forall>c \<in> set (fst hp). c \<notin> {CHR ''['', CHR '']''} \<Longrightarrow>
     run_map restrict_to_of (map restrict_text hps) = Returns hps"
proof (induction hps)
  case (Cons hp hps)
  then show ?case using restrict_to_of_text [of "fst hp" "snd hp"] by simp
qed simp

lemma run_server_impl_rules:
  assumes "run_server_impl E L config_file args = Returns (Ok (cfg, rules))"
  shows "server_rules L config_file args = Returns rules"
  using assms by (auto simp: run_server_impl_def elim!: run_then_elim simp: result_simps)

text \<open>
  C7. A server started with \<open>--restrict-http-upgrade-path-prefix\<close> and \<open>--restrict-to\<close>, hosts and
  addresses written \<open>host:port\<close> or \<open>[address]:port\<close>, grants exactly the requests these options
  describe: the prefix is one of the listed ones, and the tunnel is a forward tunnel to one of the
  listed destinations; without a restriction of either kind, everything.
\<close>

theorem server_options_policy:
  assumes "match_lib_ok L" "run_server_impl E L config_file args = Returns (Ok (cfg, rules))"
    and "sa_restrict_config args = None"
    and "unwrap_or [] (sa_restrict_to args) = map restrict_text hps"
    and "\<forall>hp \<in> set hps. \<forall>c \<in> set (fst hp). c \<notin> {CHR ''['', CHR '']''}"
  shows "validate_tunnel L remote pp auth rules \<noteq> None \<longleftrightarrow>
    cli_policy (unwrap_or [] (sa_restrict_http_upgrade_path_prefix args)) hps pp remote"
proof -
  have "server_rules L config_file args = Returns rules" by (rule run_server_impl_rules [OF assms(2)])
  then have "from_path_prefix L (unwrap_or [] (sa_restrict_http_upgrade_path_prefix args)) hps = Returns (Ok rules)"
    using assms(3, 4) run_map_text [OF assms(5)] by (auto simp: server_rules_def result_simps)
  from from_path_prefix_grants [OF assms(1) this] show ?thesis .
qed

text \<open>Only the scheme \<open>wss\<close> turns TLS on, although \<open>https\<close> is accepted as the scheme of a server.\<close>

lemma https_server_without_tls:
  assumes "run_server_impl E L config_file args = Returns (Ok (cfg, rules))" "url_scheme (sa_remote_addr args) = ''https''"
  shows "ws_tls cfg = None"
  using assms by (auto simp: run_server_impl_def server_tls_config_def elim!: run_then_elim simp: result_simps)

text \<open>With a client certificate the default prefix is its common name, which is what the server demands.\<close>

lemma default_prefix_is_common_name:
  assumes "ca_http_upgrade_path_prefix args = DEFAULT_CLIENT_UPGRADE_PATH_PREFIX" "cert_cn (ss_tls E) certs = Some cn"
  shows "upgrade_path_prefix E args (Some certs) = cn"
  using assms by (simp add: upgrade_path_prefix_def)

section \<open>A concrete start\<close>

definition demo_url :: "string \<Rightarrow> url" where
  "demo_url scheme =
     \<lparr>url_scheme = scheme, url_host = Some (Domain ''example.com''), url_port = None, url_port_or_known_default = Some 80,
      url_username = [], url_password = None, url_query_pairs = [], url_text = scheme @ ''://example.com''\<rparr>"

definition demo_env :: "(unit, unit, string) startup_env" where
  "demo_env =
     \<lparr>ss_tls = demo_tls, ss_http = demo_http, ss_url = (\<lambda>_. None), ss_set_username = (\<lambda>u _. Some u),
      ss_set_password = (\<lambda>u _. Some u), ss_host_parse = (\<lambda>_. None), ss_host_to_string = t_host demo_text,
      ss_system_conf = None, ss_dns = demo_dns, ss_path_exists = (\<lambda>_. True), ss_aws_lc = True,
      ss_socket_addrs = (\<lambda>_ p. Ok [SocketAddrV4 0 p]), ss_embedded_certificate = ([[2]], [3]), ss_listen = (\<lambda>_. Ok ()),
      ss_watch = demo_watch, ss_pool_build = (\<lambda>_ _ _. Ok ())\<rparr>"

definition demo_forward :: local_to_remote where
  "demo_forward = \<lparr>lr_protocol = Tcp False, lr_local = SocketAddrV6 1 1212 0 0, lr_remote = (Domain ''google.com'', 443)\<rparr>"

definition demo_backward :: local_to_remote where
  "demo_backward = \<lparr>lr_protocol = ReverseTcp, lr_local = SocketAddrV6 1 1212 0 0, lr_remote = (Domain ''google.com'', 443)\<rparr>"

definition demo_client_args :: client_args where
  "demo_client_args =
     \<lparr>ca_local_to_remote = [demo_forward], ca_remote_to_local = [demo_backward], ca_socket_so_mark = None, ca_connection_min_idle = 0,
      ca_connection_retry_max_backoff = from_secs 300, ca_reverse_tunnel_connection_retry_max_backoff = from_secs 1,
      ca_tls_sni_override = None, ca_tls_sni_disable = False, ca_tls_ech_enable = False, ca_tls_verify_certificate = True,
      ca_http_proxy = None, ca_http_proxy_login = None, ca_http_proxy_password = None, ca_http_upgrade_path_prefix = ''v1'',
      ca_http_upgrade_credentials = None, ca_websocket_ping_frequency = None, ca_websocket_mask_frame = False,
      ca_http_headers = [], ca_http_headers_file = None, ca_remote_addr = demo_url ''ws'', ca_tls_certificate = None,
      ca_tls_private_key = None, ca_dns_resolver = [], ca_dns_resolver_prefer_ipv4 = False\<rparr>"

lemma demo_forward_parsed:
  "parse_tunnel_arg demo_arg_lib ''tcp://[::1]:1212:google.com:443'' = Ok demo_forward"
  "parse_reverse_tunnel_arg demo_arg_lib ''tcp://[::1]:1212:google.com:443'' = Ok demo_backward"
proof -
  have i: "parse_ipv6 ''::1'' = Some 1" and p: "show_u16 1212 = ''1212''" by code_simp+
  then show t: "parse_tunnel_arg demo_arg_lib ''tcp://[::1]:1212:google.com:443'' = Ok demo_forward"
    using bind_and_dest_text [of "BindV6 ''::1''" "V6 1", OF _ demo_dest_parsed, of "\<lambda>opt. Tcp (get_proxy_protocol opt)" 1212]
      split_scheme [of "''tcp''" "''[::1]:1212:google.com:443''"]
    by (simp add: parse_tunnel_arg_def demo_forward_def get_proxy_protocol_def)
  show "parse_reverse_tunnel_arg demo_arg_lib ''tcp://[::1]:1212:google.com:443'' = Ok demo_backward"
    unfolding parse_reverse_tunnel_arg_def t by (simp add: demo_forward_def demo_backward_def)
qed

definition demo_ws_client :: "(unit, unit) ws_client" where
  "demo_ws_client =
     \<lparr>wc_config =
        \<lparr>cc_remote_addr = AddrWs Ws (Domain ''example.com'') 80, cc_so_mark = None, cc_path_prefix = ''v1'',
         cc_credentials = None, cc_headers = [], cc_headers_file = None, cc_header_host = ''example.com'',
         cc_timeout_connect = from_secs 10, cc_ping_frequency = Some (from_secs 30), cc_mask_frame = False,
         cc_http_proxy = None, cc_dns_resolver = System\<rparr>,
      wc_min_idle = 0, wc_connection_timeout = from_secs 300, wc_reverse_max_backoff = from_secs 1, wc_reloader = None\<rparr>"

lemma demo_created:
  "create_client demo_env (demo_client_args\<lparr>ca_remote_to_local := [], ca_local_to_remote := []\<rparr>) = Returns (Ok demo_ws_client)"
proof -
  have "list_all visible ''example.com''" by code_simp
  then show ?thesis
    by (simp add: create_client_def demo_client_args_def client_certificate_def mk_http_proxy_def try_then_def new_from_urls_def
        demo_env_def unwrap_ok_def demo_url_def scheme_from_str_def client_tls_config_def host_header_def demo_text_def
        demo_http_def client_addr_of_def transport_addr_new_def ws_client_new_def new_for_client_def upgrade_path_prefix_def
        collect_headers_def ping_frequency_def demo_ws_client_def DEFAULT_CLIENT_UPGRADE_PATH_PREFIX_def)
qed


definition demo_server_args :: server_args where
  "demo_server_args =
     \<lparr>sa_remote_addr = demo_url ''wss'', sa_socket_so_mark = None, sa_websocket_ping_frequency = None,
      sa_websocket_mask_frame = False, sa_dns_resolver = [], sa_dns_resolver_prefer_ipv4 = False,
      sa_restrict_to = Some [''google.com:443'', ''10.0.0.1:22''], sa_restrict_http_upgrade_path_prefix = Some [''v1''],
      sa_restrict_config = None, sa_tls_certificate = None, sa_tls_private_key = None, sa_tls_client_ca_certs = None,
      sa_http_proxy = None, sa_http_proxy_login = None, sa_http_proxy_password = None,
      sa_remote_to_local_server_idle_timeout = from_secs 180, sa_tunnel_resolver = None\<rparr>"

lemma demo_server_runs:
  "\<exists>cfg. run_server_impl demo_env demo_lib (\<lambda>_. Err ''none'') demo_server_args = Returns (Ok (cfg, demo_rules))"
proof -
  have "run_map restrict_to_of (map restrict_text [(''google.com'', 443), (''10.0.0.1'', 22)])
      = Returns [(''google.com'', 443), (''10.0.0.1'', 22)]" by (rule run_map_text) auto
  moreover have "map restrict_text [(''google.com'', 443), (''10.0.0.1'', 22)] = [''google.com:443'', ''10.0.0.1:22'']" by code_simp
  ultimately show ?thesis
    using demo_rules_from_cli
    by (simp add: run_server_impl_def server_tls_config_def server_rules_def mk_http_proxy_def try_then_def new_from_urls_def
        unwrap_ok_def demo_server_args_def demo_env_def demo_url_def)
qed

theorem server_options_policy_witness:
  "\<exists>cfg. run_server_impl demo_env demo_lib (\<lambda>_. Err ''none'') demo_server_args = Returns (Ok (cfg, demo_rules)) \<and>
     (validate_tunnel demo_lib demo_remote ''v1'' None demo_rules \<noteq> None \<longleftrightarrow>
      cli_policy [''v1''] [(''google.com'', 443), (''10.0.0.1'', 22)] ''v1'' demo_remote)"
proof -
  obtain cfg where cfg: "run_server_impl demo_env demo_lib (\<lambda>_. Err ''none'') demo_server_args = Returns (Ok (cfg, demo_rules))"
    using demo_server_runs by blast
  have "map restrict_text [(''google.com'', 443), (''10.0.0.1'', 22)] = [''google.com:443'', ''10.0.0.1:22'']" by code_simp
  then show ?thesis
    using cfg server_options_policy [OF demo_lib_ok cfg, of "[(''google.com'', 443), (''10.0.0.1'', 22)]" demo_remote "''v1''" None]
    by (simp add: demo_server_args_def)
qed

end
