(* ===== verification/Udp_Server.thy ===== *)
theory Udp_Server
  imports Std_Net
begin

text \<open>
  The UDP server of \<open>protocols/udp/server.rs\<close>: one socket, shared by a server task that looks at the
  sender of the next datagram and by one stream per peer.  The server does not read: it wakes the
  stream of the sender, which reads the datagram from the shared socket, and waits until it has.
  A state is the receive queue of the socket, the map of peers, the streams with the two notifications
  each shares with the server, and the point the server task has reached; an event is one step of
  one task.  \<open>Notify\<close> and \<open>Interval\<close> of the runtime are arguments, with their documented behaviour as
  the hypotheses \<open>notify_laws\<close> and \<open>interval_laws\<close>.
\<close>

section \<open>The runtime's primitives\<close>

text \<open>
  A \<open>Notify\<close> together with the at most one \<open>Notified\<close> future that is outstanding for it: creating
  the future, \<open>enable\<close>, the two ways to notify, polling the future (ready futures are consumed) and
  dropping it.
\<close>

record 'n notify_ops =
  nt_new :: 'n
  nt_notified :: "'n \<Rightarrow> 'n"
  nt_enable :: "'n \<Rightarrow> 'n"
  nt_notify_one :: "'n \<Rightarrow> 'n"
  nt_notify_waiters :: "'n \<Rightarrow> 'n"
  nt_poll :: "'n \<Rightarrow> 'n \<times> bool"
  nt_drop :: "'n \<Rightarrow> 'n"

text \<open>
  What is relied on: \<open>v\<close> tells how many notifications wait to be received and whether a future is
  outstanding.  A permit is kept until a future takes it, a future receives a \<open>notify_waiters\<close> called
  after its creation, a future is ready exactly if there is a notification, and takes it.
\<close>

datatype signals = NoSignal | OneSignal | MoreSignals

definition notify_laws :: "'n notify_ops \<Rightarrow> ('n \<Rightarrow> signals \<times> bool) \<Rightarrow> bool" where
  "notify_laws N v \<longleftrightarrow>
     v (nt_new N) = (NoSignal, False) \<and>
     (\<forall>n c. v n = (c, False) \<longrightarrow> v (nt_notified N n) = (c, True)) \<and>
     (\<forall>n c. v n = (c, True) \<longrightarrow> v (nt_enable N n) = (c, True)) \<and>
     (\<forall>n. v n = (NoSignal, True) \<longrightarrow> v (nt_notify_waiters N n) = (OneSignal, True)) \<and>
     (\<forall>n f. v n = (NoSignal, f) \<longrightarrow> v (nt_notify_one N n) = (OneSignal, f)) \<and>
     (\<forall>n. fst (v (nt_notify_one N n)) \<noteq> NoSignal \<and> snd (v (nt_notify_one N n)) = snd (v n)) \<and>
     (\<forall>n. v n = (NoSignal, True) \<longrightarrow> \<not> snd (nt_poll N n) \<and> v (fst (nt_poll N n)) = (NoSignal, True)) \<and>
     (\<forall>n. v n = (OneSignal, True) \<longrightarrow> snd (nt_poll N n) \<and> v (fst (nt_poll N n)) = (NoSignal, False)) \<and>
     (\<forall>n. v n = (MoreSignals, True) \<longrightarrow> snd (nt_poll N n))"

text \<open>
  \<open>interval_at\<close> and \<open>poll_tick\<close>: an interval has a next deadline and a period that may not be zero;
  a tick is ready from the deadline on, and moves the deadline by one period.
\<close>

record 'v interval_ops =
  iv_at :: "duration \<Rightarrow> duration \<Rightarrow> 'v run"
  iv_poll :: "'v \<Rightarrow> duration \<Rightarrow> 'v \<times> bool"

definition interval_laws :: "'v interval_ops \<Rightarrow> ('v \<Rightarrow> duration) \<Rightarrow> ('v \<Rightarrow> duration) \<Rightarrow> bool" where
  "interval_laws I deadline period \<longleftrightarrow>
     (\<forall>start. \<exists>m. iv_at I start 0 = Panics m) \<and>
     (\<forall>start p. 0 < p \<longrightarrow> (\<exists>v. iv_at I start p = Returns v \<and> deadline v = start \<and> period v = p)) \<and>
     (\<forall>v now. snd (iv_poll I v now) = (deadline v \<le> now)) \<and>
     (\<forall>v now. period (fst (iv_poll I v now)) = period v) \<and>
     (\<forall>v now. deadline (fst (iv_poll I v now)) = (if deadline v \<le> now then deadline v + period v else deadline v))"

text \<open>\<open>Instant + Duration\<close> panics when the seconds leave the 64-bit range.\<close>

definition instant_add :: "duration \<Rightarrow> duration \<Rightarrow> duration run" where
  "instant_add now d =
     (if now + d < 2 ^ 63 * 10 ^ 9 then Returns (now + d)
      else Panics ''overflow when adding duration to instant'')"

section \<open>Streams and server\<close>

record 'n io_inner =
  has_data_to_read :: 'n
  has_read_data :: 'n

text \<open>
  A stream, and what it shares with the server (\<open>us_io\<close>).  \<open>us_pending\<close>: it holds a pending
  notification; \<open>us_live\<close>: it has not been dropped.
\<close>

record ('n, 'v) udp_stream =
  us_peer :: socket_addr
  us_watchdog :: "'v option"
  us_data_read :: bool
  us_pending :: bool
  us_io :: "'n io_inner"
  us_live :: bool

datatype udp_pc = AtLoop | AtPeek | AtRead nat | Yielded socket_addr | Ended

text \<open>
  The entry of a peer is the index of its stream, which shares its \<open>io\<close>.  \<open>ud_arrived\<close> and \<open>ud_taken\<close>
  are histories: the datagrams that came in, and the datagrams that were read with the reading stream.
\<close>

type_synonym datagram = "socket_addr \<times> bytes"

record ('n, 'v) udp_server =
  ud_queue :: "datagram list"
  ud_peers :: "socket_addr \<rightharpoonup> nat"
  ud_keys_to_delete :: "socket_addr list"
  ud_timeout :: "duration option"
  ud_streams :: "('n, 'v) udp_stream list"
  ud_pc :: udp_pc
  ud_arrived :: "datagram list"
  ud_taken :: "(nat \<times> datagram) list"

definition BUF_SIZES :: "nat list" where
  "BUF_SIZES = [64, 32, 16, 8, 4, 2, 1]"

text \<open>The loops over \<open>BUF_SIZES\<close>: the first size, in MiB, that the system accepts.\<close>

definition grow_socket_buffer :: "(nat \<Rightarrow> bool) \<Rightarrow> nat option" where
  "grow_socket_buffer accepts = find (\<lambda>size. accepts (size * 1024 * 1024)) BUF_SIZES"

definition udp_server_new :: "duration option \<Rightarrow> ('n, 'v) udp_server" where
  "udp_server_new timeout =
     \<lparr>ud_queue = [], ud_peers = Map.empty, ud_keys_to_delete = [], ud_timeout = timeout, ud_streams = [],
      ud_pc = AtLoop, ud_arrived = [], ud_taken = []\<rparr>"

definition clean_dead_keys :: "('n, 'v) udp_server \<Rightarrow> ('n, 'v) udp_server" where
  "clean_dead_keys s =
     (if length (ud_keys_to_delete s) = 0 then s
      else s\<lparr>ud_peers := foldl (\<lambda>m k. m(k := None)) (ud_peers s) (ud_keys_to_delete s), ud_keys_to_delete := []\<rparr>)"

fun watchdog_new :: "'v interval_ops \<Rightarrow> duration \<Rightarrow> duration option \<Rightarrow> 'v option run" where
  "watchdog_new I now None = Returns None"
| "watchdog_new I now (Some timeout) =
     run_then (instant_add now timeout) (\<lambda>start. run_then (iv_at I start timeout) (\<lambda>v. Returns (Some v)))"

definition udp_stream_new ::
  "'n notify_ops \<Rightarrow> 'v interval_ops \<Rightarrow> duration \<Rightarrow> socket_addr \<Rightarrow> duration option \<Rightarrow> ('n, 'v) udp_stream run" where
  "udp_stream_new N I now peer timeout =
     run_then (watchdog_new I now timeout) (\<lambda>w.
       Returns \<lparr>us_peer = peer, us_watchdog = w, us_data_read = False, us_pending = True,
         us_io = \<lparr>has_data_to_read = nt_notified N (nt_new N), has_read_data = nt_new N\<rparr>, us_live = True\<rparr>)"

section \<open>Reading\<close>

text \<open>\<open>while deadline.poll_tick(cx).is_ready() {}\<close>\<close>

partial_function (option) drain_ticks :: "'v interval_ops \<Rightarrow> 'v \<Rightarrow> duration \<Rightarrow> 'v option" where
  "drain_ticks I v now =
     (case iv_poll I v now of (v', ready) \<Rightarrow> if ready then drain_ticks I v' now else Some v')"

declare drain_ticks.simps [code]

text \<open>
  The watchdog of \<open>poll_read\<close>: the stream and whether it has timed out; \<open>None\<close> if the loop does not end.
  The SOCKS5 streams have the same one.
\<close>

fun poll_watchdog :: "'v interval_ops \<Rightarrow> duration \<Rightarrow> 'v option \<Rightarrow> bool \<Rightarrow> ('v option \<times> bool \<times> bool) option" where
  "poll_watchdog I now None data_read = Some (None, data_read, False)"
| "poll_watchdog I now (Some v) data_read =
     (case iv_poll I v now of (v', ready) \<Rightarrow>
        if \<not> ready then Some (Some v', data_read, False)
        else if \<not> data_read then Some (Some v', data_read, True)
        else map_option (\<lambda>v''. (Some v'', False, False)) (drain_ticks I v' now))"

datatype udp_error = TimedOut | OsError string

text \<open>What the socket answers: the next datagram, that it would block, or an error.\<close>

datatype rx = RxReady | RxBlocked | RxErr string

definition set_io :: "('n io_inner \<Rightarrow> 'n io_inner) \<Rightarrow> ('n, 'v) udp_stream \<Rightarrow> ('n, 'v) udp_stream" where
  "set_io f st = st\<lparr>us_io := f (us_io st)\<rparr>"

text \<open>\<open>ready!(notified.poll(cx))\<close>: \<open>None\<close> with the stream when the notification has not come.\<close>

definition poll_notification :: "'n notify_ops \<Rightarrow> ('n, 'v) udp_stream \<Rightarrow> ('n, 'v) udp_stream \<times> bool" where
  "poll_notification N st =
     (if us_pending st then
        (case nt_poll N (has_data_to_read (us_io st)) of (n, ready) \<Rightarrow>
           ((set_io (\<lambda>io. io\<lparr>has_data_to_read := n\<rparr>) st)\<lparr>us_pending := \<not> ready\<rparr>, ready))
      else (st, True))"

text \<open>After a datagram: the notification is armed again and the server is told.\<close>

definition rearm :: "'n notify_ops \<Rightarrow> ('n, 'v) udp_stream \<Rightarrow> ('n, 'v) udp_stream" where
  "rearm N st =
     (set_io (\<lambda>io. io\<lparr>has_data_to_read := nt_enable N (nt_notified N (has_data_to_read io)),
                      has_read_data := nt_notify_one N (has_read_data io)\<rparr>) st)
       \<lparr>us_data_read := True, us_pending := True\<rparr>"

text \<open>
  \<open>UdpStream::poll_read\<close> into a buffer with room for \<open>cap\<close> bytes: the stream, the queue of the
  shared socket, and the datagram read with its sender.
\<close>

definition udp_stream_poll_read ::
  "'n notify_ops \<Rightarrow> 'v interval_ops \<Rightarrow> duration \<Rightarrow> nat \<Rightarrow> rx \<Rightarrow> ('n, 'v) udp_stream \<Rightarrow> datagram list
   \<Rightarrow> (('n, 'v) udp_stream \<times> datagram list \<times> (datagram, udp_error) result poll) option" where
  "udp_stream_poll_read N I now cap r st queue =
     (case poll_watchdog I now (us_watchdog st) (us_data_read st) of
        None \<Rightarrow> None
      | Some (w, data_read, timed_out) \<Rightarrow>
          (let st1 = st\<lparr>us_watchdog := w, us_data_read := data_read\<rparr> in
           if timed_out then Some (st1, queue, Ready (Err TimedOut))
           else (case poll_notification N st1 of (st2, notified) \<Rightarrow>
             if \<not> notified then Some (st2, queue, Pending)
             else (case r of
                 RxBlocked \<Rightarrow> Some (st2, queue, Pending)
               | RxErr e \<Rightarrow> Some (st2, queue, Ready (Err (OsError e)))
               | RxReady \<Rightarrow>
                   (case queue of
                      [] \<Rightarrow> Some (st2, queue, Pending)
                    | (peer, data) # q \<Rightarrow> Some (rearm N st2, q, Ready (Ok (peer, take cap data))))))))"

text \<open>\<open>PinnedDrop\<close> of a stream, its effect on the shared notifications.\<close>

definition drop_stream :: "'n notify_ops \<Rightarrow> ('n, 'v) udp_stream \<Rightarrow> ('n, 'v) udp_stream" where
  "drop_stream N st =
     (set_io (\<lambda>io. io\<lparr>has_data_to_read := (if us_pending st then nt_drop N (has_data_to_read io) else has_data_to_read io),
                      has_read_data := nt_notify_one N (has_read_data io)\<rparr>) st)
       \<lparr>us_pending := False, us_live := False\<rparr>"

section \<open>Writing, and connected sockets\<close>

text \<open>
  Sending one datagram: the system takes it whole, or answers that it would block or with an error.
  The state is the list of datagrams sent.
\<close>

fun udp_send_to :: "(unit, 'e) result poll \<Rightarrow> socket_addr \<Rightarrow> bytes \<Rightarrow> datagram list \<Rightarrow> datagram list \<times> (nat, 'e) result poll" where
  "udp_send_to (Ready (Ok ())) peer data sent = (sent @ [(peer, data)], Ready (Ok (length data)))"
| "udp_send_to (Ready (Err e)) peer data sent = (sent, Ready (Err e))"
| "udp_send_to Pending peer data sent = (sent, Pending)"

definition udp_writer_poll_write ::
  "(unit, 'e) result poll \<Rightarrow> socket_addr \<Rightarrow> bytes \<Rightarrow> datagram list \<Rightarrow> datagram list \<times> (nat, 'e) result poll" where
  "udp_writer_poll_write answer peer buf sent = udp_send_to answer peer buf sent"

text \<open>\<open>WsUdpSocket\<close>: a connected socket, which reads one datagram at a time and sends to its peer.\<close>

fun ws_udp_poll_read :: "nat \<Rightarrow> rx \<Rightarrow> datagram list \<Rightarrow> datagram list \<times> (bytes, udp_error) result poll" where
  "ws_udp_poll_read cap RxReady ((peer, data) # q) = (q, Ready (Ok (take cap data)))"
| "ws_udp_poll_read cap (RxErr e) q = (q, Ready (Err (OsError e)))"
| "ws_udp_poll_read cap r q = (q, Pending)"

definition ws_udp_poll_write ::
  "socket_addr \<Rightarrow> (unit, 'e) result poll \<Rightarrow> bytes \<Rightarrow> datagram list \<Rightarrow> datagram list \<times> (nat, 'e) result poll" where
  "ws_udp_poll_write connected answer buf sent = udp_send_to answer connected buf sent"

section \<open>Transparent proxying\<close>

text \<open>
  The socket operations of the two functions for transparent proxying, in their order; the first one
  the system refuses ends the function.
\<close>

datatype sock_op =
    SetTransparent
  | SetOrigDstV4
  | SetOrigDstV6
  | NewSocket bool
  | SetReuseAddress
  | SetReusePort
  | BindTo socket_addr
  | SetNonblocking
  | FromStd

fun sock_ops :: "(sock_op \<Rightarrow> (unit, 'e) result) \<Rightarrow> sock_op list \<Rightarrow> (unit, 'e) result" where
  "sock_ops os [] = Ok ()"
| "sock_ops os (op # ops) = and_then (os op) (\<lambda>_. sock_ops os ops)"

text \<open>The address of the listener is unwrapped.\<close>

definition configure_tproxy :: "(sock_op \<Rightarrow> (unit, 'e) result) \<Rightarrow> socket_addr option \<Rightarrow> (unit, 'e) result run" where
  "configure_tproxy os local_addr =
     (case os SetTransparent of
        Err e \<Rightarrow> Returns (Err e)
      | Ok _ \<Rightarrow>
          run_then (expect ''called `Result::unwrap()` on an `Err` value'' local_addr) (\<lambda>a.
            Returns (os (if is_ipv4 (addr_ip a) then SetOrigDstV4 else SetOrigDstV6))))"

text \<open>Control messages, with addresses and ports in network byte order; the last original destination counts.\<close>

datatype cmsg = Ipv4OrigDst bytes bytes | Ipv6OrigDst bytes bytes | OtherCmsg

fun orig_dst :: "socket_addr \<Rightarrow> cmsg \<Rightarrow> socket_addr" where
  "orig_dst a (Ipv4OrigDst ip port) = socket_addr_new (V4 (be_word ip)) (be_word port)"
| "orig_dst a (Ipv6OrigDst ip port) = socket_addr_new (V6 (be_word ip)) (be_word port)"
| "orig_dst a OtherCmsg = a"

definition mk_send_socket_tproxy ::
  "(sock_op \<Rightarrow> (unit, 'e) result) \<Rightarrow> (cmsg list, 'e) result \<Rightarrow> (socket_addr, 'e) result" where
  "mk_send_socket_tproxy os recvmsg =
     and_then recvmsg (\<lambda>cmsgs.
       let remote_addr = foldl orig_dst (socket_addr_new (V4 0) 0) cmsgs in
       map_ok (\<lambda>_. remote_addr)
         (sock_ops os [NewSocket (is_ipv4 (addr_ip remote_addr)), SetTransparent, SetReuseAddress, SetReusePort,
            BindTo remote_addr, SetNonblocking, FromStd]))"

lemma mk_send_socket_tproxy_bound:
  assumes "mk_send_socket_tproxy os (Ok (cmsgs @ [Ipv4OrigDst ip port])) = Ok a"
  shows "a = socket_addr_new (V4 (be_word ip)) (be_word port) \<and> os (BindTo a) = Ok () \<and> os SetTransparent = Ok ()"
  using assms by (auto simp: mk_send_socket_tproxy_def Let_def result_simps)

section \<open>The server task and its streams\<close>

datatype udp_event =
    Arrive datagram
  | ServerRuns duration bool
  | PeekFails
  | StreamReads nat duration nat rx
  | StreamDropped nat

definition upd_stream ::
  "nat \<Rightarrow> (('n, 'v) udp_stream \<Rightarrow> ('n, 'v) udp_stream) \<Rightarrow> ('n, 'v) udp_server \<Rightarrow> ('n, 'v) udp_server" where
  "upd_stream i f s = s\<lparr>ud_streams := (ud_streams s)[i := f (ud_streams s ! i)]\<rparr>"

text \<open>\<open>has_read_data.notified().await\<close>, up to its suspension.\<close>

definition await_read :: "'n notify_ops \<Rightarrow> nat \<Rightarrow> ('n, 'v) udp_server \<Rightarrow> ('n, 'v) udp_server" where
  "await_read N i s =
     (upd_stream i (set_io (\<lambda>io. io\<lparr>has_read_data := nt_notified N (has_read_data io)\<rparr>)) s)\<lparr>ud_pc := AtRead i\<rparr>"

definition wake_reader :: "'n notify_ops \<Rightarrow> nat \<Rightarrow> ('n, 'v) udp_server \<Rightarrow> ('n, 'v) udp_server" where
  "wake_reader N i = upd_stream i (set_io (\<lambda>io. io\<lparr>has_data_to_read := nt_notify_one N (has_data_to_read io)\<rparr>))"

text \<open>A datagram of an unknown peer: a stream for it is created, registered and handed out.\<close>

definition new_peer ::
  "'n notify_ops \<Rightarrow> 'v interval_ops \<Rightarrow> duration \<Rightarrow> bool \<Rightarrow> socket_addr \<Rightarrow> ('n, 'v) udp_server \<Rightarrow> ('n, 'v) udp_server run" where
  "new_peer N I now send_socket peer s =
     (if \<not> send_socket then Returns (s\<lparr>ud_pc := Ended\<rparr>)
      else run_then (udp_stream_new N I now peer (ud_timeout s)) (\<lambda>st.
        Returns (s\<lparr>ud_streams := ud_streams s @
                     [set_io (\<lambda>io. io\<lparr>has_data_to_read := nt_notify_waiters N (has_data_to_read io)\<rparr>) st],
                   ud_peers := (ud_peers s)(peer \<mapsto> length (ud_streams s)), ud_pc := Yielded peer\<rparr>)))"

text \<open>
  The loop of \<open>run_server\<close>, from one suspension to the next: \<open>AtLoop\<close> is its head, \<open>AtPeek\<close> the wait for
  a sender, \<open>AtRead\<close> the wait for a stream to read, \<open>Yielded\<close> the point where a new stream has been
  handed out and the next one is asked for.  \<open>None\<close>: the task is suspended.
\<close>

fun server_runs ::
  "'n notify_ops \<Rightarrow> 'v interval_ops \<Rightarrow> duration \<Rightarrow> bool \<Rightarrow> udp_pc \<Rightarrow> ('n, 'v) udp_server \<Rightarrow> ('n, 'v) udp_server run option" where
  "server_runs N I now send_socket AtLoop s = Some (Returns ((clean_dead_keys s)\<lparr>ud_pc := AtPeek\<rparr>))"
| "server_runs N I now send_socket AtPeek s =
     (case ud_queue s of
        [] \<Rightarrow> None
      | (peer, data) # q \<Rightarrow>
          Some (case ud_peers s peer of
              Some i \<Rightarrow> Returns (await_read N i (wake_reader N i s))
            | None \<Rightarrow> new_peer N I now send_socket peer s))"
| "server_runs N I now send_socket (AtRead i) s =
     (case nt_poll N (has_read_data (us_io (ud_streams s ! i))) of (n, ready) \<Rightarrow>
        Some (Returns ((upd_stream i (set_io (\<lambda>io. io\<lparr>has_read_data := n\<rparr>)) s)
          \<lparr>ud_pc := (if ready then AtLoop else AtRead i)\<rparr>)))"
| "server_runs N I now send_socket (Yielded peer) s =
     Some (Returns (case ud_peers s peer of Some i \<Rightarrow> await_read N i s | None \<Rightarrow> s\<lparr>ud_pc := AtLoop\<rparr>))"
| "server_runs N I now send_socket Ended s = None"

definition live :: "('n, 'v) udp_server \<Rightarrow> nat \<Rightarrow> bool" where
  "live s i \<longleftrightarrow> i < length (ud_streams s) \<and> us_live (ud_streams s ! i)"

fun taken_by :: "nat \<Rightarrow> datagram list \<Rightarrow> (datagram, udp_error) result poll \<Rightarrow> (nat \<times> datagram) list" where
  "taken_by i queue (Ready (Ok d)) = [(i, hd queue)]"
| "taken_by i queue _ = []"

fun udp_step ::
  "'n notify_ops \<Rightarrow> 'v interval_ops \<Rightarrow> ('n, 'v) udp_server \<Rightarrow> udp_event \<Rightarrow> ('n, 'v) udp_server run option" where
  "udp_step N I s (Arrive d) = Some (Returns (s\<lparr>ud_queue := ud_queue s @ [d], ud_arrived := ud_arrived s @ [d]\<rparr>))"
| "udp_step N I s (ServerRuns now send_socket) = server_runs N I now send_socket (ud_pc s) s"
| "udp_step N I s PeekFails = (if ud_pc s = AtPeek then Some (Returns (s\<lparr>ud_pc := Ended\<rparr>)) else None)"
| "udp_step N I s (StreamReads i now cap r) =
     (if live s i then
        (case udp_stream_poll_read N I now cap r (ud_streams s ! i) (ud_queue s) of
           None \<Rightarrow> None
         | Some (st, queue, result) \<Rightarrow>
             Some (Returns ((upd_stream i (\<lambda>_. st) s)
               \<lparr>ud_queue := queue, ud_taken := ud_taken s @ taken_by i (ud_queue s) result\<rparr>)))
      else None)"
| "udp_step N I s (StreamDropped i) =
     (if live s i then
        Some (Returns ((upd_stream i (drop_stream N) s)
          \<lparr>ud_keys_to_delete := ud_keys_to_delete s @ [us_peer (ud_streams s ! i)]\<rparr>))
      else None)"

inductive udp_reachable ::
  "'n notify_ops \<Rightarrow> 'v interval_ops \<Rightarrow> duration option \<Rightarrow> ('n, 'v) udp_server \<Rightarrow> bool" for N I timeout where
  udp_start: "udp_reachable N I timeout (udp_server_new timeout)"
| udp_next: "udp_reachable N I timeout s \<Longrightarrow> udp_step N I s e = Some (Returns s') \<Longrightarrow> udp_reachable N I timeout s'"

fun udp_run ::
  "'n notify_ops \<Rightarrow> 'v interval_ops \<Rightarrow> ('n, 'v) udp_server \<Rightarrow> udp_event list \<Rightarrow> ('n, 'v) udp_server option" where
  "udp_run N I s [] = Some s"
| "udp_run N I s (e # es) =
     (case udp_step N I s e of Some (Returns s') \<Rightarrow> udp_run N I s' es | _ \<Rightarrow> None)"

lemma udp_run_reachable: "udp_reachable N I t s \<Longrightarrow> udp_run N I s es = Some s' \<Longrightarrow> udp_reachable N I t s'"
  by (induction es arbitrary: s) (auto intro: udp_next split: option.split_asm run.split_asm)

section \<open>Notifications of a stream\<close>

text \<open>
  \<open>may_read\<close>: the next poll goes on to the socket; \<open>asleep\<close>: it waits for the server.  \<open>told\<close> is the
  state of the notification in the other direction.
\<close>

definition may_read :: "('n \<Rightarrow> signals \<times> bool) \<Rightarrow> ('n, 'v) udp_stream \<Rightarrow> bool" where
  "may_read v st \<longleftrightarrow>
     v (has_data_to_read (us_io st)) = (if us_pending st then (OneSignal, True) else (NoSignal, False))"

definition asleep :: "('n \<Rightarrow> signals \<times> bool) \<Rightarrow> ('n, 'v) udp_stream \<Rightarrow> bool" where
  "asleep v st \<longleftrightarrow> us_pending st \<and> v (has_data_to_read (us_io st)) = (NoSignal, True)"

definition told :: "('n \<Rightarrow> signals \<times> bool) \<Rightarrow> ('n, 'v) udp_stream \<Rightarrow> signals \<times> bool" where
  "told v st = v (has_read_data (us_io st))"

lemmas notification_defs = may_read_def asleep_def told_def set_io_def

lemma set_io_same [simp]:
  "us_peer (set_io f st) = us_peer st" "us_watchdog (set_io f st) = us_watchdog st"
  "us_live (set_io f st) = us_live st" "us_pending (set_io f st) = us_pending st"
  "us_io (set_io f st) = f (us_io st)" "us_data_read (set_io f st) = us_data_read st"
  by (simp_all add: set_io_def)

lemma poll_notification_same:
  "poll_notification N st = (st', b) \<Longrightarrow>
     us_peer st' = us_peer st \<and> us_live st' = us_live st \<and> us_watchdog st' = us_watchdog st \<and> told v st' = told v st"
  by (auto simp: poll_notification_def told_def split: if_splits prod.splits)

lemma poll_notification_asleep:
  assumes "notify_laws N v" "asleep v st" "poll_notification N st = (st', b)"
  shows "\<not> b \<and> asleep v st'"
  using assms by (auto simp: poll_notification_def notification_defs notify_laws_def split: prod.splits)

lemma poll_notification_may_read:
  assumes "notify_laws N v" "may_read v st" "poll_notification N st = (st', b)"
  shows "b \<and> may_read v st' \<and> \<not> us_pending st'"
  using assms by (auto simp: poll_notification_def notification_defs notify_laws_def split: prod.splits if_splits)

lemma rearm_asleep:
  assumes "notify_laws N v" "may_read v st" "\<not> us_pending st" "told v st = (NoSignal, f)"
  shows "asleep v (rearm N st) \<and> told v (rearm N st) = (OneSignal, f)"
  using assms by (simp add: rearm_def notification_defs notify_laws_def)

lemma rearm_same: "us_peer (rearm N st) = us_peer st" "us_live (rearm N st) = us_live st" "us_watchdog (rearm N st) = us_watchdog st"
  by (simp_all add: rearm_def)

lemma drop_stream_same: "us_peer (drop_stream N st) = us_peer st" "us_watchdog (drop_stream N st) = us_watchdog st"
  "\<not> us_live (drop_stream N st)"
  by (simp_all add: drop_stream_def)

lemma drop_stream_told:
  "notify_laws N v \<Longrightarrow> fst (told v (drop_stream N st)) \<noteq> NoSignal \<and> snd (told v (drop_stream N st)) = snd (told v st)"
  by (simp add: drop_stream_def notification_defs notify_laws_def)

section \<open>The watchdog\<close>

lemma iv_poll_laws:
  assumes "interval_laws I d p"
  shows "snd (iv_poll I v now) = (d v \<le> now)" "p (fst (iv_poll I v now)) = p v"
    "d (fst (iv_poll I v now)) = (if d v \<le> now then d v + p v else d v)"
  using assms by (simp_all add: interval_laws_def)

lemma drain_ticks_ends:
  assumes "interval_laws I d p" "0 < p v"
  shows "\<exists>v'. drain_ticks I v now = Some v' \<and> now < d v' \<and> p v' = p v"
  using assms(2)
proof (induction "Suc now - d v" arbitrary: v rule: less_induct)
  case less
  obtain v1 r where v1: "iv_poll I v now = (v1, r)" by fastforce
  have r: "r = (d v \<le> now)" "p v1 = p v" "d v1 = (if d v \<le> now then d v + p v else d v)"
    using iv_poll_laws [OF assms(1), of v now] v1 by simp_all
  show ?case
  proof (cases "d v \<le> now")
    case True
    then have "\<exists>v'. drain_ticks I v1 now = Some v' \<and> now < d v' \<and> p v' = p v1"
      using less r by (intro less.hyps) auto
    then show ?thesis using v1 r True by (subst drain_ticks.simps) simp
  next
    case False
    then show ?thesis using v1 r by (subst drain_ticks.simps) simp
  qed
qed

definition watchdog_ok :: "('v \<Rightarrow> duration) \<Rightarrow> 'v option \<Rightarrow> bool" where
  "watchdog_ok p w \<longleftrightarrow> (\<forall>v. w = Some v \<longrightarrow> 0 < p v)"

lemma watchdog_new_ok: "interval_laws I d p \<Longrightarrow> watchdog_new I now t = Returns w \<Longrightarrow> watchdog_ok p w"
proof (cases t)
  case (Some x)
  assume L: "interval_laws I d p" and w: "watchdog_new I now t = Returns w"
  have "0 < x"
  proof (rule ccontr)
    assume "\<not> 0 < x"
    then show False using w L Some by (auto simp: result_simps interval_laws_def) (metis run.distinct(1))
  qed
  then show ?thesis using w L Some by (auto simp: result_simps interval_laws_def watchdog_ok_def) (metis run.inject(1))
qed (auto simp: watchdog_ok_def)

lemma poll_watchdog_returns:
  assumes "interval_laws I d p" "watchdog_ok p w"
  shows "\<exists>w' data_read' timed_out. poll_watchdog I now w data_read = Some (w', data_read', timed_out) \<and> watchdog_ok p w'"
proof (cases w)
  case (Some v)
  obtain v1 r where v1: "iv_poll I v now = (v1, r)" by fastforce
  then have "p v1 = p v" using iv_poll_laws [OF assms(1), of v now] by simp
  then have p: "0 < p v1" using assms(2) Some by (simp add: watchdog_ok_def)
  then obtain v2 where "drain_ticks I v1 now = Some v2" "p v2 = p v1"
    using drain_ticks_ends [OF assms(1) p, of now] by blast
  then show ?thesis using Some v1 p by (auto simp: watchdog_ok_def)
qed (auto simp: watchdog_ok_def)

lemma poll_watchdog_future:
  assumes "interval_laws I d p" "watchdog_ok p w"
  shows "\<exists>w' data_read' timed_out. poll_watchdog I now w data_read = Some (w', data_read', timed_out) \<and>
    (timed_out \<or> (case w' of None \<Rightarrow> True | Some v \<Rightarrow> now < d v))"
proof (cases w)
  case (Some v)
  obtain v1 r where v1: "iv_poll I v now = (v1, r)" by fastforce
  then have "p v1 = p v" "r = (d v \<le> now)" "\<not> r \<longrightarrow> now < d v1" using iv_poll_laws [OF assms(1), of v now] by auto
  moreover from this have "0 < p v1" using assms(2) Some by (simp add: watchdog_ok_def)
  then obtain v2 where "drain_ticks I v1 now = Some v2" "now < d v2"
    using drain_ticks_ends [OF assms(1), of v1 now] by blast
  ultimately show ?thesis using Some v1 by auto
qed auto

lemma watchdog_new_panics:
  assumes "interval_laws I d p"
  shows "(\<exists>m. watchdog_new I now t = Panics m) \<longleftrightarrow>
    (case t of None \<Rightarrow> False | Some t \<Rightarrow> t = 0 \<or> 2 ^ 63 * 10 ^ 9 \<le> now + t)"
proof (cases t)
  case (Some x)
  have "\<exists>m. iv_at I start 0 = Panics m" "0 < x \<Longrightarrow> \<exists>v. iv_at I start x = Returns v" for start
    using assms unfolding interval_laws_def by blast+
  then show ?thesis using Some
    by (cases "x = 0") (auto simp: result_simps instant_add_def not_less, metis run.distinct(1))
qed simp

section \<open>The invariant\<close>

fun reads :: "(datagram, udp_error) result poll \<Rightarrow> bool" where
  "reads (Ready (Ok d)) = True"
| "reads _ = False"

lemma taken_by_reads: "taken_by i q r = (if reads r then [(i, hd q)] else [])"
  by (induction i q r rule: taken_by.induct) auto

lemma poll_read_asleep:
  assumes "notify_laws N v" "interval_laws I d p" "watchdog_ok p (us_watchdog st)" "asleep v st"
    "udp_stream_poll_read N I now cap r st queue = Some (st', queue', result)"
  shows "queue' = queue \<and> \<not> reads result \<and> asleep v st' \<and> told v st' = told v st \<and> us_peer st' = us_peer st \<and>
    us_live st' = us_live st \<and> watchdog_ok p (us_watchdog st')"
proof -
  obtain w dr t where w: "poll_watchdog I now (us_watchdog st) (us_data_read st) = Some (w, dr, t)" "watchdog_ok p w"
    using poll_watchdog_returns [OF assms(2,3)] by metis
  define st1 where "st1 = st\<lparr>us_watchdog := w, us_data_read := dr\<rparr>"
  have st1: "asleep v st1" "told v st1 = told v st" "us_peer st1 = us_peer st" "us_live st1 = us_live st" "us_watchdog st1 = w"
    using assms(4) by (simp_all add: st1_def notification_defs)
  obtain st2 b where st2: "poll_notification N st1 = (st2, b)" by fastforce
  show ?thesis
    using assms(5) w st1 st2 poll_notification_asleep [OF assms(1) st1(1) st2] poll_notification_same [OF st2, of v]
    by (auto simp: udp_stream_poll_read_def Let_def st1_def [symmetric] split: if_splits)
qed

lemma poll_read_may_read:
  assumes "notify_laws N v" "interval_laws I d p" "watchdog_ok p (us_watchdog st)" "may_read v st"
    "told v st = (NoSignal, f)"
    "udp_stream_poll_read N I now cap r st queue = Some (st', queue', result)"
  shows "us_peer st' = us_peer st \<and> us_live st' = us_live st \<and> watchdog_ok p (us_watchdog st') \<and>
    (if reads result then queue = hd queue # queue' \<and> asleep v st' \<and> told v st' = (OneSignal, f)
     else queue' = queue \<and> may_read v st' \<and> told v st' = (NoSignal, f))"
proof -
  obtain w dr t where w: "poll_watchdog I now (us_watchdog st) (us_data_read st) = Some (w, dr, t)" "watchdog_ok p w"
    using poll_watchdog_returns [OF assms(2,3)] by metis
  define st1 where "st1 = st\<lparr>us_watchdog := w, us_data_read := dr\<rparr>"
  have st1: "may_read v st1" "told v st1 = told v st" "us_peer st1 = us_peer st" "us_live st1 = us_live st" "us_watchdog st1 = w"
    using assms(4) by (simp_all add: st1_def notification_defs)
  obtain st2 b where st2: "poll_notification N st1 = (st2, b)" by fastforce
  have b: "b" "may_read v st2" "\<not> us_pending st2" "told v st2 = (NoSignal, f)"
    using poll_notification_may_read [OF assms(1) st1(1) st2] poll_notification_same [OF st2, of v] st1 assms(5) by auto
  have same: "us_peer st2 = us_peer st \<and> us_live st2 = us_live st \<and> us_watchdog st2 = w"
    using poll_notification_same [OF st2] st1 by simp
  have res: "Some (st', queue', result) =
      (if t then Some (st1, queue, Ready (Err TimedOut))
       else (case r of
           RxBlocked \<Rightarrow> Some (st2, queue, Pending)
         | RxErr e \<Rightarrow> Some (st2, queue, Ready (Err (OsError e)))
         | RxReady \<Rightarrow>
             (case queue of
                [] \<Rightarrow> Some (st2, queue, Pending)
              | (peer, data) # q \<Rightarrow> Some (rearm N st2, q, Ready (Ok (peer, take cap data))))))"
    unfolding assms(6) [symmetric] using w(1) st2 b(1)
    by (simp add: udp_stream_poll_read_def Let_def st1_def [symmetric])
  consider "t" | "\<not> t" "\<not> (r = RxReady \<and> queue \<noteq> [])" | "\<not> t" "r = RxReady" "queue \<noteq> []" by blast
  then show ?thesis
  proof cases
    case 1
    then show ?thesis using res st1 w(2) assms(5) by simp
  next
    case 2
    then show ?thesis using res same b w(2) by (cases r; cases queue) auto
  next
    case 3
    then show ?thesis using res same w(2) rearm_asleep [OF assms(1) b(2-4)]
      by (cases queue) (auto simp: rearm_same)
  qed
qed

text \<open>The server waits for stream \<open>i\<close>: either for its first read or for the read it was woken for.\<close>

definition awaited :: "udp_pc \<Rightarrow> nat \<Rightarrow> ('n, 'v) udp_stream \<Rightarrow> bool" where
  "awaited pc i st \<longleftrightarrow> pc = AtRead i \<or> pc = Yielded (us_peer st)"

text \<open>
  A live stream: while the server does not wait for it, it is asleep; while the server waits, either
  the stream may read and the next datagram is for it, or it has read and the server has been told.
\<close>

definition calm :: "('n \<Rightarrow> signals \<times> bool) \<Rightarrow> udp_pc \<Rightarrow> datagram list \<Rightarrow> nat \<Rightarrow> ('n, 'v) udp_stream \<Rightarrow> bool" where
  "calm v pc queue i st \<longleftrightarrow>
     (if awaited pc i st then
        may_read v st \<and> told v st = (NoSignal, pc = AtRead i) \<and> queue \<noteq> [] \<and> fst (hd queue) = us_peer st \<or>
        asleep v st \<and> told v st = (OneSignal, pc = AtRead i)
      else asleep v st \<and> told v st = (NoSignal, False))"

text \<open>
  A live stream is registered and its address is not to be deleted; a dropped one that is still
  registered is to be deleted, and does not keep the server waiting.
\<close>

definition stream_ok ::
  "('n \<Rightarrow> signals \<times> bool) \<Rightarrow> ('v \<Rightarrow> duration) \<Rightarrow> ('n, 'v) udp_server \<Rightarrow> nat \<Rightarrow> ('n, 'v) udp_stream \<Rightarrow> bool" where
  "stream_ok v p s i st \<longleftrightarrow>
     watchdog_ok p (us_watchdog st) \<and>
     (if us_live st then
        ud_peers s (us_peer st) = Some i \<and> us_peer st \<notin> set (ud_keys_to_delete s) \<and> calm v (ud_pc s) (ud_queue s) i st
      else ud_peers s (us_peer st) = Some i \<longrightarrow>
        us_peer st \<in> set (ud_keys_to_delete s) \<and>
        (ud_pc s \<noteq> AtLoop \<longrightarrow> fst (told v st) \<noteq> NoSignal \<and> snd (told v st) = (ud_pc s = AtRead i)))"

definition peers_ok :: "('n, 'v) udp_server \<Rightarrow> bool" where
  "peers_ok s \<longleftrightarrow>
     (\<forall>a i. ud_peers s a = Some i \<longrightarrow> i < length (ud_streams s) \<and> us_peer (ud_streams s ! i) = a) \<and>
     (\<forall>i. ud_pc s = AtRead i \<longrightarrow> (\<exists>a. ud_peers s a = Some i)) \<and>
     (\<forall>a. ud_pc s = Yielded a \<longrightarrow> ud_peers s a \<noteq> None) \<and>
     (\<forall>a \<in> set (ud_keys_to_delete s). ud_peers s a \<noteq> None)"

definition log_ok :: "('n, 'v) udp_server \<Rightarrow> bool" where
  "log_ok s \<longleftrightarrow>
     ud_arrived s = map snd (ud_taken s) @ ud_queue s \<and>
     (\<forall>(i, a, data) \<in> set (ud_taken s). i < length (ud_streams s) \<and> us_peer (ud_streams s ! i) = a)"

definition udp_inv ::
  "('n \<Rightarrow> signals \<times> bool) \<Rightarrow> ('v \<Rightarrow> duration) \<Rightarrow> ('n, 'v) udp_server \<Rightarrow> bool" where
  "udp_inv v p s \<longleftrightarrow>
     peers_ok s \<and> log_ok s \<and> (\<forall>i < length (ud_streams s). stream_ok v p s i (ud_streams s ! i))"

lemma upd_stream_simps [simp]:
  "length (ud_streams (upd_stream i f s)) = length (ud_streams s)"
  "ud_streams (upd_stream i f s) ! j =
     (if i = j \<and> i < length (ud_streams s) then f (ud_streams s ! i) else ud_streams s ! j)"
  "ud_queue (upd_stream i f s) = ud_queue s" "ud_peers (upd_stream i f s) = ud_peers s"
  "ud_keys_to_delete (upd_stream i f s) = ud_keys_to_delete s" "ud_timeout (upd_stream i f s) = ud_timeout s"
  "ud_pc (upd_stream i f s) = ud_pc s" "ud_arrived (upd_stream i f s) = ud_arrived s" "ud_taken (upd_stream i f s) = ud_taken s"
  by (simp_all add: upd_stream_def) (cases "i < length (ud_streams s)"; auto simp: nth_list_update nth_list_update_neq list_update_beyond)

lemma udp_inv_new: "udp_inv v p (udp_server_new t)"
  by (simp add: udp_inv_def udp_server_new_def peers_ok_def log_ok_def)

lemma udp_inv_stream: "udp_inv v p s \<Longrightarrow> i < length (ud_streams s) \<Longrightarrow> stream_ok v p s i (ud_streams s ! i)"
  by (simp add: udp_inv_def)

text \<open>A step that keeps a stream keeps what is known of it, as far as the server's view of it is kept.\<close>

lemma stream_ok_kept:
  assumes "stream_ok v p s i st" "ud_peers s' = ud_peers s" "ud_keys_to_delete s' = ud_keys_to_delete s"
    "awaited (ud_pc s') i st = awaited (ud_pc s) i st" "ud_pc s' = AtRead i \<longleftrightarrow> ud_pc s = AtRead i"
    "ud_pc s' \<noteq> AtLoop \<Longrightarrow> ud_pc s \<noteq> AtLoop"
    "us_live st \<Longrightarrow> awaited (ud_pc s) i st \<Longrightarrow> ud_queue s \<noteq> [] \<Longrightarrow> ud_queue s' \<noteq> [] \<and> hd (ud_queue s') = hd (ud_queue s)"
  shows "stream_ok v p s' i st"
  using assms(1,4-7) unfolding stream_ok_def calm_def assms(2,3) by (simp split: if_split_asm) auto

lemma udp_inv_arrive:
  assumes "udp_inv v p s"
  shows "udp_inv v p (s\<lparr>ud_queue := ud_queue s @ [d], ud_arrived := ud_arrived s @ [d]\<rparr>)"
proof -
  have "stream_ok v p (s\<lparr>ud_queue := ud_queue s @ [d], ud_arrived := ud_arrived s @ [d]\<rparr>) i (ud_streams s ! i)"
    if "i < length (ud_streams s)" for i
    by (rule stream_ok_kept [OF udp_inv_stream [OF assms that]]) simp_all
  then show ?thesis using assms by (simp add: udp_inv_def peers_ok_def log_ok_def)
qed

lemma udp_inv_ended:
  assumes "udp_inv v p s" "ud_pc s = AtPeek"
  shows "udp_inv v p (s\<lparr>ud_pc := Ended\<rparr>)"
proof -
  have "stream_ok v p (s\<lparr>ud_pc := Ended\<rparr>) i (ud_streams s ! i)" if "i < length (ud_streams s)" for i
    by (rule stream_ok_kept [OF udp_inv_stream [OF assms(1) that]]) (simp_all add: awaited_def assms(2))
  then show ?thesis using assms(1) by (simp add: udp_inv_def peers_ok_def log_ok_def)
qed

lemma foldl_remove: "foldl (\<lambda>m k. m(k := None)) m ks = (\<lambda>a. if a \<in> set ks then None else m a)"
  by (induction ks arbitrary: m) auto

lemma clean_dead_keys_eq:
  "clean_dead_keys s = s\<lparr>ud_peers := (\<lambda>a. if a \<in> set (ud_keys_to_delete s) then None else ud_peers s a), ud_keys_to_delete := []\<rparr>"
  by (simp add: clean_dead_keys_def foldl_remove)

lemma udp_inv_clean:
  assumes "udp_inv v p s" "ud_pc s = AtLoop"
  shows "udp_inv v p ((clean_dead_keys s)\<lparr>ud_pc := AtPeek\<rparr>)"
proof -
  have "stream_ok v p ((clean_dead_keys s)\<lparr>ud_pc := AtPeek\<rparr>) i (ud_streams s ! i)" if "i < length (ud_streams s)" for i
    using udp_inv_stream [OF assms(1) that] assms(2)
    by (auto simp: clean_dead_keys_eq stream_ok_def calm_def awaited_def)
  moreover have "ud_streams (clean_dead_keys s) = ud_streams s" by (simp add: clean_dead_keys_eq)
  ultimately show ?thesis
    using assms(1) by (simp add: udp_inv_def peers_ok_def log_ok_def clean_dead_keys_eq)
qed

text \<open>A step that changes one stream.\<close>

lemma udp_inv_upd:
  assumes "udp_inv v p s" "i < length (ud_streams s)" "ud_streams s' = (ud_streams s)[i := st]"
    "us_peer st = us_peer (ud_streams s ! i)" "stream_ok v p s' i st" "ud_peers s' = ud_peers s"
    "\<And>j. j < length (ud_streams s) \<Longrightarrow> j \<noteq> i \<Longrightarrow> stream_ok v p s' j (ud_streams s ! j)"
    "\<And>j. ud_pc s' = AtRead j \<Longrightarrow> \<exists>a. ud_peers s a = Some j" "\<And>a. ud_pc s' = Yielded a \<Longrightarrow> ud_peers s a \<noteq> None"
    "ud_arrived s' = map snd (ud_taken s') @ ud_queue s'" "\<And>a. a \<in> set (ud_keys_to_delete s') \<Longrightarrow> ud_peers s a \<noteq> None"
    "\<And>j a data. (j, a, data) \<in> set (ud_taken s') - set (ud_taken s) \<Longrightarrow> j = i \<and> a = us_peer (ud_streams s ! i)"
  shows "udp_inv v p s'"
proof -
  have peer: "us_peer ((ud_streams s)[i := st] ! j) = us_peer (ud_streams s ! j)" for j
    using assms(2,4) by (cases "j = i") simp_all
  have "peers_ok s'" using assms(1) assms(8,9,11) unfolding udp_inv_def peers_ok_def assms(3,6) peer by simp
  moreover have "log_ok s'"
    using assms(1,2,10) assms(12) unfolding udp_inv_def log_ok_def assms(3) peer by fastforce
  moreover have "stream_ok v p s' j (ud_streams s' ! j)" if "j < length (ud_streams s')" for j
    using that assms(2,3,5,7) by (cases "j = i") simp_all
  ultimately show ?thesis by (simp add: udp_inv_def)
qed

lemma udp_inv_known_peer:
  assumes "notify_laws (N :: 'n notify_ops) v" "udp_inv v p s" "ud_pc s = AtPeek" "ud_queue s = (a, data) # q" "ud_peers s a = Some i"
  shows "udp_inv v p (await_read N i (wake_reader N i s))"
proof -
  have i: "i < length (ud_streams s)" "us_peer (ud_streams s ! i) = a"
    using assms(2,5) by (auto simp: udp_inv_def peers_ok_def)
  define f :: "'n io_inner \<Rightarrow> 'n io_inner" where "f = (\<lambda>io. io\<lparr>has_read_data := nt_notified N (has_read_data io)\<rparr>)
    \<circ> (\<lambda>io. io\<lparr>has_data_to_read := nt_notify_one N (has_data_to_read io)\<rparr>)"
  have eq: "await_read N i (wake_reader N i s) = (upd_stream i (set_io f) s)\<lparr>ud_pc := AtRead i\<rparr>"
    using i(1) by (simp add: await_read_def wake_reader_def upd_stream_def set_io_def f_def)
  have "stream_ok v p ((upd_stream i (set_io f) s)\<lparr>ud_pc := AtRead i\<rparr>) i (set_io f (ud_streams s ! i))"
    using udp_inv_stream [OF assms(2) i(1)] assms(1,3,4) i
    by (cases "v (has_read_data (us_io (ud_streams s ! i)))")
      (auto simp: stream_ok_def calm_def awaited_def f_def notification_defs notify_laws_def split: if_splits)
  moreover have "stream_ok v p ((upd_stream i (set_io f) s)\<lparr>ud_pc := AtRead i\<rparr>) j (ud_streams s ! j)"
    if "j < length (ud_streams s)" "j \<noteq> i" for j
    by (rule stream_ok_kept [OF udp_inv_stream [OF assms(2) that(1)]]) (use that assms(3) in \<open>simp_all add: awaited_def\<close>)
  ultimately show ?thesis unfolding eq
    by (intro udp_inv_upd [OF assms(2) i(1), where st = "set_io f (ud_streams s ! i)"])
      (use assms(2,5) in \<open>auto simp: upd_stream_def udp_inv_def log_ok_def peers_ok_def\<close>)
qed

lemma udp_inv_yielded:
  assumes "notify_laws N v" "udp_inv v p (s :: ('n, 'v) udp_server)" "ud_pc s = Yielded a" "ud_peers s a = Some i"
  shows "udp_inv v p (await_read N i s)"
proof -
  define g :: "('n, 'v) udp_stream \<Rightarrow> ('n, 'v) udp_stream" where "g = set_io (\<lambda>io. io\<lparr>has_read_data := nt_notified N (has_read_data io)\<rparr>)"
  have i: "i < length (ud_streams s)" "us_peer (ud_streams s ! i) = a"
    using assms(2,4) by (auto simp: udp_inv_def peers_ok_def)
  have eq: "await_read N i s = (upd_stream i g s)\<lparr>ud_pc := AtRead i\<rparr>"
    by (simp add: await_read_def g_def)
  have "stream_ok v p ((upd_stream i g s)\<lparr>ud_pc := AtRead i\<rparr>) i (g (ud_streams s ! i))"
    using udp_inv_stream [OF assms(2) i(1)] assms(1,3) i
    by (cases "v (has_read_data (us_io (ud_streams s ! i)))")
      (auto simp: stream_ok_def calm_def awaited_def g_def notification_defs notify_laws_def split: if_splits)
  moreover have "stream_ok v p ((upd_stream i g s)\<lparr>ud_pc := AtRead i\<rparr>) j (ud_streams s ! j)"
    if "j < length (ud_streams s)" "j \<noteq> i" for j
    using udp_inv_stream [OF assms(2) that(1)] assms(3,4) that
    by (cases "us_peer (ud_streams s ! j) = a") (auto simp: stream_ok_def calm_def awaited_def)
  ultimately show ?thesis unfolding eq
    by (intro udp_inv_upd [OF assms(2) i(1), where st = "g (ud_streams s ! i)"])
      (use assms(2,4) in \<open>auto simp: upd_stream_def udp_inv_def log_ok_def peers_ok_def g_def\<close>)
qed

lemma udp_inv_wait:
  assumes "notify_laws N v" "udp_inv v p (s :: ('n, 'v) udp_server)" "ud_pc s = AtRead i"
    "nt_poll N (has_read_data (us_io (ud_streams s ! i))) = (n, ready)"
  shows "udp_inv v p ((upd_stream i (set_io (\<lambda>io. io\<lparr>has_read_data := n\<rparr>)) s)\<lparr>ud_pc := (if ready then AtLoop else AtRead i)\<rparr>)"
    (is "udp_inv v p ?s")
proof -
  define g :: "('n, 'v) udp_stream \<Rightarrow> ('n, 'v) udp_stream" where "g = set_io (\<lambda>io. io\<lparr>has_read_data := n\<rparr>)"
  obtain a where a: "ud_peers s a = Some i" using assms(2,3) by (auto simp: udp_inv_def peers_ok_def)
  have i: "i < length (ud_streams s)" "us_peer (ud_streams s ! i) = a"
    using assms(2) a by (auto simp: udp_inv_def peers_ok_def)
  obtain c f where c: "told v (ud_streams s ! i) = (c, f)" by fastforce
  have poll: "v n = (NoSignal, \<not> ready)" if "c \<noteq> MoreSignals" "f"
    using that assms(1,4) c by (cases c) (auto simp: notify_laws_def told_def dest!: spec [of _ "has_read_data (us_io (ud_streams s ! i))"])
  have more: "ready \<longleftrightarrow> c \<noteq> NoSignal" if "f"
    using that assms(1,4) c by (cases c) (auto simp: notify_laws_def told_def dest!: spec [of _ "has_read_data (us_io (ud_streams s ! i))"])
  have "stream_ok v p ?s i (g (ud_streams s ! i))"
    using udp_inv_stream [OF assms(2) i(1)] assms(3) i a c poll more
    by (auto simp: stream_ok_def calm_def awaited_def g_def notification_defs split: if_splits)
  moreover have "stream_ok v p ?s j (ud_streams s ! j)" if "j < length (ud_streams s)" "j \<noteq> i" for j
    by (rule stream_ok_kept [OF udp_inv_stream [OF assms(2) that(1)]]) (use that assms(3) in \<open>simp_all add: awaited_def\<close>)
  ultimately show ?thesis
    by (intro udp_inv_upd [OF assms(2) i(1), where st = "g (ud_streams s ! i)"])
      (use assms(2) a in \<open>auto simp: upd_stream_def udp_inv_def log_ok_def peers_ok_def g_def split: if_splits\<close>)
qed

lemma udp_inv_new_peer:
  assumes "notify_laws N v" "interval_laws I d p" "udp_inv v p s" "ud_pc s = AtPeek" "ud_queue s = (a, data) # q"
    "ud_peers s a = None" "new_peer N I now send_socket a s = Returns s'"
  shows "udp_inv v p s'"
proof (cases send_socket)
  case False
  then show ?thesis using assms(7) udp_inv_ended [OF assms(3,4)] by (simp add: new_peer_def)
next
  case True
  obtain w where w: "watchdog_new I now (ud_timeout s) = Returns w"
    using assms(7) True by (auto simp: new_peer_def udp_stream_new_def result_simps)
  let ?st = "\<lparr>us_peer = a, us_watchdog = w, us_data_read = False, us_pending = True,
    us_io = \<lparr>has_data_to_read = nt_notify_waiters N (nt_notified N (nt_new N)), has_read_data = nt_new N\<rparr>, us_live = True\<rparr>"
  have s': "s' = s\<lparr>ud_streams := ud_streams s @ [?st], ud_peers := (ud_peers s)(a \<mapsto> length (ud_streams s)), ud_pc := Yielded a\<rparr>"
    using assms(7) True w by (simp add: new_peer_def udp_stream_new_def set_io_def)
  have a: "a \<notin> set (ud_keys_to_delete s)" using assms(3,6) by (auto simp: udp_inv_def peers_ok_def)
  have new: "stream_ok v p s' (length (ud_streams s)) ?st"
    using assms(1,5) a watchdog_new_ok [OF assms(2) w]
    by (simp add: s' stream_ok_def calm_def awaited_def notification_defs notify_laws_def)
  have old: "stream_ok v p s' j (ud_streams s ! j)" if "j < length (ud_streams s)" for j
    using udp_inv_stream [OF assms(3) that] assms(4,6) that
    by (cases "us_peer (ud_streams s ! j) = a") (auto simp: s' stream_ok_def calm_def awaited_def)
  have "stream_ok v p s' j (ud_streams s' ! j)" if "j < length (ud_streams s')" for j
    using that new old [of j] by (cases "j < length (ud_streams s)") (auto simp: s' nth_append less_Suc_eq)
  moreover have "peers_ok s'"
  proof -
    have "peers_ok s" using assms(3) by (simp add: udp_inv_def)
    then show ?thesis using assms(4) by (auto simp: s' peers_ok_def nth_append intro: less_SucI)
  qed
  moreover have "log_ok s'"
  proof -
    have "log_ok s" using assms(3) by (simp add: udp_inv_def)
    moreover have "ud_streams s' ! j = ud_streams s ! j" if "j < length (ud_streams s)" for j
      using that by (simp add: s' nth_append)
    ultimately show ?thesis unfolding log_ok_def by (auto simp: s' intro: less_SucI)
  qed
  ultimately show ?thesis by (simp add: udp_inv_def)
qed

lemma live_registered:
  assumes "udp_inv v p s" "live s i"
  shows "ud_peers s (us_peer (ud_streams s ! i)) = Some i"
  using assms(2) udp_inv_stream [OF assms(1), of i] by (simp add: live_def stream_ok_def)

lemma awaited_unique:
  assumes "udp_inv v p s" "live s i" "live s j" "awaited (ud_pc s) i (ud_streams s ! i)" "awaited (ud_pc s) j (ud_streams s ! j)"
  shows "i = j"
proof -
  have "i = j \<or> us_peer (ud_streams s ! i) = us_peer (ud_streams s ! j)"
    using assms(4,5) unfolding awaited_def by (elim disjE) simp_all
  then show ?thesis
  proof
    assume "us_peer (ud_streams s ! i) = us_peer (ud_streams s ! j)"
    then have "Some i = Some j" by (simp only: live_registered [OF assms(1,2), symmetric] live_registered [OF assms(1,3), symmetric])
    then show ?thesis by simp
  qed
qed

lemma udp_inv_reads:
  assumes "notify_laws N v" "interval_laws I d p" "udp_inv v p s" "live s i"
    "udp_stream_poll_read N I now cap r (ud_streams s ! i) (ud_queue s) = Some (st, queue, result)"
  shows "udp_inv v p ((upd_stream i (\<lambda>_. st) s)\<lparr>ud_queue := queue, ud_taken := ud_taken s @ taken_by i (ud_queue s) result\<rparr>)"
    (is "udp_inv v p ?s")
proof -
  let ?old = "ud_streams s ! i"
  have i: "i < length (ud_streams s)" and l: "us_live ?old" using assms(4) by (simp_all add: live_def)
  note ok = udp_inv_stream [OF assms(3) i]
  have w: "watchdog_ok p (us_watchdog ?old)" using ok by (simp add: stream_ok_def)
  have step: "us_peer st = us_peer ?old \<and> us_live st \<and> watchdog_ok p (us_watchdog st) \<and> calm v (ud_pc s) queue i st \<and>
      (if reads result then ud_queue s = hd (ud_queue s) # queue \<and> awaited (ud_pc s) i ?old \<and> fst (hd (ud_queue s)) = us_peer ?old
       else queue = ud_queue s)"
  proof (cases "asleep v ?old")
    case True
    have "\<not> may_read v ?old" using True by (auto simp: may_read_def asleep_def)
    then show ?thesis using poll_read_asleep [OF assms(1,2) w True assms(5)] ok l
      by (auto simp: stream_ok_def calm_def awaited_def split: if_splits)
  next
    case False
    then have m: "may_read v ?old" "told v ?old = (NoSignal, ud_pc s = AtRead i)" "awaited (ud_pc s) i ?old"
      "ud_queue s \<noteq> []" "fst (hd (ud_queue s)) = us_peer ?old"
      using ok l by (auto simp: stream_ok_def calm_def split: if_splits)
    show ?thesis using poll_read_may_read [OF assms(1,2) w m(1,2) assms(5)] m(3-5) l
      by (auto simp: calm_def awaited_def split: if_splits)
  qed
  have "stream_ok v p ?s i st" using ok l step by (simp add: stream_ok_def)
  moreover have "stream_ok v p ?s j (ud_streams s ! j)" if "j < length (ud_streams s)" "j \<noteq> i" for j
    by (rule stream_ok_kept [OF udp_inv_stream [OF assms(3) that(1)]])
      (use that step awaited_unique [OF assms(3,4), of j] in \<open>auto simp: live_def split: if_splits\<close>)
  moreover have "ud_arrived ?s = map snd (ud_taken ?s) @ ud_queue ?s"
    using assms(3) step by (auto simp: udp_inv_def log_ok_def taken_by_reads split: if_splits)
  moreover have "j = i \<and> a = us_peer ?old" if "(j, a, data) \<in> set (ud_taken ?s) - set (ud_taken s)" for j a data
    using that step by (cases "hd (ud_queue s)") (auto simp: taken_by_reads split: if_splits)
  ultimately show ?thesis
    by (intro udp_inv_upd [OF assms(3) i, where st = st])
      (use assms(3) step in \<open>simp_all add: upd_stream_def udp_inv_def peers_ok_def\<close>)
qed

lemma udp_inv_dropped:
  assumes "notify_laws N v" "udp_inv v p s" "live s i"
  shows "udp_inv v p ((upd_stream i (drop_stream N) s)\<lparr>ud_keys_to_delete := ud_keys_to_delete s @ [us_peer (ud_streams s ! i)]\<rparr>)"
    (is "udp_inv v p ?s")
proof -
  have i: "i < length (ud_streams s)" and l: "us_live (ud_streams s ! i)" using assms(3) by (simp_all add: live_def)
  note ok = udp_inv_stream [OF assms(2) i]
  have "stream_ok v p ?s i (drop_stream N (ud_streams s ! i))"
    using ok l drop_stream_told [OF assms(1), of "ud_streams s ! i"]
    by (auto simp: stream_ok_def calm_def awaited_def drop_stream_same split: if_splits)
  moreover have "stream_ok v p ?s j (ud_streams s ! j)" if "j < length (ud_streams s)" "j \<noteq> i" for j
    using udp_inv_stream [OF assms(2) that(1)] ok l that by (auto simp: stream_ok_def split: if_splits)
  moreover have "ud_peers s (us_peer (ud_streams s ! i)) \<noteq> None" using ok l by (simp add: stream_ok_def)
  moreover have "peers_ok s" "log_ok s" using assms(2) by (simp_all add: udp_inv_def)
  ultimately show ?thesis
    by (intro udp_inv_upd [OF assms(2) i, where st = "drop_stream N (ud_streams s ! i)"])
      (auto simp: upd_stream_def peers_ok_def log_ok_def drop_stream_same)
qed

lemma server_runs_inv:
  assumes "notify_laws N v" "interval_laws I d p" "udp_inv v p s" "server_runs N I now b (ud_pc s) s = Some (Returns s')"
  shows "udp_inv v p s'"
proof (cases "ud_pc s")
  case AtLoop
  then show ?thesis using assms(4) udp_inv_clean [OF assms(3)] by simp
next
  case AtPeek
  then obtain a data q where q: "ud_queue s = (a, data) # q" using assms(4) by (auto split: list.split_asm)
  show ?thesis
  proof (cases "ud_peers s a")
    case None
    then show ?thesis using assms(4) AtPeek q udp_inv_new_peer [OF assms(1-3) AtPeek q None] by simp
  next
    case (Some i)
    then show ?thesis using assms(4) AtPeek q udp_inv_known_peer [OF assms(1,3) AtPeek q Some] by simp
  qed
next
  case (AtRead i)
  then show ?thesis using assms(4) udp_inv_wait [OF assms(1,3) AtRead] by (auto split: prod.split_asm)
next
  case (Yielded a)
  then obtain i where "ud_peers s a = Some i" using assms(3) by (auto simp: udp_inv_def peers_ok_def)
  then show ?thesis using assms(4) Yielded udp_inv_yielded [OF assms(1,3) Yielded] by simp
next
  case Ended
  then show ?thesis using assms(4) by simp
qed

lemma udp_step_inv:
  assumes "notify_laws N v" "interval_laws I d p" "udp_inv v p s" "udp_step N I s e = Some (Returns s')"
  shows "udp_inv v p s'"
proof (cases e)
  case (Arrive x)
  then show ?thesis using assms(4) udp_inv_arrive [OF assms(3), of x] by simp
next
  case (ServerRuns now b)
  then show ?thesis using assms(4) server_runs_inv [OF assms(1-3)] by simp
next
  case PeekFails
  then show ?thesis using assms(4) udp_inv_ended [OF assms(3)] by (auto split: if_split_asm)
next
  case (StreamReads i now cap r)
  then obtain st queue result where
    r: "live s i" "udp_stream_poll_read N I now cap r (ud_streams s ! i) (ud_queue s) = Some (st, queue, result)"
    using assms(4) by (auto split: if_split_asm option.split_asm)
  show ?thesis using assms(4) StreamReads r udp_inv_reads [OF assms(1-3) r] by simp
next
  case (StreamDropped i)
  then show ?thesis using assms(4) udp_inv_dropped [OF assms(1,3)] by (auto split: if_split_asm)
qed

lemma udp_reachable_inv:
  assumes "notify_laws N v" "interval_laws I d p" "udp_reachable N I t s"
  shows "udp_inv v p s"
  using assms(3) by induction (auto intro: udp_inv_new udp_step_inv [OF assms(1,2)])

section \<open>A runtime for the examples\<close>

text \<open>A \<open>Notify\<close> as a permit and the state of its future, an interval as its deadline and period.\<close>

datatype demo_future = NoFuture | Fresh | Registered | Notified

fun demo_poll :: "bool \<times> demo_future \<Rightarrow> (bool \<times> demo_future) \<times> bool" where
  "demo_poll (permit, Notified) = ((permit, NoFuture), True)"
| "demo_poll (True, f) = ((False, NoFuture), True)"
| "demo_poll (False, f) = ((False, if f = NoFuture then NoFuture else Registered), False)"

definition demo_notify :: "(bool \<times> demo_future) notify_ops" where
  "demo_notify =
     \<lparr>nt_new = (False, NoFuture),
      nt_notified = (\<lambda>(p, f). (p, Fresh)),
      nt_enable = (\<lambda>(p, f). if f = Fresh then (if p then (False, Notified) else (False, Registered)) else (p, f)),
      nt_notify_one = (\<lambda>(p, f). if f = Registered then (p, Notified) else (True, f)),
      nt_notify_waiters = (\<lambda>(p, f). (p, if f = NoFuture then NoFuture else Notified)),
      nt_poll = demo_poll,
      nt_drop = (\<lambda>(p, f). (p, NoFuture))\<rparr>"

definition demo_view :: "bool \<times> demo_future \<Rightarrow> signals \<times> bool" where
  "demo_view n =
     (case n of (permit, f) \<Rightarrow>
       (if permit \<and> f = Notified then MoreSignals else if permit \<or> f = Notified then OneSignal else NoSignal,
        f \<noteq> NoFuture))"

definition demo_interval :: "(duration \<times> duration) interval_ops" where
  "demo_interval =
     \<lparr>iv_at = (\<lambda>start p. if p = 0 then Panics ''`period` must be non-zero.'' else Returns (start, p)),
      iv_poll = (\<lambda>(d, p) now. if d \<le> now then ((d + p, p), True) else ((d, p), False))\<rparr>"

lemma demo_notify_sel [simp]:
  "nt_new demo_notify = (False, NoFuture)" "nt_notified demo_notify (b, f) = (b, Fresh)"
  "nt_enable demo_notify (b, f) = (if f = Fresh then (if b then (False, Notified) else (False, Registered)) else (b, f))"
  "nt_notify_one demo_notify (b, f) = (if f = Registered then (b, Notified) else (True, f))"
  "nt_notify_waiters demo_notify (b, f) = (b, if f = NoFuture then NoFuture else Notified)"
  "nt_poll demo_notify = demo_poll" "nt_drop demo_notify (b, f) = (b, NoFuture)"
  by (simp_all add: demo_notify_def)

lemma demo_poll_view:
  "demo_view n = (NoSignal, True) \<Longrightarrow> \<not> snd (demo_poll n) \<and> demo_view (fst (demo_poll n)) = (NoSignal, True)"
  "demo_view n = (OneSignal, True) \<Longrightarrow> snd (demo_poll n) \<and> demo_view (fst (demo_poll n)) = (NoSignal, False)"
  "demo_view n = (MoreSignals, True) \<Longrightarrow> snd (demo_poll n)"
  by (cases n rule: demo_poll.cases; auto simp: demo_view_def split: if_splits)+

lemma demo_notify_laws: "notify_laws demo_notify demo_view"
  unfolding notify_laws_def
proof (intro conjI allI impI)
  fix n show "fst (demo_view (nt_notify_one demo_notify n)) \<noteq> NoSignal"
    by (cases n; cases "snd n") (auto simp: demo_view_def)
next
  fix n show "snd (demo_view (nt_notify_one demo_notify n)) = snd (demo_view n)"
    by (cases n; cases "snd n") (auto simp: demo_view_def)
next
  fix n f assume "demo_view n = (NoSignal, f)"
  then show "demo_view (nt_notify_one demo_notify n) = (OneSignal, f)"
    by (cases n; cases "snd n") (auto simp: demo_view_def split: if_splits)
next
  fix n assume "demo_view n = (NoSignal, True)"
  then show "demo_view (fst (nt_poll demo_notify n)) = (NoSignal, True)" by (simp add: demo_poll_view)
next
  fix n assume "demo_view n = (OneSignal, True)"
  then show "demo_view (fst (nt_poll demo_notify n)) = (NoSignal, False)" by (simp add: demo_poll_view)
qed (auto simp: demo_poll_view, auto simp: demo_view_def split: if_splits)

lemma demo_interval_laws: "interval_laws demo_interval fst snd"
  by (auto simp: interval_laws_def demo_interval_def)

text \<open>Two peers send to a server whose streams time out after 5 ns; the first stream has read twice.\<close>

definition demo_peer :: "nat \<Rightarrow> socket_addr" where
  "demo_peer n = SocketAddrV4 (of_nat n) 53"

definition demo_udp_events :: "udp_event list" where
  "demo_udp_events =
     [Arrive (demo_peer 1, [1]), ServerRuns 0 True, ServerRuns 0 True, Arrive (demo_peer 2, [2]), Arrive (demo_peer 1, [3]),
      StreamReads 0 1 10 RxReady, ServerRuns 1 True, ServerRuns 1 True, ServerRuns 1 True, ServerRuns 1 True,
      StreamReads 0 2 10 RxReady, StreamReads 1 2 10 RxReady, ServerRuns 3 True, ServerRuns 3 True, ServerRuns 3 True,
      ServerRuns 3 True]"

definition demo_udp :: "(bool \<times> demo_future, duration \<times> duration) udp_server" where
  "demo_udp = (case udp_run demo_notify demo_interval (udp_server_new (Some 5)) demo_udp_events of Some s \<Rightarrow> s)"

lemma demo_udp_reachable: "udp_reachable demo_notify demo_interval (Some 5) demo_udp"
proof -
  have "\<not> Option.is_none (udp_run demo_notify demo_interval (udp_server_new (Some 5)) demo_udp_events)" by code_simp
  then show ?thesis by (auto simp: demo_udp_def Option.is_none_def intro: udp_run_reachable [OF udp_start])
qed

section \<open>What the server guarantees\<close>

text \<open>
  C5.  No datagram is lost, duplicated or reordered between the socket and the streams, and every one
  is read by a stream of its sender: the assertion of \<open>poll_read\<close> on the sender always holds, although
  all streams read from one socket, however the server, the streams and their drops interleave.  No
  two streams in use are for the same peer.
\<close>

theorem udp_datagrams_reach_their_stream:
  assumes "notify_laws N v" "interval_laws I deadline period" "udp_reachable N I timeout s"
  shows "ud_arrived s = map snd (ud_taken s) @ ud_queue s \<and>
    (\<forall>i sender data. (i, sender, data) \<in> set (ud_taken s) \<longrightarrow>
       i < length (ud_streams s) \<and> us_peer (ud_streams s ! i) = sender) \<and>
    (\<forall>i j. live s i \<and> live s j \<and> us_peer (ud_streams s ! i) = us_peer (ud_streams s ! j) \<longrightarrow> i = j)"
proof (intro conjI allI impI)
  have inv: "udp_inv v period s" by (rule udp_reachable_inv [OF assms])
  then have log: "log_ok s" by (simp add: udp_inv_def)
  then show "ud_arrived s = map snd (ud_taken s) @ ud_queue s" by (simp add: log_ok_def)
  fix i j sender data
  show "i < length (ud_streams s)" "us_peer (ud_streams s ! i) = sender" if "(i, sender, data) \<in> set (ud_taken s)"
    using that log by (auto simp: log_ok_def)
  assume "live s i \<and> live s j \<and> us_peer (ud_streams s ! i) = us_peer (ud_streams s ! j)"
  then show "i = j" using live_registered [OF inv] by (metis option.inject)
qed

theorem udp_datagrams_reach_their_stream_witness:
  "ud_taken demo_udp = [(0, demo_peer 1, [1]), (1, demo_peer 2, [2])] \<and>
   ud_arrived demo_udp = map snd (ud_taken demo_udp) @ ud_queue demo_udp"
proof
  show "ud_taken demo_udp = [(0, demo_peer 1, [1]), (1, demo_peer 2, [2])]" by code_simp
  show "ud_arrived demo_udp = map snd (ud_taken demo_udp) @ ud_queue demo_udp"
    using udp_datagrams_reach_their_stream [OF demo_notify_laws demo_interval_laws demo_udp_reachable] by simp
qed

text \<open>
  C17.  The server never waits in vain: while it waits for a stream to read, either its wait is over,
  or the stream is in use and, polled when the socket is ready, reads the next datagram, which its own
  peer has sent, or reports that it timed out.
\<close>

theorem udp_server_waits_for_a_reader:
  assumes "notify_laws N v" "interval_laws I deadline period" "udp_reachable N I timeout s" "ud_pc s = AtRead i"
  shows "(\<exists>s'. udp_step N I s (ServerRuns now send_socket) = Some (Returns s') \<and> ud_pc s' = AtLoop) \<or>
    (live s i \<and> (\<exists>st queue result.
       udp_stream_poll_read N I now cap RxReady (ud_streams s ! i) (ud_queue s) = Some (st, queue, result) \<and>
       (result = Ready (Err TimedOut) \<or>
        (\<exists>data. ud_queue s = (us_peer (ud_streams s ! i), data) # queue \<and>
                result = Ready (Ok (us_peer (ud_streams s ! i), take cap data))))))"
proof -
  let ?st = "ud_streams s ! i"
  have inv: "udp_inv v period s" by (rule udp_reachable_inv [OF assms(1-3)])
  then obtain a where a: "ud_peers s a = Some i" "i < length (ud_streams s)" "us_peer ?st = a"
    using assms(4) by (auto simp: udp_inv_def peers_ok_def)
  note ok = udp_inv_stream [OF inv a(2)]
  show ?thesis
  proof (cases "us_live ?st \<and> may_read v ?st")
    case True
    then have q: "ud_queue s \<noteq> []" "fst (hd (ud_queue s)) = us_peer ?st"
      using ok assms(4) by (auto simp: stream_ok_def calm_def awaited_def asleep_def may_read_def)
    obtain w dr t where w: "poll_watchdog I now (us_watchdog ?st) (us_data_read ?st) = Some (w, dr, t)"
      using poll_watchdog_returns [OF assms(2)] ok unfolding stream_ok_def by metis
    have "may_read v (?st\<lparr>us_watchdog := w, us_data_read := dr\<rparr>)" using True by (simp add: may_read_def)
    then have "snd (poll_notification N (?st\<lparr>us_watchdog := w, us_data_read := dr\<rparr>))"
      using poll_notification_may_read [OF assms(1)] by (metis prod.collapse)
    then show ?thesis using True q w a(2)
      by (cases "ud_queue s") (auto simp: live_def udp_stream_poll_read_def Let_def split: prod.split)
  next
    case False
    then have "told v ?st = (fst (told v ?st), True)" "fst (told v ?st) \<noteq> NoSignal"
      using ok a assms(4) by (cases "told v ?st"; auto simp: stream_ok_def calm_def awaited_def split: if_splits)+
    then have "snd (nt_poll N (has_read_data (us_io ?st)))"
      using assms(1) by (cases "fst (told v ?st)") (auto simp: told_def notify_laws_def)
    then show ?thesis using assms(4) by (cases "nt_poll N (has_read_data (us_io ?st))") simp
  qed
qed

theorem udp_server_waits_for_a_reader_witness:
  "ud_pc demo_udp = AtRead 0 \<and> live demo_udp 0 \<and> us_peer (ud_streams demo_udp ! 0) = demo_peer 1 \<and>
   (\<exists>st queue. udp_stream_poll_read demo_notify demo_interval 4 10 RxReady (ud_streams demo_udp ! 0) (ud_queue demo_udp) =
      Some (st, queue, Ready (Ok (demo_peer 1, [3]))))"
proof -
  have pc: "ud_pc demo_udp = AtRead 0" by code_simp
  have p: "us_peer (ud_streams demo_udp ! 0) = demo_peer 1" by code_simp
  have q: "ud_queue demo_udp = [(demo_peer 1, [3])]" by code_simp
  have n: "snd (snd (the (udp_stream_poll_read demo_notify demo_interval 4 10 RxReady (ud_streams demo_udp ! 0) (ud_queue demo_udp))))
     \<noteq> Ready (Err TimedOut)" by code_simp
  have r: "snd (nt_poll demo_notify (has_read_data (us_io (ud_streams demo_udp ! 0)))) = False" by code_simp
  show ?thesis
    using udp_server_waits_for_a_reader [OF demo_notify_laws demo_interval_laws demo_udp_reachable pc, of 4 True 10]
      pc p q n r by (auto split: prod.split_asm)
qed

text \<open>
  C18.  Every read of a stream returns: the loop that clears the missed ticks of the watchdog ends,
  whatever time has passed, and unless the stream is found to have timed out the next deadline then
  lies in the future.
\<close>

theorem udp_stream_poll_read_returns:
  assumes "notify_laws N v" "interval_laws I deadline period" "udp_reachable N I timeout s" "i < length (ud_streams s)"
  shows "\<exists>st queue' result. udp_stream_poll_read N I now cap r (ud_streams s ! i) queue = Some (st, queue', result) \<and>
    (result = Ready (Err TimedOut) \<or> (case us_watchdog st of None \<Rightarrow> True | Some w \<Rightarrow> now < deadline w))"
proof -
  have "watchdog_ok period (us_watchdog (ud_streams s ! i))"
    using udp_inv_stream [OF udp_reachable_inv [OF assms(1-3)] assms(4)] by (simp add: stream_ok_def)
  from poll_watchdog_future [OF assms(2) this] obtain w dr t where
    w: "poll_watchdog I now (us_watchdog (ud_streams s ! i)) (us_data_read (ud_streams s ! i)) = Some (w, dr, t)"
    "t \<or> (case w of None \<Rightarrow> True | Some w \<Rightarrow> now < deadline w)" by blast
  obtain st b where st: "poll_notification N ((ud_streams s ! i)\<lparr>us_watchdog := w, us_data_read := dr\<rparr>) = (st, b)" by fastforce
  then have "us_watchdog st = w" using poll_notification_same by fastforce
  then show ?thesis using w st
    by (auto simp: udp_stream_poll_read_def Let_def rearm_same split: rx.split list.split)
qed

theorem udp_stream_poll_read_returns_witness:
  "length (ud_streams demo_udp) = 2 \<and>
   (\<exists>st queue' result. udp_stream_poll_read demo_notify demo_interval 1000 8 RxBlocked (ud_streams demo_udp ! 0) [] =
      Some (st, queue', result) \<and>
      (result = Ready (Err TimedOut) \<or> (case us_watchdog st of None \<Rightarrow> True | Some w \<Rightarrow> 1000 < fst w)))"
proof
  show l: "length (ud_streams demo_udp) = 2" by code_simp
  show "\<exists>st queue' result. udp_stream_poll_read demo_notify demo_interval 1000 8 RxBlocked (ud_streams demo_udp ! 0) [] =
      Some (st, queue', result) \<and>
      (result = Ready (Err TimedOut) \<or> (case us_watchdog st of None \<Rightarrow> True | Some w \<Rightarrow> 1000 < fst w))"
    by (rule udp_stream_poll_read_returns [OF demo_notify_laws demo_interval_laws demo_udp_reachable]) (simp add: l)
qed

text \<open>
  C33.  When a datagram of a new peer comes in, the server panics exactly if the timeout of its
  streams is zero or so long that the clock overflows; the timeout is not checked before.  The
  timeout of a reverse tunnel is chosen by the client.
\<close>

theorem udp_server_panics_iff:
  assumes "interval_laws I deadline period" "ud_pc s = AtPeek" "ud_queue s = (peer, data) # q" "ud_peers s peer = None"
  shows "(\<exists>m. udp_step N I s (ServerRuns now True) = Some (Panics m)) \<longleftrightarrow>
    (case ud_timeout s of None \<Rightarrow> False | Some t \<Rightarrow> t = 0 \<or> 2 ^ 63 * 10 ^ 9 \<le> now + t)"
  using assms(2-4) watchdog_new_panics [OF assms(1), of now "ud_timeout s"]
  by (cases "watchdog_new I now (ud_timeout s)") (simp_all add: new_peer_def udp_stream_new_def)

theorem udp_server_panics_iff_witness:
  "\<exists>m. udp_step demo_notify demo_interval
     \<lparr>ud_queue = [(demo_peer 1, [])], ud_peers = Map.empty, ud_keys_to_delete = [], ud_timeout = Some 0, ud_streams = [],
      ud_pc = AtPeek, ud_arrived = [(demo_peer 1, [])], ud_taken = []\<rparr> (ServerRuns 7 True) = Some (Panics m)"
  by (subst udp_server_panics_iff [OF demo_interval_laws]) simp_all

end
