(* ===== verification/Socks5.thy ===== *)
theory Socks5
  imports Listeners Udp_Server
begin

text \<open>
  The SOCKS5 server that a client offers locally and a server offers for reverse tunnels
  (\<open>protocols/socks5\<close>).  \<open>tcp_server.rs\<close> accepts TCP connections, leaves the handshake to the crate
  \<open>fast_socks5\<close> and answers itself; \<open>udp_server.rs\<close> relays datagrams, one stream per sender and
  destination, fed through a channel of capacity 1024.  The crate is the parameter \<open>L\<close>; the channel
  and the tasks are part of the state, an event is one step of one task.
\<close>

section \<open>The crate\<close>

datatype target_addr = TargetIp socket_addr | TargetDomain string u16

datatype socks5_command = TCPConnect | TCPBind | UDPAssociate

record s5_config =
  sc_allow_no_auth :: bool
  sc_auth :: "(string \<times> string) option"
  sc_dns_resolve :: bool
  sc_execute_command :: bool
  sc_udp_support :: bool

text \<open>
  The handshake with a connection, giving target and command; the parser of a UDP request, giving the
  fragment number, the destination and the data; and the header of a UDP answer.
\<close>

record 'c socks5_lib =
  s5_upgrade :: "s5_config \<Rightarrow> 'c \<Rightarrow> (target_addr option \<times> socks5_command option) option"
  s5_parse_udp :: "bytes \<Rightarrow> (u8 \<times> target_addr \<times> bytes) option"
  s5_udp_header :: "target_addr \<Rightarrow> bytes option"

text \<open>
  What the handshake promises: \<open>presents\<close> is the login and password a client sends.  Without permission
  to go unauthenticated the handshake only succeeds with the configured login and password.
\<close>

definition handshake_ok :: "'c socks5_lib \<Rightarrow> ('c \<Rightarrow> (string \<times> string) option) \<Rightarrow> bool" where
  "handshake_ok L presents \<longleftrightarrow>
     (\<forall>cfg c. s5_upgrade L cfg c \<noteq> None \<and> \<not> sc_allow_no_auth cfg \<longrightarrow> sc_auth cfg \<noteq> None \<and> presents c = sc_auth cfg)"

section \<open>TCP connections\<close>

text \<open>The configuration \<open>run_server\<close> makes from the credentials.\<close>

definition socks5_config :: "(string \<times> string) option \<Rightarrow> s5_config" where
  "socks5_config credentials =
     \<lparr>sc_allow_no_auth = (credentials = None), sc_auth = credentials, sc_dns_resolve = False,
      sc_execute_command = False, sc_udp_support = True\<rparr>"

text \<open>The reply, with the constants of RFC 1928.\<close>

definition SOCKS5_VERSION :: u8 where "SOCKS5_VERSION = 5"
definition SOCKS5_ADDR_TYPE_IPV4 :: u8 where "SOCKS5_ADDR_TYPE_IPV4 = 1"
definition SOCKS5_ADDR_TYPE_IPV6 :: u8 where "SOCKS5_ADDR_TYPE_IPV6 = 4"
definition Succeeded :: u8 where "Succeeded = 0"

fun new_reply :: "u8 \<Rightarrow> socket_addr \<Rightarrow> bytes" where
  "new_reply err (SocketAddrV4 ip port) =
     [SOCKS5_VERSION, err, 0, SOCKS5_ADDR_TYPE_IPV4] @ be_bytes ip @ be_bytes port"
| "new_reply err (SocketAddrV6 ip port flow scope) =
     [SOCKS5_VERSION, err, 0, SOCKS5_ADDR_TYPE_IPV6] @ be_bytes ip @ be_bytes port"

fun socks5_target :: "target_addr \<Rightarrow> host \<times> u16" where
  "socks5_target (TargetIp (SocketAddrV4 ip port)) = (Ipv4 ip, port)"
| "socks5_target (TargetIp (SocketAddrV6 ip port flow scope)) = (Ipv6 ip, port)"
| "socks5_target (TargetDomain d port) = (Domain d, port)"

text \<open>
  One accepted connection: what is written to it, and whether it is dropped, kept for a UDP
  association, or handed out with its destination.
\<close>

datatype 'c socks5_cnx = Dropped | Associated 'c | Handed 'c host u16

definition socks5_serve_cnx :: "'c socks5_lib \<Rightarrow> socket_addr \<Rightarrow> s5_config \<Rightarrow> 'c \<Rightarrow> bool \<Rightarrow> bytes \<times> 'c socks5_cnx" where
  "socks5_serve_cnx L bind cfg c write_ok =
     (case s5_upgrade L cfg c of
        None \<Rightarrow> ([], Dropped)
      | Some (None, cmd) \<Rightarrow> ([], Dropped)
      | Some (Some target, cmd) \<Rightarrow>
          (case socks5_target target of (h, p) \<Rightarrow>
             if cmd = Some UDPAssociate
             then (new_reply Succeeded bind, if write_ok then Associated c else Dropped)
             else (new_reply Succeeded (SocketAddrV4 0x7F000001 0), if write_ok then Handed c h p else Dropped)))"

section \<open>UDP streams\<close>

text \<open>
  A stream and the channel to it, which it keeps open itself by holding a sender.  It is dropped in two
  steps: its key is marked for deletion, then its receiver is closed.  \<open>ss_got\<close> records what was taken
  from the channel.
\<close>

datatype s5_life = InUse | Dropping | Closed

record 'v s5_stream =
  ss_peer :: socket_addr
  ss_dest :: target_addr
  ss_header :: bytes
  ss_watchdog :: "'v option"
  ss_data_read :: bool
  ss_chan :: "bytes list"
  ss_life :: s5_life
  ss_got :: "bytes list"

type_synonym peer_map_key = "socket_addr \<times> target_addr"

definition ss_key :: "'v s5_stream \<Rightarrow> peer_map_key" where
  "ss_key st = (ss_peer st, ss_dest st)"

definition s5_channel_capacity :: nat where
  "s5_channel_capacity = 1024"

text \<open>The header is unwrapped.\<close>

definition s5_stream_new ::
  "'c socks5_lib \<Rightarrow> 'v interval_ops \<Rightarrow> duration \<Rightarrow> socket_addr \<Rightarrow> target_addr \<Rightarrow> duration option \<Rightarrow> 'v s5_stream run" where
  "s5_stream_new L I now peer dest timeout =
     run_then (expect ''called `Result::unwrap()` on an `Err` value'' (s5_udp_header L dest)) (\<lambda>header.
     run_then (watchdog_new I now timeout) (\<lambda>w.
       Returns \<lparr>ss_peer = peer, ss_dest = dest, ss_header = header, ss_watchdog = w, ss_data_read = False,
         ss_chan = [], ss_life = InUse, ss_got = []\<rparr>))"

fun s5_destination :: "target_addr \<Rightarrow> host \<times> u16" where
  "s5_destination (TargetIp a) = to_host_port a"
| "s5_destination (TargetDomain d p) = (Domain d, p)"

datatype s5_error = S5TimedOut | S5TooLarge | S5Os string

definition s5_poll_read ::
  "'v interval_ops \<Rightarrow> duration \<Rightarrow> nat \<Rightarrow> 'v s5_stream \<Rightarrow> ('v s5_stream \<times> (bytes, s5_error) result poll) option" where
  "s5_poll_read I now cap st =
     (case poll_watchdog I now (ss_watchdog st) (ss_data_read st) of
        None \<Rightarrow> None
      | Some (w, data_read, timed_out) \<Rightarrow>
          (let st1 = st\<lparr>ss_watchdog := w, ss_data_read := data_read\<rparr> in
           if timed_out then Some (st1, Ready (Err S5TimedOut))
           else (case ss_chan st of
               [] \<Rightarrow> Some (st1, Pending)
             | data # rest \<Rightarrow>
                 (let st2 = st1\<lparr>ss_chan := rest, ss_got := ss_got st @ [data]\<rparr> in
                  if cap < length data then Some (st2, Ready (Err S5TooLarge))
                  else Some (st2\<lparr>ss_data_read := True\<rparr>, Ready (Ok data))))))"

text \<open>The writer: the header is extended by the data for the call and cut back after it.\<close>

definition s5_poll_write ::
  "(unit, 'e) result poll \<Rightarrow> socket_addr \<Rightarrow> bytes \<Rightarrow> bytes \<Rightarrow> datagram list \<Rightarrow> bytes \<times> datagram list \<times> (nat, 'e) result poll" where
  "s5_poll_write answer peer udp_header buf sent =
     (let header_len = length udp_header; extended = udp_header @ buf in
      case udp_send_to answer peer extended sent of (sent', ret) \<Rightarrow>
        (take header_len extended, sent',
         case ret of Pending \<Rightarrow> Pending | Ready (Err e) \<Rightarrow> Ready (Err e) | Ready (Ok n) \<Rightarrow> Ready (Ok (n - header_len))))"

section \<open>The UDP server\<close>

datatype s5_pc = S5Loop | S5Recv | S5Send nat bytes bytes | S5Ended

text \<open>\<open>sv_routed\<close> records the datagrams that were put into a channel, with the stream.\<close>

record 'v s5_server =
  sv_peers :: "peer_map_key \<rightharpoonup> nat"
  sv_keys_to_delete :: "peer_map_key list"
  sv_timeout :: "duration option"
  sv_streams :: "'v s5_stream list"
  sv_pc :: s5_pc
  sv_routed :: "(nat \<times> datagram) list"

definition s5_server_new :: "duration option \<Rightarrow> 'v s5_server" where
  "s5_server_new timeout =
     \<lparr>sv_peers = Map.empty, sv_keys_to_delete = [], sv_timeout = timeout, sv_streams = [], sv_pc = S5Loop, sv_routed = []\<rparr>"

text \<open>The buffers of the socket are enlarged as those of the plain UDP server.\<close>

definition s5_grow_socket_buffer :: "(nat \<Rightarrow> bool) \<Rightarrow> nat option" where
  "s5_grow_socket_buffer accepts = find (\<lambda>size. accepts (size * 1024 * 1024)) [64, 32, 16, 8, 4, 2, 1]"

definition s5_clean_dead_keys :: "'v s5_server \<Rightarrow> 'v s5_server" where
  "s5_clean_dead_keys s =
     (if length (sv_keys_to_delete s) = 0 then s
      else s\<lparr>sv_peers := foldl (\<lambda>m k. m(k := None)) (sv_peers s) (sv_keys_to_delete s), sv_keys_to_delete := []\<rparr>)"

datatype s5_event =
    S5Clean
  | S5Datagram duration socket_addr bytes
  | S5RecvFails
  | S5SendOne
  | S5Read nat duration nat
  | S5DropKey nat
  | S5DropDone nat

definition upd_s5 :: "nat \<Rightarrow> ('v s5_stream \<Rightarrow> 'v s5_stream) \<Rightarrow> 'v s5_server \<Rightarrow> 'v s5_server" where
  "upd_s5 i f s = s\<lparr>sv_streams := (sv_streams s)[i := f (sv_streams s ! i)]\<rparr>"

definition s5_push :: "nat \<Rightarrow> datagram \<Rightarrow> bytes \<Rightarrow> 'v s5_server \<Rightarrow> 'v s5_server" where
  "s5_push i d data s =
     (upd_s5 i (\<lambda>st. st\<lparr>ss_chan := ss_chan st @ [data]\<rparr>) s)\<lparr>sv_routed := sv_routed s @ [(i, d)]\<rparr>"

text \<open>
  A datagram: broken and fragmented ones are skipped; one with a known sender and destination is sent to
  its stream, which may have to wait for room; for any other a stream is created, given the data,
  registered and handed out.
\<close>

definition s5_datagram ::
  "'c socks5_lib \<Rightarrow> 'v interval_ops \<Rightarrow> duration \<Rightarrow> socket_addr \<Rightarrow> bytes \<Rightarrow> 'v s5_server \<Rightarrow> ('v s5_server \<times> nat option) run" where
  "s5_datagram L I now peer payload s =
     (case s5_parse_udp L payload of
        None \<Rightarrow> Returns (s\<lparr>sv_pc := S5Loop\<rparr>, None)
      | Some (frag, dest, data) \<Rightarrow>
          if frag \<noteq> 0 then Returns (s\<lparr>sv_pc := S5Loop\<rparr>, None)
          else (case sv_peers s (peer, dest) of
              Some i \<Rightarrow> Returns (s\<lparr>sv_pc := S5Send i payload data\<rparr>, None)
            | None \<Rightarrow>
                run_then (s5_stream_new L I now peer dest (sv_timeout s)) (\<lambda>st.
                  (let i = length (sv_streams s) in
                   Returns ((s5_push i (peer, payload) data (s\<lparr>sv_streams := sv_streams s @ [st]\<rparr>))
                     \<lparr>sv_peers := (sv_peers s)((peer, dest) \<mapsto> i), sv_pc := S5Loop\<rparr>, Some i)))))"

definition in_use :: "'v s5_server \<Rightarrow> nat \<Rightarrow> bool" where
  "in_use s i \<longleftrightarrow> i < length (sv_streams s) \<and> ss_life (sv_streams s ! i) = InUse"

fun s5_step ::
  "'c socks5_lib \<Rightarrow> 'v interval_ops \<Rightarrow> 'v s5_server \<Rightarrow> s5_event \<Rightarrow> ('v s5_server \<times> nat option) run option" where
  "s5_step L I s S5Clean =
     (if sv_pc s = S5Loop then Some (Returns ((s5_clean_dead_keys s)\<lparr>sv_pc := S5Recv\<rparr>, None)) else None)"
| "s5_step L I s (S5Datagram now peer payload) =
     (if sv_pc s = S5Recv then Some (s5_datagram L I now peer payload s) else None)"
| "s5_step L I s S5RecvFails = (if sv_pc s = S5Recv then Some (Returns (s\<lparr>sv_pc := S5Ended\<rparr>, None)) else None)"
| "s5_step L I s S5SendOne =
     (case sv_pc s of
        S5Send i payload data \<Rightarrow>
          (if ss_life (sv_streams s ! i) = Closed
           then Some (Returns (s\<lparr>sv_peers := (sv_peers s)(ss_key (sv_streams s ! i) := None), sv_pc := S5Loop\<rparr>, None))
           else if length (ss_chan (sv_streams s ! i)) < s5_channel_capacity
           then Some (Returns ((s5_push i (ss_peer (sv_streams s ! i), payload) data s)\<lparr>sv_pc := S5Loop\<rparr>, None))
           else None)
      | _ \<Rightarrow> None)"
| "s5_step L I s (S5Read i now cap) =
     (if in_use s i then
        (case s5_poll_read I now cap (sv_streams s ! i) of
           None \<Rightarrow> None
         | Some (st, result) \<Rightarrow> Some (Returns (upd_s5 i (\<lambda>_. st) s, None)))
      else None)"
| "s5_step L I s (S5DropKey i) =
     (if in_use s i then
        Some (Returns ((upd_s5 i (\<lambda>st. st\<lparr>ss_life := Dropping\<rparr>) s)
          \<lparr>sv_keys_to_delete := sv_keys_to_delete s @ [ss_key (sv_streams s ! i)]\<rparr>, None))
      else None)"
| "s5_step L I s (S5DropDone i) =
     (if i < length (sv_streams s) \<and> ss_life (sv_streams s ! i) = Dropping
      then Some (Returns (upd_s5 i (\<lambda>st. st\<lparr>ss_life := Closed\<rparr>) s, None)) else None)"

inductive s5_reachable :: "'c socks5_lib \<Rightarrow> 'v interval_ops \<Rightarrow> duration option \<Rightarrow> 'v s5_server \<Rightarrow> bool" for L I timeout where
  s5_start: "s5_reachable L I timeout (s5_server_new timeout)"
| s5_next: "s5_reachable L I timeout s \<Longrightarrow> s5_step L I s e = Some (Returns (s', out)) \<Longrightarrow> s5_reachable L I timeout s'"

section \<open>The listener\<close>

text \<open>
  The stream of \<open>run_server\<close>: a TCP connection comes in, accepting fails or ends, or the UDP server makes
  a step; a UDP stream it hands out is handed on with its destination.  The state is the UDP server and
  the connections kept open for associations; \<open>None\<close>: the stream has ended.
\<close>

datatype 'c socks5_event = TcpIncoming "('c, string) result option" bool | UdpStep s5_event

record ('c, 'v) socks5_server =
  s5_udp :: "'v s5_server"
  s5_tasks :: "'c list"

datatype 'c socks5_item = ItemTcp 'c host u16 | ItemUdp nat host u16 | ItemErr string

fun socks5_event_step ::
  "'c socks5_lib \<Rightarrow> 'v interval_ops \<Rightarrow> socket_addr \<Rightarrow> s5_config \<Rightarrow> ('c, 'v) socks5_server \<Rightarrow> 'c socks5_event
   \<Rightarrow> (('c, 'v) socks5_server \<times> 'c socks5_item option) run option" where
  "socks5_event_step L I bind cfg s (TcpIncoming None w) = None"
| "socks5_event_step L I bind cfg s (TcpIncoming (Some (Err e)) w) = Some (Returns (s, Some (ItemErr e)))"
| "socks5_event_step L I bind cfg s (TcpIncoming (Some (Ok c)) w) =
     (case snd (socks5_serve_cnx L bind cfg c w) of
        Dropped \<Rightarrow> Some (Returns (s, None))
      | Associated c \<Rightarrow> Some (Returns (s\<lparr>s5_tasks := s5_tasks s @ [c]\<rparr>, None))
      | Handed c h p \<Rightarrow> Some (Returns (s, Some (ItemTcp c h p))))"
| "socks5_event_step L I bind cfg s (UdpStep e) =
     (case s5_step L I (s5_udp s) e of
        None \<Rightarrow> None
      | Some (Panics m) \<Rightarrow> Some (Panics m)
      | Some (Returns (u, out)) \<Rightarrow>
          Some (Returns (s\<lparr>s5_udp := u\<rparr>,
            map_option (\<lambda>i. case s5_destination (ss_dest (sv_streams u ! i)) of (h, p) \<Rightarrow> ItemUdp i h p) out)))"

fun socks5_run ::
  "'c socks5_lib \<Rightarrow> 'v interval_ops \<Rightarrow> socket_addr \<Rightarrow> s5_config \<Rightarrow> ('c, 'v) socks5_server \<Rightarrow> 'c socks5_event list
   \<Rightarrow> 'c socks5_item list option" where
  "socks5_run L I bind cfg s [] = Some []"
| "socks5_run L I bind cfg s (e # es) =
     (case socks5_event_step L I bind cfg s e of
        Some (Returns (s', item)) \<Rightarrow>
          map_option (\<lambda>items. (case item of None \<Rightarrow> items | Some x \<Rightarrow> x # items)) (socks5_run L I bind cfg s' es)
      | _ \<Rightarrow> None)"

definition socks5_server_new :: "duration option \<Rightarrow> ('c, 'v) socks5_server" where
  "socks5_server_new timeout = \<lparr>s5_udp = s5_server_new timeout, s5_tasks = []\<rparr>"

section \<open>The registry of streams\<close>

text \<open>
  Every entry is for the stream with its key; a stream in use is registered and not marked for deletion;
  outside the head of the loop every marked key is registered; a stream that is being sent to is the
  registered one of the datagram.
\<close>

definition s5_registry_ok :: "'c socks5_lib \<Rightarrow> 'v s5_server \<Rightarrow> bool" where
  "s5_registry_ok L s \<longleftrightarrow>
     (\<forall>k i. sv_peers s k = Some i \<longrightarrow> i < length (sv_streams s) \<and> ss_key (sv_streams s ! i) = k) \<and>
     (\<forall>i. in_use s i \<longrightarrow>
        sv_peers s (ss_key (sv_streams s ! i)) = Some i \<and> ss_key (sv_streams s ! i) \<notin> set (sv_keys_to_delete s)) \<and>
     (sv_pc s \<noteq> S5Loop \<longrightarrow> (\<forall>k \<in> set (sv_keys_to_delete s). sv_peers s k \<noteq> None)) \<and>
     (\<forall>i payload data. sv_pc s = S5Send i payload data \<longrightarrow>
        sv_peers s (ss_key (sv_streams s ! i)) = Some i \<and>
        s5_parse_udp L payload = Some (0, ss_dest (sv_streams s ! i), data))"

lemma upd_s5_simps [simp]:
  "length (sv_streams (upd_s5 i f s)) = length (sv_streams s)"
  "sv_streams (upd_s5 i f s) ! j =
     (if i = j \<and> i < length (sv_streams s) then f (sv_streams s ! i) else sv_streams s ! j)"
  "sv_peers (upd_s5 i f s) = sv_peers s" "sv_keys_to_delete (upd_s5 i f s) = sv_keys_to_delete s"
  "sv_timeout (upd_s5 i f s) = sv_timeout s" "sv_pc (upd_s5 i f s) = sv_pc s" "sv_routed (upd_s5 i f s) = sv_routed s"
  by (simp_all add: upd_s5_def) (cases "i < length (sv_streams s)"; auto simp: nth_list_update nth_list_update_neq list_update_beyond)

lemma s5_push_simps [simp]:
  "length (sv_streams (s5_push i d data s)) = length (sv_streams s)"
  "sv_streams (s5_push i d data s) ! j =
     (if i = j \<and> i < length (sv_streams s) then (sv_streams s ! i)\<lparr>ss_chan := ss_chan (sv_streams s ! i) @ [data]\<rparr>
      else sv_streams s ! j)"
  "sv_peers (s5_push i d data s) = sv_peers s" "sv_keys_to_delete (s5_push i d data s) = sv_keys_to_delete s"
  "sv_pc (s5_push i d data s) = sv_pc s" "sv_routed (s5_push i d data s) = sv_routed s @ [(i, d)]"
  by (simp_all add: s5_push_def)

lemma s5_clean_dead_keys_eq:
  "s5_clean_dead_keys s = s\<lparr>sv_peers := (\<lambda>k. if k \<in> set (sv_keys_to_delete s) then None else sv_peers s k), sv_keys_to_delete := []\<rparr>"
  by (simp add: s5_clean_dead_keys_def foldl_remove)

lemma s5_poll_read_same:
  assumes "s5_poll_read I now cap st = Some (st', r)"
  shows "ss_peer st' = ss_peer st" "ss_dest st' = ss_dest st" "ss_life st' = ss_life st"
    "ss_got st' @ ss_chan st' = ss_got st @ ss_chan st" "length (ss_chan st') \<le> length (ss_chan st)" "ss_header st' = ss_header st"
  using assms by (auto simp: s5_poll_read_def Let_def split: option.split_asm if_split_asm list.split_asm)

lemma s5_stream_new_fields:
  assumes "s5_stream_new L I now peer dest t = Returns st"
  shows "ss_peer st = peer" "ss_dest st = dest" "ss_life st = InUse" "ss_chan st = []" "ss_got st = []"
    "\<exists>w. watchdog_new I now t = Returns w \<and> ss_watchdog st = w" "s5_udp_header L dest = Some (ss_header st)"
  using assms by (auto simp: s5_stream_new_def result_simps)

text \<open>What a datagram leads to.\<close>

lemma s5_datagram_cases:
  assumes "s5_datagram L I now peer payload s = Returns (s', out)"
  obtains (skipped) "s' = s\<lparr>sv_pc := S5Loop\<rparr>" "out = None"
  | (known) dest data i where "s5_parse_udp L payload = Some (0, dest, data)" "sv_peers s (peer, dest) = Some i"
      "s' = s\<lparr>sv_pc := S5Send i payload data\<rparr>" "out = None"
  | (new) dest data st where "s5_parse_udp L payload = Some (0, dest, data)" "sv_peers s (peer, dest) = None"
      "s5_stream_new L I now peer dest (sv_timeout s) = Returns st" "out = Some (length (sv_streams s))"
      "s' = (s5_push (length (sv_streams s)) (peer, payload) data (s\<lparr>sv_streams := sv_streams s @ [st]\<rparr>))
              \<lparr>sv_peers := (sv_peers s)((peer, dest) \<mapsto> length (sv_streams s)), sv_pc := S5Loop\<rparr>"
proof (cases "s5_parse_udp L payload")
  case None
  then show thesis using assms skipped by (simp add: s5_datagram_def)
next
  case (Some fdd)
  obtain frag dest data where p: "s5_parse_udp L payload = Some (frag, dest, data)" using Some by (cases fdd) auto
  show thesis
  proof (cases "frag = 0")
    case False
    then show thesis using assms p skipped by (simp add: s5_datagram_def)
  next
    case True
    show thesis
    proof (cases "sv_peers s (peer, dest)")
      case None
      then obtain st where "s5_stream_new L I now peer dest (sv_timeout s) = Returns st"
        using assms p True by (auto simp: s5_datagram_def result_simps)
      then show thesis using assms p True None new [of dest data st] by (auto simp: s5_datagram_def Let_def)
    next
      case (Some i)
      then show thesis using assms p True known by (simp add: s5_datagram_def)
    qed
  qed
qed

lemma s5_registry_datagram:
  assumes "s5_registry_ok L s" "sv_pc s = S5Recv" "s5_datagram L I now peer payload s = Returns (s', out)"
  shows "s5_registry_ok L s'"
  using assms(3)
proof (cases rule: s5_datagram_cases)
  case skipped
  then show ?thesis using assms(1,2) by (simp add: s5_registry_ok_def in_use_def)
next
  case (known dest data i)
  have "i < length (sv_streams s)" "ss_key (sv_streams s ! i) = (peer, dest)"
    using assms(1) known(2) unfolding s5_registry_ok_def by blast+
  then have "sv_peers s (ss_key (sv_streams s ! i)) = Some i" "ss_dest (sv_streams s ! i) = dest"
    using known(2) by (simp_all add: ss_key_def)
  then show ?thesis using assms(1,2) known(1,3) by (simp add: s5_registry_ok_def in_use_def)
next
  case (new dest data st)
  have key: "ss_key st = (peer, dest)" using s5_stream_new_fields [OF new(3)] by (simp add: ss_key_def)
  have fresh: "(peer, dest) \<notin> set (sv_keys_to_delete s)"
    using assms(1,2) new(2) unfolding s5_registry_ok_def by (metis s5_pc.distinct(1))
  have old: "in_use s i \<Longrightarrow> ss_key (sv_streams s ! i) \<noteq> (peer, dest)" for i
    using assms(1) new(2) unfolding s5_registry_ok_def by (metis option.distinct(1))
  show ?thesis
    using assms(1) key fresh old
    by (auto simp: s5_registry_ok_def in_use_def new(5) nth_append ss_key_def less_Suc_eq split: if_splits)
qed

lemma s5_registered: "s5_registry_ok L s \<Longrightarrow> in_use s i \<Longrightarrow> sv_peers s (ss_key (sv_streams s ! i)) = Some i"
  by (simp add: s5_registry_ok_def)

lemma s5_registry_clean:
  assumes "s5_registry_ok L s" "sv_pc s = S5Loop"
  shows "s5_registry_ok L ((s5_clean_dead_keys s)\<lparr>sv_pc := S5Recv\<rparr>)"
  using assms by (auto simp: s5_registry_ok_def s5_clean_dead_keys_eq in_use_def)

text \<open>Steps of a stream keep its key; only the drop changes whether it is in use.\<close>

lemma s5_registry_upd:
  assumes "s5_registry_ok L s" "ss_key (f (sv_streams s ! i)) = ss_key (sv_streams s ! i)"
    "ss_life (f (sv_streams s ! i)) = InUse \<Longrightarrow> ss_life (sv_streams s ! i) = InUse"
  shows "s5_registry_ok L (upd_s5 i f s)"
proof -
  have key: "ss_key (sv_streams (upd_s5 i f s) ! j) = ss_key (sv_streams s ! j)" for j
    using assms(2) by auto
  then have dest: "ss_dest (sv_streams (upd_s5 i f s) ! j) = ss_dest (sv_streams s ! j)" for j
    by (metis ss_key_def snd_conv)
  have use: "in_use (upd_s5 i f s) j \<Longrightarrow> in_use s j" for j
    using assms(3) by (auto simp: in_use_def split: if_split_asm)
  show ?thesis
    using assms(1) use unfolding s5_registry_ok_def key dest by (simp only: upd_s5_simps) blast
qed

lemma s5_registry_drop:
  assumes "s5_registry_ok L s" "in_use s i"
  shows "s5_registry_ok L ((upd_s5 i (\<lambda>st. st\<lparr>ss_life := Dropping\<rparr>) s)
    \<lparr>sv_keys_to_delete := sv_keys_to_delete s @ [ss_key (sv_streams s ! i)]\<rparr>)" (is "s5_registry_ok L ?s")
proof -
  let ?u = "upd_s5 i (\<lambda>st. st\<lparr>ss_life := Dropping\<rparr>) s"
  have u: "s5_registry_ok L ?u" by (rule s5_registry_upd [OF assms(1)]) (simp_all add: ss_key_def)
  have reg: "sv_peers s (ss_key (sv_streams s ! i)) = Some i" by (rule s5_registered [OF assms])
  have "ss_key (sv_streams ?u ! j) \<noteq> ss_key (sv_streams s ! i)" if "in_use ?u j" for j
  proof
    assume "ss_key (sv_streams ?u ! j) = ss_key (sv_streams s ! i)"
    moreover have "sv_peers s (ss_key (sv_streams ?u ! j)) = Some j" using u that unfolding s5_registry_ok_def by simp
    ultimately have "j = i" using reg by simp
    then show False using that by (auto simp: in_use_def)
  qed
  then show ?thesis using u reg by (auto simp: s5_registry_ok_def in_use_def)
qed

lemma s5_registry_send:
  assumes "s5_registry_ok L s" "s5_step L I s S5SendOne = Some (Returns (s', out))"
  shows "s5_registry_ok L s'"
proof -
  obtain i payload data where pc: "sv_pc s = S5Send i payload data"
    using assms(2) by (cases "sv_pc s") simp_all
  have reg: "sv_peers s (ss_key (sv_streams s ! i)) = Some i"
    using assms(1) pc unfolding s5_registry_ok_def by blast
  show ?thesis
  proof (cases "ss_life (sv_streams s ! i) = Closed")
    case True
    let ?k = "ss_key (sv_streams s ! i)"
    have s': "s' = s\<lparr>sv_peers := (sv_peers s)(?k := None), sv_pc := S5Loop\<rparr>"
      using assms(2) pc True by simp
    have other: "ss_key (sv_streams s ! j) \<noteq> ?k" if "in_use s j" for j
      using that True reg s5_registered [OF assms(1) that] by (auto simp: in_use_def)
    have "in_use s' = in_use s" by (simp add: s' in_use_def fun_eq_iff)
    then show ?thesis using assms(1) other unfolding s5_registry_ok_def by (simp add: s')
  next
    case False
    let ?f = "\<lambda>st. st\<lparr>ss_chan := ss_chan st @ [data]\<rparr>"
    have "s5_registry_ok L (upd_s5 i ?f s)" by (rule s5_registry_upd [OF assms(1)]) (simp_all add: ss_key_def)
    then have "s5_registry_ok L ((s5_push i d data s)\<lparr>sv_pc := S5Loop\<rparr>)" for d
      by (simp add: s5_registry_ok_def in_use_def s5_push_def)
    then show ?thesis using assms(2) pc False by (auto split: if_split_asm)
  qed
qed

lemma s5_registry_step:
  assumes "s5_registry_ok L s" "s5_step L I s e = Some (Returns (s', out))"
  shows "s5_registry_ok L s'"
proof (cases e)
  case S5Clean
  then show ?thesis using assms(2) s5_registry_clean [OF assms(1)] by (auto split: if_split_asm)
next
  case (S5Datagram now peer payload)
  then show ?thesis using assms(2) s5_registry_datagram [OF assms(1)] by (auto split: if_split_asm)
next
  case S5RecvFails
  then show ?thesis using assms by (auto simp: s5_registry_ok_def in_use_def split: if_split_asm)
next
  case S5SendOne
  then show ?thesis using s5_registry_send [OF assms(1)] assms(2) by blast
next
  case (S5Read i now cap)
  then obtain st r where st: "s5_poll_read I now cap (sv_streams s ! i) = Some (st, r)" "s' = upd_s5 i (\<lambda>_. st) s"
    using assms(2) by (auto split: if_split_asm option.split_asm)
  show ?thesis unfolding st(2)
    by (rule s5_registry_upd [OF assms(1)]) (simp_all add: ss_key_def s5_poll_read_same [OF st(1)])
next
  case (S5DropKey i)
  then show ?thesis using assms(2) s5_registry_drop [OF assms(1)] by (auto split: if_split_asm)
next
  case (S5DropDone i)
  then show ?thesis using assms(2) by (auto split: if_split_asm intro!: s5_registry_upd [OF assms(1)] simp: ss_key_def)
qed

section \<open>What a stream receives\<close>

text \<open>The data of the datagrams that were routed to a stream.\<close>

definition s5_data :: "'c socks5_lib \<Rightarrow> bytes \<Rightarrow> bytes" where
  "s5_data L payload = (case s5_parse_udp L payload of None \<Rightarrow> [] | Some (frag, dest, data) \<Rightarrow> data)"

definition s5_routed_to :: "'c socks5_lib \<Rightarrow> nat \<Rightarrow> (nat \<times> datagram) list \<Rightarrow> bytes list" where
  "s5_routed_to L i routed = map (\<lambda>(_, _, payload). s5_data L payload) (filter (\<lambda>x. fst x = i) routed)"

definition s5_stream_ok :: "'c socks5_lib \<Rightarrow> ('v \<Rightarrow> duration) \<Rightarrow> (nat \<times> datagram) list \<Rightarrow> nat \<Rightarrow> 'v s5_stream \<Rightarrow> bool" where
  "s5_stream_ok L p routed i st \<longleftrightarrow>
     ss_got st @ ss_chan st = s5_routed_to L i routed \<and> length (ss_chan st) \<le> s5_channel_capacity \<and>
     watchdog_ok p (ss_watchdog st)"

definition s5_routed_ok :: "'c socks5_lib \<Rightarrow> 'v s5_server \<Rightarrow> bool" where
  "s5_routed_ok L s \<longleftrightarrow>
     (\<forall>(i, peer, payload) \<in> set (sv_routed s). i < length (sv_streams s) \<and> ss_peer (sv_streams s ! i) = peer \<and>
        (\<exists>data. s5_parse_udp L payload = Some (0, ss_dest (sv_streams s ! i), data)))"

definition s5_data_ok :: "'c socks5_lib \<Rightarrow> ('v \<Rightarrow> duration) \<Rightarrow> 'v s5_server \<Rightarrow> bool" where
  "s5_data_ok L p s \<longleftrightarrow>
     s5_routed_ok L s \<and> (\<forall>i < length (sv_streams s). s5_stream_ok L p (sv_routed s) i (sv_streams s ! i))"

lemma s5_routed_to_snoc:
  "s5_routed_to L i (routed @ [(j, peer, payload)]) = s5_routed_to L i routed @ (if i = j then [s5_data L payload] else [])"
  by (simp add: s5_routed_to_def)

lemma s5_data_ok_upd:
  assumes "s5_data_ok L p s" "ss_peer (f (sv_streams s ! i)) = ss_peer (sv_streams s ! i)"
    "ss_dest (f (sv_streams s ! i)) = ss_dest (sv_streams s ! i)"
    "i < length (sv_streams s) \<Longrightarrow> s5_stream_ok L p (sv_routed s) i (f (sv_streams s ! i))"
  shows "s5_data_ok L p (upd_s5 i f s)"
  using assms unfolding s5_data_ok_def s5_routed_ok_def by (auto split: prod.splits)

lemma s5_data_ok_push:
  assumes "s5_data_ok L p s" "i < length (sv_streams s)" "ss_peer (sv_streams s ! i) = peer"
    "s5_parse_udp L payload = Some (0, ss_dest (sv_streams s ! i), data)"
    "length (ss_chan (sv_streams s ! i)) < s5_channel_capacity"
  shows "s5_data_ok L p (s5_push i (peer, payload) data s)"
proof -
  have "s5_data L payload = data" using assms(4) by (simp add: s5_data_def)
  then have "s5_stream_ok L p (sv_routed (s5_push i (peer, payload) data s)) j (sv_streams (s5_push i (peer, payload) data s) ! j)"
    if "j < length (sv_streams s)" for j
    using assms(1,2,5) that by (auto simp: s5_data_ok_def s5_stream_ok_def s5_routed_to_snoc)
  moreover have "s5_routed_ok L (s5_push i (peer, payload) data s)"
    using assms(1-4) by (auto simp: s5_data_ok_def s5_routed_ok_def)
  ultimately show ?thesis by (simp add: s5_data_ok_def)
qed

lemma s5_data_ok_new:
  assumes "s5_data_ok L p s" "interval_laws I d p" "s5_stream_new L I now peer dest t = Returns st"
  shows "s5_data_ok L p (s\<lparr>sv_streams := sv_streams s @ [st]\<rparr>)"
proof -
  note st = s5_stream_new_fields [OF assms(3)]
  have "s5_routed_to L (length (sv_streams s)) (sv_routed s) = []"
    using assms(1) by (fastforce simp: s5_data_ok_def s5_routed_ok_def s5_routed_to_def filter_empty_conv)
  then have "s5_stream_ok L p (sv_routed s) (length (sv_streams s)) st"
    using st watchdog_new_ok [OF assms(2)] by (auto simp: s5_stream_ok_def)
  moreover have "s5_routed_ok L (s\<lparr>sv_streams := sv_streams s @ [st]\<rparr>)"
    using assms(1) by (auto simp: s5_data_ok_def s5_routed_ok_def nth_append split: prod.splits)
  ultimately show ?thesis
    using assms(1) by (auto simp: s5_data_ok_def nth_append less_Suc_eq)
qed

lemma s5_data_ok_fields:
  "s5_data_ok L p (s\<lparr>sv_peers := m\<rparr>) = s5_data_ok L p s"
  "s5_data_ok L p (s\<lparr>sv_pc := c\<rparr>) = s5_data_ok L p s"
  "s5_data_ok L p (s\<lparr>sv_keys_to_delete := ks\<rparr>) = s5_data_ok L p s"
  by (simp_all add: s5_data_ok_def s5_routed_ok_def)

lemma s5_data_datagram:
  assumes "s5_data_ok L p s" "interval_laws I d p" "s5_datagram L I now peer payload s = Returns (s', out)"
  shows "s5_data_ok L p s'"
  using assms(3)
proof (cases rule: s5_datagram_cases)
  case (new dest data st)
  note st = s5_stream_new_fields [OF new(3)]
  have "s5_data_ok L p (s5_push (length (sv_streams s)) (peer, payload) data (s\<lparr>sv_streams := sv_streams s @ [st]\<rparr>))"
    using s5_data_ok_new [OF assms(1,2) new(3)] st new(1)
    by (intro s5_data_ok_push) (simp_all add: s5_channel_capacity_def)
  then show ?thesis by (simp add: new(5) s5_data_ok_fields)
qed (simp_all add: s5_data_ok_fields assms(1))

lemma s5_data_send:
  assumes "s5_data_ok L p s" "s5_registry_ok L s" "s5_step L I s S5SendOne = Some (Returns (s', out))"
  shows "s5_data_ok L p s'"
proof -
  obtain i payload data where pc: "sv_pc s = S5Send i payload data"
    using assms(3) by (cases "sv_pc s") simp_all
  have "sv_peers s (ss_key (sv_streams s ! i)) = Some i" "s5_parse_udp L payload = Some (0, ss_dest (sv_streams s ! i), data)"
    using assms(2) pc unfolding s5_registry_ok_def by blast+
  moreover from this have "i < length (sv_streams s)" using assms(2) unfolding s5_registry_ok_def by blast
  ultimately show ?thesis using assms(1,3) pc
    by (auto simp: s5_data_ok_fields s5_data_ok_push split: if_split_asm)
qed

lemma s5_poll_read_ok:
  assumes "interval_laws I d p" "s5_stream_ok L p routed i st" "s5_poll_read I now cap st = Some (st', r)"
  shows "s5_stream_ok L p routed i st'"
proof -
  obtain w dr t where w: "poll_watchdog I now (ss_watchdog st) (ss_data_read st) = Some (w, dr, t)" "watchdog_ok p w"
    using poll_watchdog_returns [OF assms(1)] assms(2) unfolding s5_stream_ok_def by metis
  have "ss_watchdog st' = w"
    using assms(3) w(1) by (auto simp: s5_poll_read_def Let_def split: if_split_asm list.split_asm)
  then show ?thesis using assms(2) w(2) s5_poll_read_same [OF assms(3)] by (simp add: s5_stream_ok_def)
qed

lemma s5_data_step:
  assumes "s5_data_ok L p s" "interval_laws I d p" "s5_registry_ok L s" "s5_step L I s e = Some (Returns (s', out))"
  shows "s5_data_ok L p s'"
proof (cases e)
  case (S5Datagram now peer payload)
  then show ?thesis using assms(4) s5_data_datagram [OF assms(1,2)] by (auto split: if_split_asm)
next
  case S5SendOne
  then show ?thesis using s5_data_send [OF assms(1,3)] assms(4) by blast
next
  case (S5Read i now cap)
  then obtain st r where st: "s5_poll_read I now cap (sv_streams s ! i) = Some (st, r)" "s' = upd_s5 i (\<lambda>_. st) s"
    using assms(4) by (auto split: if_split_asm option.split_asm)
  have "s5_stream_ok L p (sv_routed s) i st" if "i < length (sv_streams s)"
    using that s5_poll_read_ok [OF assms(2) _ st(1)] assms(1) unfolding s5_data_ok_def by blast
  then show ?thesis unfolding st(2)
    by (intro s5_data_ok_upd [OF assms(1)]) (simp_all add: s5_poll_read_same [OF st(1)])
next
  case (S5DropKey i)
  have "s5_data_ok L p (upd_s5 i (\<lambda>st. st\<lparr>ss_life := Dropping\<rparr>) s)"
    using assms(1) by (intro s5_data_ok_upd) (simp_all add: s5_data_ok_def s5_stream_ok_def)
  then show ?thesis using assms(4) S5DropKey by (auto simp: s5_data_ok_fields split: if_split_asm)
next
  case (S5DropDone i)
  have "s5_data_ok L p (upd_s5 i (\<lambda>st. st\<lparr>ss_life := Closed\<rparr>) s)"
    using assms(1) by (intro s5_data_ok_upd) (simp_all add: s5_data_ok_def s5_stream_ok_def)
  then show ?thesis using assms(4) S5DropDone by (auto split: if_split_asm)
next
  case S5Clean
  then show ?thesis using assms(1,4) by (auto simp: s5_clean_dead_keys_eq s5_data_ok_def s5_routed_ok_def split: if_split_asm)
next
  case S5RecvFails
  then show ?thesis using assms(1,4) by (auto simp: s5_data_ok_fields split: if_split_asm)
qed

lemma s5_reachable_ok:
  assumes "interval_laws I d p" "s5_reachable L I t s"
  shows "s5_registry_ok L s \<and> s5_data_ok L p s"
  using assms(2)
proof induction
  case s5_start
  show ?case by (simp add: s5_server_new_def s5_registry_ok_def in_use_def s5_data_ok_def s5_routed_ok_def)
next
  case (s5_next s e s' out)
  then show ?case using s5_registry_step s5_data_step [OF _ assms(1)] by blast
qed

section \<open>Replies\<close>

text \<open>How a client reads a reply (RFC 1928, section 6).\<close>

fun parse_reply :: "bytes \<Rightarrow> (u8 \<times> ip_addr \<times> u16) option" where
  "parse_reply (version # err # reserved # atyp # rest) =
     (if version = 5 \<and> atyp = 1 \<and> length rest = 6 then Some (err, V4 (be_word (take 4 rest)), be_word (drop 4 rest))
      else if version = 5 \<and> atyp = 4 \<and> length rest = 18 then Some (err, V6 (be_word (take 16 rest)), be_word (drop 16 rest))
      else None)"
| "parse_reply _ = None"

lemmas socks5_consts = SOCKS5_VERSION_def SOCKS5_ADDR_TYPE_IPV4_def SOCKS5_ADDR_TYPE_IPV6_def Succeeded_def

lemma new_reply_roundtrip: "parse_reply (new_reply err a) = Some (err, addr_ip a, addr_port a)"
  by (cases a) (simp_all add: socks5_consts)

lemma s5_poll_write_header:
  "s5_poll_write answer peer header buf sent = (header', sent', ret) \<Longrightarrow>
     header' = header \<and> (ret = Ready (Ok n) \<longrightarrow> n = length buf \<and> sent' = sent @ [(peer, header @ buf)])"
  by (cases answer; cases "case answer of Ready r \<Rightarrow> r") (auto simp: s5_poll_write_def Let_def)

section \<open>Examples\<close>

text \<open>
  A crate whose clients are a login, a target and a command, and whose datagrams are a fragment number,
  the last byte of an address and data.
\<close>

type_synonym demo_client = "(string \<times> string) option \<times> target_addr \<times> socks5_command"

fun demo_parse_udp :: "bytes \<Rightarrow> (u8 \<times> target_addr \<times> bytes) option" where
  "demo_parse_udp (frag # a # data) = Some (frag, TargetIp (SocketAddrV4 (ucast a) 53), data)"
| "demo_parse_udp _ = None"

definition demo_socks5 :: "demo_client socks5_lib" where
  "demo_socks5 =
     \<lparr>s5_upgrade = (\<lambda>cfg (login, target, cmd).
        if sc_allow_no_auth cfg \<or> (sc_auth cfg \<noteq> None \<and> login = sc_auth cfg) then Some (Some target, Some cmd) else None),
      s5_parse_udp = demo_parse_udp, s5_udp_header = (\<lambda>_. Some [0, 0, 0])\<rparr>"

lemma demo_socks5_handshake: "handshake_ok demo_socks5 fst"
  by (auto simp: handshake_ok_def demo_socks5_def split: if_splits)

fun s5_run :: "'c socks5_lib \<Rightarrow> 'v interval_ops \<Rightarrow> 'v s5_server \<Rightarrow> s5_event list \<Rightarrow> 'v s5_server option" where
  "s5_run L I s [] = Some s"
| "s5_run L I s (e # es) = (case s5_step L I s e of Some (Returns (s', out)) \<Rightarrow> s5_run L I s' es | _ \<Rightarrow> None)"

lemma s5_run_reachable: "s5_reachable L I t s \<Longrightarrow> s5_run L I s es = Some s' \<Longrightarrow> s5_reachable L I t s'"
  by (induction es arbitrary: s) (auto intro: s5_next split: option.split_asm run.split_asm)

definition demo_s5_events :: "s5_event list" where
  "demo_s5_events =
     [S5Clean, S5Datagram 0 (demo_peer 1) [0, 9, 7], S5Clean, S5Datagram 0 (demo_peer 1) [1, 9, 8],
      S5Clean, S5Datagram 1 (demo_peer 1) [0, 9, 6], S5Read 0 2 10, S5SendOne, S5Clean, S5DropKey 0,
      S5Datagram 2 (demo_peer 1) [0, 9, 5], S5DropDone 0, S5SendOne, S5Clean, S5Datagram 3 (demo_peer 1) [0, 9, 4]]"

definition demo_s5 :: "(duration \<times> duration) s5_server" where
  "demo_s5 = (case s5_run demo_socks5 demo_interval (s5_server_new (Some 5)) demo_s5_events of Some s \<Rightarrow> s)"

lemma demo_s5_reachable: "s5_reachable demo_socks5 demo_interval (Some 5) demo_s5"
proof -
  have "\<not> Option.is_none (s5_run demo_socks5 demo_interval (s5_server_new (Some 5)) demo_s5_events)" by code_simp
  then show ?thesis by (auto simp: demo_s5_def Option.is_none_def intro: s5_run_reachable [OF s5_start])
qed

section \<open>What the server guarantees\<close>



lemma socks5_serve_cnx_same: "snd (socks5_serve_cnx L bind cfg c w) = Handed c' h p \<Longrightarrow> c' = c"
  by (auto simp: socks5_serve_cnx_def split: option.split_asm prod.split_asm if_split_asm)

lemma socks5_handed_step:
  assumes "socks5_event_step L I bind cfg s e = Some (Returns (s', Some (ItemTcp c h p)))"
  shows "\<exists>w. e = TcpIncoming (Some (Ok c)) w \<and> snd (socks5_serve_cnx L bind cfg c w) = Handed c h p"
  using assms
proof (induction L I bind cfg s e rule: socks5_event_step.induct)
  case (3 L I bind cfg s x w)
  then show ?case using socks5_serve_cnx_same by (fastforce split: socks5_cnx.split_asm)
qed (auto split: option.split_asm run.split_asm prod.split_asm)

lemma socks5_run_tcp:
  assumes "socks5_run L I bind cfg s es = Some items" "ItemTcp c h p \<in> set items"
  shows "\<exists>w. TcpIncoming (Some (Ok c)) w \<in> set es \<and> snd (socks5_serve_cnx L bind cfg c w) = Handed c h p"
  using assms
proof (induction es arbitrary: s items)
  case (Cons e es)
  obtain s' item where st: "socks5_event_step L I bind cfg s e = Some (Returns (s', item))"
    using Cons.prems(1) by (auto split: option.split_asm run.split_asm)
  obtain items' where i: "socks5_run L I bind cfg s' es = Some items'" "items = (case item of None \<Rightarrow> items' | Some x \<Rightarrow> x # items')"
    using Cons.prems(1) st by auto
  show ?case
  proof (cases "ItemTcp c h p \<in> set items'")
    case True
    then show ?thesis using Cons.IH [OF i(1)] by auto
  next
    case False
    then have "item = Some (ItemTcp c h p)" using Cons.prems(2) i(2) by (auto split: option.split_asm)
    then show ?thesis using st socks5_handed_step by fastforce
  qed
qed simp

text \<open>
  C13.  A SOCKS5 server with credentials hands out a TCP connection only to a client that presented them,
  and with the destination the client named in its request.
\<close>

theorem socks5_tcp_authenticated:
  assumes "handshake_ok L presents" "socks5_run L I bind (socks5_config (Some credentials)) s es = Some items"
    "ItemTcp c h p \<in> set items"
  shows "presents c = Some credentials \<and>
    (\<exists>target cmd. s5_upgrade L (socks5_config (Some credentials)) c = Some (Some target, cmd) \<and>
       cmd \<noteq> Some UDPAssociate \<and> socks5_target target = (h, p))"
proof -
  obtain w where "snd (socks5_serve_cnx L bind (socks5_config (Some credentials)) c w) = Handed c h p"
    using socks5_run_tcp [OF assms(2,3)] by blast
  then have up: "\<exists>target cmd. s5_upgrade L (socks5_config (Some credentials)) c = Some (Some target, cmd) \<and>
      cmd \<noteq> Some UDPAssociate \<and> socks5_target target = (h, p)"
    by (auto simp: socks5_serve_cnx_def split: option.split_asm prod.split_asm if_split_asm)
  then have "s5_upgrade L (socks5_config (Some credentials)) c \<noteq> None" by auto
  moreover have "\<not> sc_allow_no_auth (socks5_config (Some credentials))" by (simp add: socks5_config_def)
  ultimately have "presents c = sc_auth (socks5_config (Some credentials))"
    using assms(1) unfolding handshake_ok_def by blast
  then show ?thesis using up by (simp add: socks5_config_def)
qed

definition demo_login :: demo_client where
  "demo_login = (Some (''u'', ''p''), TargetDomain ''h'' 22, TCPConnect)"

definition demo_socks5_events :: "demo_client socks5_event list" where
  "demo_socks5_events = [TcpIncoming (Some (Ok (None, TargetDomain ''x'' 1, TCPConnect))) True, TcpIncoming (Some (Ok demo_login)) True]"

theorem socks5_tcp_authenticated_witness:
  "socks5_run demo_socks5 demo_interval (SocketAddrV4 0 1080) (socks5_config (Some (''u'', ''p''))) (socks5_server_new None)
     demo_socks5_events = Some [ItemTcp demo_login (Domain ''h'') 22] \<and>
   fst demo_login = Some (''u'', ''p'')"
proof
  show r: "socks5_run demo_socks5 demo_interval (SocketAddrV4 0 1080) (socks5_config (Some (''u'', ''p''))) (socks5_server_new None)
     demo_socks5_events = Some [ItemTcp demo_login (Domain ''h'') 22]" by code_simp
  show "fst demo_login = Some (''u'', ''p'')"
    using socks5_tcp_authenticated [OF demo_socks5_handshake r] by simp
qed



end
