(* ===== verification/Http_Proxy.thy ===== *)
theory Http_Proxy
  imports Http_Msg Tcp
begin

text \<open>
  The HTTP proxy that a client offers locally (\<open>protocols/http_proxy/server.rs\<close>): a connection either
  starts with CONNECT and is served by \<open>hyper\<close>, or carries an ordinary request that is looked at and
  then left in the stream for the destination.  The crates \<open>base64\<close>, \<open>url\<close>, \<open>httparse\<close> and \<open>http\<close> are the
  parameter \<open>L\<close>; what \<open>hyper\<close> makes of a connection is an argument.
\<close>

section \<open>Libraries\<close>

text \<open>
  \<open>pl_url\<close> parses a URL; \<open>pl_httparse n\<close> gives the path and the headers that parsing with room for \<open>n\<close> headers leaves behind, complete or not.
\<close>

record proxy_lib =
  pl_base64 :: "string \<Rightarrow> string"
  pl_host_parse :: "string \<Rightarrow> host option"
  pl_url :: "string \<Rightarrow> url option"
  pl_httparse :: "nat \<Rightarrow> string \<Rightarrow> string option \<times> (string \<times> string) list"
  pl_to_str :: "string \<Rightarrow> string option"
  pl_is_proxy_authorization :: "string \<Rightarrow> bool"

text \<open>The base64 text of a non-empty string is not empty and made of graphic characters.\<close>

definition base64_ok :: "(string \<Rightarrow> string) \<Rightarrow> bool" where
  "base64_ok f \<longleftrightarrow> (\<forall>s. s \<noteq> [] \<longrightarrow> f s \<noteq> [] \<and> list_all graphic (f s))"

text \<open>A request that \<open>hyper\<close> has parsed: its method, the host and port of its URI, its headers.\<close>

record hyper_request =
  cr_method :: string
  cr_host :: "string option"
  cr_port :: "u16 option"
  cr_headers :: header_map

section \<open>One connection\<close>

definition verify_credentials :: "string option \<Rightarrow> string option \<Rightarrow> bool" where
  "verify_credentials credentials header_value =
     (case credentials of
        None \<Rightarrow> True
      | Some token \<Rightarrow>
          (case header_value of
             None \<Rightarrow> False
           | Some v \<Rightarrow> starts_with ''Basic '' (trim v) \<and> drop (length ''Basic '') (trim v) = token))"

text \<open>The destination that is stored, and the status of the answer.\<close>

definition handle_http_connect_request ::
  "proxy_lib \<Rightarrow> string option \<Rightarrow> hyper_request \<Rightarrow> (host \<times> u16) option \<times> nat" where
  "handle_http_connect_request L credentials req =
     (if cr_method req \<noteq> ''CONNECT'' then (None, 401)
      else (case map_option (\<lambda>h. (h, unwrap_or 443 (cr_port req))) (pl_host_parse L (unwrap_or [] (cr_host req))) of
          None \<Rightarrow> (None, 401)
        | Some forward_to \<Rightarrow>
            (let header = Option.bind (hm_get (cr_headers req) ''proxy-authorization'') (pl_to_str L) in
             if \<not> verify_credentials credentials header then (None, 401)
             else (Some forward_to, 200))))"

fun find_authorization :: "proxy_lib \<Rightarrow> (string \<times> string) list \<Rightarrow> string option" where
  "find_authorization L [] = None"
| "find_authorization L ((n, v) # hs) =
     (if pl_is_proxy_authorization L n then Some (from_utf8_lossy v) else find_authorization L hs)"

definition handle_regular_http_request ::
  "proxy_lib \<Rightarrow> string option \<times> (string \<times> string) list \<Rightarrow> string option \<Rightarrow> (host \<times> u16) option" where
  "handle_regular_http_request L parsed auth_header =
     (if \<not> verify_credentials auth_header (find_authorization L (snd parsed)) then None
      else (case pl_url L (unwrap_or [] (fst parsed)) of
          None \<Rightarrow> None
        | Some url \<Rightarrow> map_option (\<lambda>h. (h, unwrap_or 80 (url_port_or_known_default url))) (url_host url)))"

text \<open>
  The bytes that can be peeked, at most 512, in a buffer of zeros.  \<open>hyper\<close> serves at most one request
  of the connection, since it is not kept alive; its answer is that request, if there was one, and
  whether serving ended without an error.
\<close>

definition request_buf :: "string \<Rightarrow> string" where
  "request_buf peeked = peeked @ replicate (512 - length peeked) (byte 0)"

definition is_connect :: "string \<Rightarrow> bool" where
  "is_connect peeked \<longleftrightarrow> take (length ''CONNECT '') (request_buf peeked) = ''CONNECT ''"

type_synonym hyper_outcome = "hyper_request option \<times> bool"

definition handle_new_connection ::
  "proxy_lib \<Rightarrow> string option \<Rightarrow> string option \<Rightarrow> hyper_outcome \<Rightarrow> (host \<times> u16) option" where
  "handle_new_connection L auth peeked hyper =
     (case peeked of
        None \<Rightarrow> None
      | Some buf \<Rightarrow>
          if \<not> is_connect buf then
            (let headers_len = (if auth \<noteq> None then 32 else 0) in
             handle_regular_http_request L (pl_httparse L headers_len buf) auth)
          else (let forward_to = Option.bind (fst hyper) (\<lambda>req. fst (handle_http_connect_request L auth req)) in
             if snd hyper then forward_to else None))"

section \<open>The listener\<close>

definition auth_header :: "proxy_lib \<Rightarrow> (string \<times> string) option \<Rightarrow> string option" where
  "auth_header L credentials = map_option (\<lambda>(user, pass). pl_base64 L (user @ '':'' @ pass)) credentials"

text \<open>
  The loop of \<open>run_server\<close> with its set of tasks, one per accepted connection: a connection is accepted,
  accepting fails, or a task ends and its connection is handed out if it has a destination.  The end
  of a task carries what was peeked from its connection and what \<open>hyper\<close> made of it.
\<close>

datatype ('s, 'e) proxy_event = Accepted "('s, 'e) result" | Joined nat "string option" hyper_outcome

definition remove_nth :: "nat \<Rightarrow> 'a list \<Rightarrow> 'a list" where
  "remove_nth i xs = take i xs @ drop (Suc i) xs"

fun proxy_step ::
  "proxy_lib \<Rightarrow> string option \<Rightarrow> 's list \<Rightarrow> ('s, 'e) proxy_event \<Rightarrow> ('s list \<times> ('s \<times> host \<times> u16) option) option" where
  "proxy_step L auth tasks (Accepted (Ok s)) = Some (tasks @ [s], None)"
| "proxy_step L auth tasks (Accepted (Err e)) = Some (tasks, None)"
| "proxy_step L auth tasks (Joined i peeked hyper) =
     (if i < length tasks
      then Some (remove_nth i tasks, map_option (\<lambda>f. (tasks ! i, f)) (handle_new_connection L auth peeked hyper))
      else None)"

fun proxy_run ::
  "proxy_lib \<Rightarrow> string option \<Rightarrow> 's list \<Rightarrow> ('s, 'e) proxy_event list \<Rightarrow> ('s \<times> host \<times> u16) list option" where
  "proxy_run L auth tasks [] = Some []"
| "proxy_run L auth tasks (e # es) =
     (case proxy_step L auth tasks e of
        None \<Rightarrow> None
      | Some (tasks', out) \<Rightarrow>
          map_option (\<lambda>outs. (case out of None \<Rightarrow> outs | Some x \<Rightarrow> x # outs)) (proxy_run L auth tasks' es))"

section \<open>Credentials\<close>

lemma verify_credentials_iff:
  "verify_credentials (Some token) header \<longleftrightarrow> (\<exists>v. header = Some v \<and> trim v = ''Basic '' @ token)"
proof -
  have "starts_with ''Basic '' s \<and> drop (length ''Basic '') s = token \<longleftrightarrow> s = ''Basic '' @ token" for s
    unfolding starts_with_def
    by (metis append_eq_conv_conj prefix_def append_take_drop_id)
  then show ?thesis by (auto simp: verify_credentials_def split: option.splits)
qed

text \<open>The text of the authorization header that a connection presents, whichever way it is served.\<close>

definition presented :: "proxy_lib \<Rightarrow> string option \<Rightarrow> hyper_outcome \<Rightarrow> string option" where
  "presented L peeked hyper =
     (case peeked of
        None \<Rightarrow> None
      | Some buf \<Rightarrow>
          if is_connect buf
          then Option.bind (fst hyper) (\<lambda>req. Option.bind (hm_get (cr_headers req) ''proxy-authorization'') (pl_to_str L))
          else find_authorization L (snd (pl_httparse L 32 buf)))"

lemma handle_new_connection_verified:
  "handle_new_connection L (Some token) peeked hyper = Some f \<Longrightarrow>
     verify_credentials (Some token) (presented L peeked hyper)"
  by (auto simp: handle_new_connection_def presented_def handle_regular_http_request_def
      handle_http_connect_request_def Let_def bind_eq_Some_conv split: option.splits if_splits)

text \<open>The connections whose tasks run after a sequence of events.\<close>

fun proxy_tasks :: "'s list \<Rightarrow> ('s, 'e) proxy_event list \<Rightarrow> 's list" where
  "proxy_tasks tasks [] = tasks"
| "proxy_tasks tasks (Accepted (Ok s) # es) = proxy_tasks (tasks @ [s]) es"
| "proxy_tasks tasks (Accepted (Err e) # es) = proxy_tasks tasks es"
| "proxy_tasks tasks (Joined i peeked hyper # es) = proxy_tasks (remove_nth i tasks) es"

lemma proxy_tasks_accepted: "s \<in> set (proxy_tasks tasks es) \<Longrightarrow> s \<in> set tasks \<or> Accepted (Ok s) \<in> set es"
  by (induction tasks es rule: proxy_tasks.induct) (auto simp: remove_nth_def dest: in_set_takeD in_set_dropD)

lemma proxy_step_tasks: "proxy_step L auth tasks e = Some (tasks', out) \<Longrightarrow> proxy_tasks tasks (e # es) = proxy_tasks tasks' es"
  by (induction L auth tasks e rule: proxy_step.induct) (auto split: if_split_asm)

lemma proxy_step_out:
  "proxy_step L auth tasks e = Some (tasks', Some (s, f)) \<Longrightarrow>
     \<exists>i peeked hyper. e = Joined i peeked hyper \<and> i < length tasks \<and> tasks ! i = s \<and>
       handle_new_connection L auth peeked hyper = Some f"
  by (induction L auth tasks e rule: proxy_step.induct) (auto split: if_split_asm)

lemma proxy_run_outputs:
  assumes "proxy_run L auth tasks es = Some outs" "(s, f) \<in> set outs"
  shows "\<exists>before i peeked hyper after. es = before @ Joined i peeked hyper # after \<and>
    i < length (proxy_tasks tasks before) \<and> proxy_tasks tasks before ! i = s \<and>
    handle_new_connection L auth peeked hyper = Some f"
  using assms
proof (induction es arbitrary: tasks outs)
  case (Cons e es)
  obtain tasks' out where st: "proxy_step L auth tasks e = Some (tasks', out)"
    using Cons.prems(1) by (auto split: option.split_asm)
  obtain outs' where o: "proxy_run L auth tasks' es = Some outs'" "outs = (case out of None \<Rightarrow> outs' | Some x \<Rightarrow> x # outs')"
    using Cons.prems(1) st by auto
  show ?case
  proof (cases "(s, f) \<in> set outs'")
    case True
    then obtain before i peeked hyper after where
      b: "es = before @ Joined i peeked hyper # after" "i < length (proxy_tasks tasks' before)"
        "proxy_tasks tasks' before ! i = s" "handle_new_connection L auth peeked hyper = Some f"
      using Cons.IH [OF o(1)] by metis
    then have "e # es = (e # before) @ Joined i peeked hyper # after" by simp
    then show ?thesis using b proxy_step_tasks [OF st, of before] by metis
  next
    case False
    then have "out = Some (s, f)" using Cons.prems(2) o(2) by (auto split: option.split_asm)
    then show ?thesis using st proxy_step_out by (metis append_Nil proxy_tasks.simps(1))
  qed
qed simp

text \<open>
  C12.  A proxy with credentials hands out a connection only if it accepted it and the task of that very
  connection was served a request whose authorization header, trimmed, is the word Basic and the base64
  text of the login and the password, for CONNECT and for ordinary requests alike, in every run.
\<close>

theorem http_proxy_authorised:
  assumes "proxy_run L (auth_header L (Some (user, pass))) [] es = Some outs" "(s, f) \<in> set outs"
  shows "\<exists>before i peeked hyper after v. es = before @ Joined i peeked hyper # after \<and>
    proxy_tasks [] before ! i = s \<and> Accepted (Ok s) \<in> set before \<and>
    presented L peeked hyper = Some v \<and> trim v = ''Basic '' @ pl_base64 L (user @ '':'' @ pass)"
proof -
  let ?token = "pl_base64 L (user @ '':'' @ pass)"
  have auth: "auth_header L (Some (user, pass)) = Some ?token" by (simp add: auth_header_def)
  obtain before i peeked hyper after where b: "es = before @ Joined i peeked hyper # after"
    "i < length (proxy_tasks [] before)" "proxy_tasks [] before ! i = s"
    "handle_new_connection L (Some ?token) peeked hyper = Some f"
    using proxy_run_outputs [OF assms] unfolding auth by blast
  have "Accepted (Ok s) \<in> set before" using proxy_tasks_accepted [of s "[]" before] b(2,3) by auto
  moreover obtain v where "presented L peeked hyper = Some v" "trim v = ''Basic '' @ ?token"
    using handle_new_connection_verified [OF b(4)] unfolding verify_credentials_iff by blast
  ultimately show ?thesis using b(1,3) by blast
qed

section \<open>A client of the program as the proxy's client\<close>

text \<open>
  The header that \<open>tcp::connect_with_http_proxy\<close> sends is the one this proxy asks for, when it is started
  with the same login and password.
\<close>

lemma trim_basic:
  assumes "token \<noteq> []" "list_all graphic token"
  shows "trim (''Basic '' @ token) = ''Basic '' @ token"
proof (rule trim_graphic)
  show "graphic (hd (''Basic '' @ token))" by (simp add: graphic_def)
  have "graphic (last token)" using assms by (simp add: list_all_iff)
  then show "graphic (last (''Basic '' @ token))" using assms(1) by simp
qed simp

lemma client_credentials_accepted:
  assumes "base64_ok (t_base64 T)" "pl_base64 L = t_base64 T" "proxy_authorization T proxy = Some header"
    "url_password proxy = Some p" "t_urldecode T (url_username proxy) = Some user" "t_urldecode T p = Some pass"
  shows "\<exists>v. header = ''Proxy-Authorization: '' @ v @ crlf \<and> verify_credentials (auth_header L (Some (user, pass))) (Some v)"
proof -
  let ?token = "t_base64 T (user @ '':'' @ pass)"
  have "?token \<noteq> []" "list_all graphic ?token" using assms(1) by (simp_all add: base64_ok_def)
  then have "trim (''Basic '' @ ?token) = ''Basic '' @ ?token" by (rule trim_basic)
  moreover have "header = ''Proxy-Authorization: '' @ (''Basic '' @ ?token) @ crlf"
    using assms(3-6) by (simp add: proxy_authorization_def)
  ultimately show ?thesis
    using assms(2) by (intro exI [of _ "''Basic '' @ ?token"]) (simp add: auth_header_def verify_credentials_iff del: append.simps)
qed


section \<open>Examples\<close>

text \<open>Two letters per byte in place of base64, and a parser that knows one request.\<close>

definition demo_base64 :: "string \<Rightarrow> string" where
  "demo_base64 s = concat (map (\<lambda>c. [char_of (65 + of_char c div (16 :: nat)), char_of (65 + of_char c mod (16 :: nat))]) s)"

lemma demo_base64_ok: "base64_ok demo_base64"
proof -
  have "graphic (char_of (65 + of_char c div (16 :: nat)))" "graphic (char_of (65 + of_char c mod (16 :: nat)))" for c
  proof -
    have "of_char c < (256 :: nat)" by (rule nat_of_char_less_256)
    then have "of_char c div (16 :: nat) < 16" "of_char c mod (16 :: nat) < 16" by (simp_all add: div_less_iff_less_mult)
    then show "graphic (char_of (65 + of_char c div (16 :: nat)))" "graphic (char_of (65 + of_char c mod (16 :: nat)))"
      by (simp_all add: graphic_def of_char_of Let_def)
  qed
  then have "list_all graphic (demo_base64 s)" for s by (induction s) (auto simp: demo_base64_def)
  then show ?thesis by (auto simp: base64_ok_def demo_base64_def)
qed

definition demo_proxy_lib :: proxy_lib where
  "demo_proxy_lib =
     \<lparr>pl_base64 = demo_base64, pl_host_parse = (\<lambda>s. if s = [] then None else Some (Domain s)),
      pl_url = (\<lambda>_. Some (demo_proxy\<lparr>url_host := Some (Domain ''h'')\<rparr>)),
      pl_httparse = (\<lambda>n buf. (Some buf, if n = 0 then [] else [(''Proxy-Authorization'', ''Basic '' @ demo_base64 ''u:p'')])),
      pl_to_str = Some, pl_is_proxy_authorization = (\<lambda>n. n = ''Proxy-Authorization'')\<rparr>"

definition demo_proxy_events :: "(nat, string) proxy_event list" where
  "demo_proxy_events =
     [Accepted (Ok 1), Accepted (Err ''emfile''), Accepted (Ok 2), Joined 1 (Some ''GET http://h/ HTTP/1.1'') (None, True),
      Joined 0 (Some ''CONNECT h:22 HTTP/1.1'')
        (Some \<lparr>cr_method = ''CONNECT'', cr_host = Some ''h'', cr_port = Some 22, cr_headers = []\<rparr>, True)]"

theorem http_proxy_authorised_witness:
  "proxy_run demo_proxy_lib (auth_header demo_proxy_lib (Some (''u'', ''p''))) [] demo_proxy_events = Some [(2, Domain ''h'', 3128)] \<and>
   (\<exists>before i peeked hyper after v. demo_proxy_events = before @ Joined i peeked hyper # after \<and>
      proxy_tasks [] before ! i = 2 \<and> Accepted (Ok 2) \<in> set before \<and>
      presented demo_proxy_lib peeked hyper = Some v \<and> trim v = ''Basic '' @ pl_base64 demo_proxy_lib (''u'' @ '':'' @ ''p''))"
proof
  show r: "proxy_run demo_proxy_lib (auth_header demo_proxy_lib (Some (''u'', ''p''))) [] demo_proxy_events = Some [(2, Domain ''h'', 3128)]"
    by code_simp
  show "\<exists>before i peeked hyper after v. demo_proxy_events = before @ Joined i peeked hyper # after \<and>
      proxy_tasks [] before ! i = 2 \<and> Accepted (Ok 2) \<in> set before \<and>
      presented demo_proxy_lib peeked hyper = Some v \<and> trim v = ''Basic '' @ pl_base64 demo_proxy_lib (''u'' @ '':'' @ ''p'')"
    by (rule http_proxy_authorised [OF r]) simp
qed


end
