(* ===== verification/Scp.thy ===== *)
theory Scp
  imports Tunnel
begin

text \<open>
  The copy of files over an SSH channel (\<open>protocols/ssh/scp.rs\<close>), both directions.  What the peer
  sends on the channel, until it is closed, is a list of messages; what the program sends, writes and
  creates is recorded in the state.  The SSH protocol itself is the crate russh and the local files are
  the operating system's: both are arguments.  Bytes are characters, as in strings.
\<close>

section \<open>Paths\<close>

text \<open>\<open>Path::join\<close>: an absolute path replaces the base.\<close>

definition path_join :: "path \<Rightarrow> path \<Rightarrow> path" where
  "path_join base p =
     (if starts_with ''/'' p then p
      else if base = [] \<or> ends_with ''/'' base then base @ p
      else base @ ''/'' @ p)"

text \<open>\<open>Path::file_name\<close>: the last component, if it is a normal one.\<close>

definition file_name :: "path \<Rightarrow> string option" where
  "file_name p =
     (let comps = filter (\<lambda>c. c \<noteq> [] \<and> c \<noteq> ''.'') (split CHR ''/'' p) in
      if comps = [] \<or> last comps = ''..'' then None else Some (last comps))"

section \<open>The channel and the file system\<close>

datatype chan_msg = ChanData string | Eof | Close | OtherMsg

datatype 'e scp_error =
    ScpRemote string
  | UnexpectedResponse char
  | ClosedUnexpectedly
  | ChannelClosed
  | ClosedDuringTransfer
  | Ssh 'e
  | IsDirectory path
  | CannotStat path
  | NoFileName path
  | CannotRead path
  | CannotReadDir path
  | ReadDirEntry path
  | CannotCreate path
  | CannotCreateDir path
  | WriteFailed path
  | InvalidUtf8Header
  | MalformedHeader string
  | InvalidSize
  | UnexpectedHeader char

text \<open>
  The outcome of the operations of the system: the channel accepts the n-th message, a file can be
  created, written at an offset and flushed, a directory can be made.
\<close>

record 'e scp_env =
  se_open :: "(unit, 'e) result"
  se_exec :: "string \<Rightarrow> (unit, 'e) result"
  se_eof :: "(unit, 'e) result"
  se_send :: "nat \<Rightarrow> (unit, 'e) result"
  se_create :: "path \<Rightarrow> bool"
  se_write :: "path \<Rightarrow> nat \<Rightarrow> bool"
  se_flush :: "path \<Rightarrow> bool"
  se_mkdir :: "path \<Rightarrow> bool"

record scp_io =
  io_in :: "chan_msg list"
  io_sent :: "string list"
  io_files :: "path \<rightharpoonup> string"
  io_dirs :: "path list"

type_synonym ('a, 'e) scp = "scp_io \<Rightarrow> ('a, 'e scp_error) result \<times> scp_io"

definition io_return :: "'a \<Rightarrow> ('a, 'e) scp" where
  "io_return x s = (Ok x, s)"

definition io_fail :: "'e scp_error \<Rightarrow> ('a, 'e) scp" where
  "io_fail e s = (Err e, s)"

text \<open>Continue after \<open>?\<close>.\<close>

definition io_then :: "('a, 'e) scp \<Rightarrow> ('a \<Rightarrow> ('b, 'e) scp) \<Rightarrow> ('b, 'e) scp" where
  "io_then m f s = (case m s of (Ok x, s') \<Rightarrow> f x s' | (Err e, s') \<Rightarrow> (Err e, s'))"

definition io_lift :: "(unit, 'e) result \<Rightarrow> (unit, 'e) scp" where
  "io_lift r s = (case r of Ok _ \<Rightarrow> (Ok (), s) | Err e \<Rightarrow> (Err (Ssh e), s))"

text \<open>\<open>channel.data\<close>.\<close>

definition send :: "'e scp_env \<Rightarrow> string \<Rightarrow> (unit, 'e) scp" where
  "send E d s =
     (case se_send E (length (io_sent s)) of
        Ok _ \<Rightarrow> (Ok (), s\<lparr>io_sent := io_sent s @ [d]\<rparr>)
      | Err e \<Rightarrow> (Err (Ssh e), s))"

definition ack :: string where
  "ack = [byte 0]"

fun response_of :: "chan_msg list \<Rightarrow> (unit, 'e scp_error) result \<times> chan_msg list" where
  "response_of [] = (Err ChannelClosed, [])"
| "response_of (ChanData [] # ms) = response_of ms"
| "response_of (ChanData (b # bs) # ms) =
     (if b = byte 0 then Ok ()
      else if b = byte 1 then Ok ()
      else if b = byte 2 then Err (ScpRemote (trim (from_utf8_lossy bs)))
      else Err (UnexpectedResponse b), ms)"
| "response_of (Eof # ms) = (Err ClosedUnexpectedly, ms)"
| "response_of (Close # ms) = (Err ClosedUnexpectedly, ms)"
| "response_of (OtherMsg # ms) = response_of ms"

definition recv_response :: "(unit, 'e) scp" where
  "recv_response s = (case response_of (io_in s) of (r, ms) \<Rightarrow> (r, s\<lparr>io_in := ms\<rparr>))"

text \<open>The new contents of the buffer, whether data came, and the messages that remain.\<close>

fun data_of :: "string \<Rightarrow> chan_msg list \<Rightarrow> string \<times> bool \<times> chan_msg list" where
  "data_of buf [] = (buf, False, [])"
| "data_of buf (ChanData d # ms) = (buf @ d, True, ms)"
| "data_of buf (Eof # ms) = (buf, False, ms)"
| "data_of buf (Close # ms) = (buf, False, ms)"
| "data_of buf (OtherMsg # ms) = data_of buf ms"

definition recv_data :: "string \<Rightarrow> (string \<times> bool, 'e) scp" where
  "recv_data buf s = (case data_of buf (io_in s) of (b, got, ms) \<Rightarrow> (Ok (b, got), s\<lparr>io_in := ms\<rparr>))"

section \<open>Upload\<close>

text \<open>
  What the program finds at a local path, symbolic links followed: the size in the metadata and the
  contents of a file, each of which may be refused, or a directory, whose listing may be refused or
  break off.
\<close>

datatype fs_node = FsFile "u64 option" "string option" | FsDir bool dir_entries
and dir_entries = NoEntry | EntryError | Entry string fs_node dir_entries

definition header_end :: string where
  "header_end = [byte 10]"

definition file_header :: "u64 \<Rightarrow> string \<Rightarrow> string" where
  "file_header len name = ''C0644 '' @ show_nat (unat len) @ '' '' @ name @ header_end"

definition dir_header :: "string \<Rightarrow> string" where
  "dir_header name = ''D0755 0 '' @ name @ header_end"

definition end_header :: string where
  "end_header = ''E'' @ header_end"

definition upload_file :: "'e scp_env \<Rightarrow> path \<Rightarrow> u64 option \<Rightarrow> string option \<Rightarrow> (unit, 'e) scp" where
  "upload_file E path metadata contents =
     (case metadata of
        None \<Rightarrow> io_fail (CannotStat path)
      | Some len \<Rightarrow>
         (case file_name path of
            None \<Rightarrow> io_fail (NoFileName path)
          | Some name \<Rightarrow>
              io_then (send E (file_header len (from_utf8_lossy name))) (\<lambda>_.
              io_then recv_response (\<lambda>_.
              case contents of
                None \<Rightarrow> io_fail (CannotRead path)
              | Some data \<Rightarrow>
                  io_then (send E data) (\<lambda>_.
                  io_then (send E ack) (\<lambda>_.
                  recv_response))))))"

fun upload_dir :: "'e scp_env \<Rightarrow> path \<Rightarrow> bool \<Rightarrow> dir_entries \<Rightarrow> (unit, 'e) scp"
and upload_entries :: "'e scp_env \<Rightarrow> path \<Rightarrow> dir_entries \<Rightarrow> (unit, 'e) scp" where
  "upload_dir E dir readable entries =
     (case file_name dir of
        None \<Rightarrow> io_fail (NoFileName dir)
      | Some name \<Rightarrow>
          io_then (send E (dir_header (from_utf8_lossy name))) (\<lambda>_.
          io_then recv_response (\<lambda>_.
          if \<not> readable then io_fail (CannotReadDir dir)
          else io_then (upload_entries E dir entries) (\<lambda>_.
               io_then (send E end_header) (\<lambda>_.
               recv_response)))))"
| "upload_entries E dir NoEntry = io_return ()"
| "upload_entries E dir EntryError = io_fail (ReadDirEntry dir)"
| "upload_entries E dir (Entry name (FsDir readable entries) rest) =
     io_then (upload_dir E (path_join dir name) readable entries) (\<lambda>_. upload_entries E dir rest)"
| "upload_entries E dir (Entry name (FsFile metadata contents) rest) =
     io_then (upload_file E (path_join dir name) metadata contents) (\<lambda>_. upload_entries E dir rest)"

definition scp_upload :: "'e scp_env \<Rightarrow> path \<Rightarrow> fs_node \<Rightarrow> string \<Rightarrow> bool \<Rightarrow> (unit, 'e) scp" where
  "scp_upload E local node remote recursive =
     io_then (io_lift (se_open E)) (\<lambda>_.
     io_then (io_lift (se_exec E ((if recursive then ''scp -r -t '' else ''scp -t '') @ remote))) (\<lambda>_.
     io_then recv_response (\<lambda>_.
     io_then (case node of
                FsDir readable entries \<Rightarrow>
                  if \<not> recursive then io_fail (IsDirectory local) else upload_dir E local readable entries
              | FsFile metadata contents \<Rightarrow> upload_file E local metadata contents) (\<lambda>_.
     io_lift (se_eof E)))))"

section \<open>Download\<close>

definition parse_c_header :: "string \<Rightarrow> (u64 \<times> string, 'e scp_error) result" where
  "parse_c_header buf =
     (case utf8_to_str buf of
        None \<Rightarrow> Err InvalidUtf8Header
      | Some text \<Rightarrow>
         (let line = trim_end_matches (byte 10) text in
          case splitn 3 CHR '' '' (drop 1 line) of
            [_, len, name] \<Rightarrow>
              (case parse_u64 len of None \<Rightarrow> Err InvalidSize | Some n \<Rightarrow> Ok (n, name))
          | _ \<Rightarrow> Err (MalformedHeader line)))"

definition create_file :: "'e scp_env \<Rightarrow> path \<Rightarrow> (unit, 'e) scp" where
  "create_file E p s =
     (if se_create E p then (Ok (), s\<lparr>io_files := (io_files s)(p \<mapsto> [])\<rparr>) else (Err (CannotCreate p), s))"

definition contents_of :: "path \<Rightarrow> scp_io \<Rightarrow> string" where
  "contents_of p s = unwrap_or [] (io_files s p)"

text \<open>\<open>write_all\<close> appends to the file; without data there is nothing to do.\<close>

definition write_file :: "'e scp_env \<Rightarrow> path \<Rightarrow> string \<Rightarrow> (unit, 'e) scp" where
  "write_file E p d s =
     (if d = [] then (Ok (), s)
      else if se_write E p (length (contents_of p s))
      then (Ok (), s\<lparr>io_files := (io_files s)(p \<mapsto> contents_of p s @ d)\<rparr>)
      else (Err (WriteFailed p), s))"

lemma write_file_in: "write_file E p d s = (r, s') \<Longrightarrow> io_in s' = io_in s"
  by (auto simp: write_file_def split: if_splits)

lemma data_of_length: "data_of buf ms = (b, True, ms') \<Longrightarrow> length ms' < length ms"
  by (induction buf ms rule: data_of.induct) auto

text \<open>The loop that receives the data of a file; what is left in the buffer is its value.\<close>

function receive_file :: "'e scp_env \<Rightarrow> path \<Rightarrow> nat \<Rightarrow> string \<Rightarrow> (string, 'e) scp" where
  "receive_file E dest remaining buf s =
     (if remaining = 0 then (Ok buf, s)
      else
       (case data_of [] (io_in s) of
          (b, False, ms) \<Rightarrow> (Err ClosedDuringTransfer, s\<lparr>io_in := ms\<rparr>)
        | (b, True, ms) \<Rightarrow>
           (let n = min remaining (length b) in
            case write_file E dest (take n b) (s\<lparr>io_in := ms\<rparr>) of
              (Err e, s') \<Rightarrow> (Err e, s')
            | (Ok _, s') \<Rightarrow> receive_file E dest (remaining - n) (drop n b) s')))"
  by pat_completeness auto
termination
  by (relation "measure (\<lambda>(E, dest, remaining, buf, s). length (io_in s))") (auto dest!: data_of_length [OF sym] write_file_in [OF sym])

declare receive_file.simps [simp del]

definition flush_file :: "'e scp_env \<Rightarrow> path \<Rightarrow> (unit, 'e) scp" where
  "flush_file E p s = (if se_flush E p then Ok () else Err (WriteFailed p), s)"

definition download_file_data :: "'e scp_env \<Rightarrow> path \<Rightarrow> u64 \<Rightarrow> string \<Rightarrow> (string, 'e) scp" where
  "download_file_data E dest len buf =
     io_then (create_file E dest) (\<lambda>_.
     io_then (receive_file E dest (unat len) buf) (\<lambda>rest.
     io_then (flush_file E dest) (\<lambda>_.
     io_then (if rest = [] then recv_data rest else io_return (rest, True)) (\<lambda>(b, _).
     io_return (case b of c # r \<Rightarrow> if c = byte 0 then r else b | [] \<Rightarrow> [])))))"

definition make_dir :: "'e scp_env \<Rightarrow> path \<Rightarrow> (unit, 'e) scp" where
  "make_dir E p s =
     (if se_mkdir E p then (Ok (), s\<lparr>io_dirs := io_dirs s @ [p]\<rparr>) else (Err (CannotCreateDir p), s))"

text \<open>
  What the loop does with the message in its buffer: the new stack of directories, its top first.
  After every message the buffer is empty.
\<close>

definition handle_header :: "'e scp_env \<Rightarrow> path list \<Rightarrow> string \<Rightarrow> (path list, 'e) scp" where
  "handle_header E stack buf =
     (if hd buf = CHR ''C'' then
        (case parse_c_header buf of
           Err e \<Rightarrow> io_fail e
         | Ok (len, name) \<Rightarrow>
             io_then (send E ack) (\<lambda>_.
             io_then (download_file_data E (path_join (hd stack) name) len []) (\<lambda>_.
             io_then (send E ack) (\<lambda>_.
             io_return stack))))
      else if hd buf = CHR ''D'' then
        (case parse_c_header buf of
           Err e \<Rightarrow> io_fail e
         | Ok (len, name) \<Rightarrow>
             io_then (make_dir E (path_join (hd stack) name)) (\<lambda>_.
             io_then (send E ack) (\<lambda>_.
             io_return (path_join (hd stack) name # stack))))
      else if hd buf = CHR ''E'' then
        io_then (send E ack) (\<lambda>_. io_return (if length stack > 1 then tl stack else stack))
      else if hd buf = byte 1 then
        io_then (send E ack) (\<lambda>_. io_return stack)
      else if hd buf = byte 2 then io_fail (ScpRemote (trim (from_utf8_lossy (tl buf))))
      else io_fail (UnexpectedHeader (hd buf)))"

text \<open>Every action takes its messages from the front of the channel.\<close>

definition consumes :: "('a, 'e) scp \<Rightarrow> bool" where
  "consumes m = (\<forall>s. suffix (io_in (snd (m s))) (io_in s))"

named_theorems consumes_intros \<open>actions that take messages from the channel only\<close>

lemma consumes_suffix: "consumes m \<Longrightarrow> m s = (r, s') \<Longrightarrow> suffix (io_in s') (io_in s)"
  unfolding consumes_def by (metis snd_conv)

lemma consumes_io_then [consumes_intros]:
  assumes "consumes m" "\<And>x. consumes (f x)"
  shows "consumes (io_then m f)"
  unfolding consumes_def
proof
  fix s
  obtain r s1 where m: "m s = (r, s1)" by fastforce
  show "suffix (io_in (snd (io_then m f s))) (io_in s)"
    using consumes_suffix [OF assms(1) m] assms(2)
    by (cases r) (auto simp: io_then_def m consumes_def intro: suffix_order.trans)
qed

lemma consumes_primitive [consumes_intros]:
  "consumes (io_return x)" "consumes (io_fail e)" "consumes (io_lift r)" "consumes (send E d)"
  "consumes (create_file E p)" "consumes (write_file E p d)" "consumes (flush_file E p)" "consumes (make_dir E p)"
  by (auto simp: consumes_def io_return_def io_fail_def io_lift_def send_def create_file_def write_file_def
      flush_file_def make_dir_def split: result.splits)

lemma data_of_suffix: "data_of buf ms = (b, got, ms') \<Longrightarrow> suffix ms' ms"
  by (induction buf ms rule: data_of.induct) (auto intro: suffix_ConsI)

lemma response_of_suffix: "response_of ms = (r, ms') \<Longrightarrow> suffix ms' ms"
  by (induction ms rule: response_of.induct) (auto intro: suffix_ConsI)

lemma consumes_recv [consumes_intros]: "consumes recv_response" "consumes (recv_data buf)"
  by (auto simp: consumes_def recv_response_def recv_data_def dest: data_of_suffix response_of_suffix split: prod.splits)

lemma receive_file_done [simp]: "receive_file E dest 0 buf s = (Ok buf, s)"
  by (simp add: receive_file.simps)

lemma receive_file_step:
  assumes "remaining \<noteq> 0" "data_of [] (io_in s) = (b, True, ms)"
    and "write_file E dest (take remaining b) (s\<lparr>io_in := ms\<rparr>) = (r, s')"
  shows "receive_file E dest remaining buf s =
    (case r of Err e \<Rightarrow> (Err e, s') | Ok _ \<Rightarrow> receive_file E dest (remaining - length b) (drop remaining b) s')"
  using assms by (subst receive_file.simps) (auto simp: Let_def min_def split: result.splits)

lemma consumes_receive_file [consumes_intros]: "consumes (receive_file E dest remaining buf)"
  unfolding consumes_def
proof
  fix s
  show "suffix (io_in (snd (receive_file E dest remaining buf s))) (io_in s)"
  proof (induction "length (io_in s)" arbitrary: remaining buf s rule: less_induct)
    case less
    obtain b got ms where d: "data_of [] (io_in s) = (b, got, ms)" using prod_cases3 by blast
    show ?case
    proof (cases "remaining = 0 \<or> \<not> got")
      case True
      then show ?thesis using d data_of_suffix [OF d] by (subst receive_file.simps) auto
    next
      case False
      obtain r s' where w: "write_file E dest (take remaining b) (s\<lparr>io_in := ms\<rparr>) = (r, s')" by fastforce
      then have s': "io_in s' = ms" using write_file_in [OF w] by simp
      have "suffix (io_in (snd (receive_file E dest (remaining - length b) (drop remaining b) s'))) (io_in s')"
        using data_of_length [of "[]" "io_in s" b ms] d False s' by (intro less.hyps) auto
      then show ?thesis
        using receive_file_step [of remaining s b ms E dest r s' buf] d False w s' data_of_suffix [OF d]
        by (auto split: result.splits intro: suffix_order.trans)
    qed
  qed
qed

lemma consumes_download_file_data [consumes_intros]: "consumes (download_file_data E dest len buf)"
  unfolding download_file_data_def by (auto intro!: consumes_intros split: prod.splits)

lemma consumes_handle_header [consumes_intros]: "consumes (handle_header E stack buf)"
  unfolding handle_header_def by (auto intro!: consumes_intros split: result.splits)

text \<open>The loop of \<open>scp_download\<close>.\<close>

function download_loop :: "'e scp_env \<Rightarrow> path list \<Rightarrow> string \<Rightarrow> (unit, 'e) scp" where
  "download_loop E stack buf s =
     (case data_of buf (io_in s) of
        (b, False, ms) \<Rightarrow> (Ok (), s\<lparr>io_in := ms\<rparr>)
      | (b, True, ms) \<Rightarrow>
          if b = [] then download_loop E stack b (s\<lparr>io_in := ms\<rparr>)
          else (case handle_header E stack b (s\<lparr>io_in := ms\<rparr>) of
                  (Err e, s') \<Rightarrow> (Err e, s')
                | (Ok stack', s') \<Rightarrow> download_loop E stack' [] s'))"
  by pat_completeness auto
termination
proof (relation "measure (\<lambda>(E, stack, buf, s). length (io_in s))", goal_cases)
  case 1
  show ?case by simp
next
  case (2 E stack buf s b y got ms)
  then have "length ms < length (io_in s)" by (metis data_of_length)
  then show ?case by simp
next
  case (3 E stack buf s b y got ms r s' stack')
  then have "length ms < length (io_in s)" by (metis data_of_length)
  moreover have "suffix (io_in s') ms" using 3 consumes_suffix [OF consumes_handle_header, of E stack b "s\<lparr>io_in := ms\<rparr>" r s'] by simp
  ultimately show ?case by (auto dest: suffix_length_le)
qed

declare download_loop.simps [simp del]

definition scp_download :: "'e scp_env \<Rightarrow> string \<Rightarrow> path \<Rightarrow> bool \<Rightarrow> (unit, 'e) scp" where
  "scp_download E remote local recursive =
     io_then (io_lift (se_open E)) (\<lambda>_.
     io_then (io_lift (se_exec E ((if recursive then ''scp -r -f '' else ''scp -f '') @ remote))) (\<lambda>_.
     io_then (send E ack) (\<lambda>_.
     io_then (download_loop E [local] []) (\<lambda>_.
     io_lift (se_eof E)))))"

section \<open>What is sent and what is received\<close>

text \<open>An environment in which nothing fails.\<close>

definition env_ok :: "'e scp_env \<Rightarrow> bool" where
  "env_ok E \<longleftrightarrow>
     se_open E = Ok () \<and> (\<forall>c. se_exec E c = Ok ()) \<and> se_eof E = Ok () \<and> (\<forall>n. se_send E n = Ok ()) \<and>
     (\<forall>p. se_create E p) \<and> (\<forall>p n. se_write E p n) \<and> (\<forall>p. se_flush E p) \<and> (\<forall>p. se_mkdir E p)"

lemma io_then_simps [simp]:
  "m s = (Ok x, s') \<Longrightarrow> io_then m f s = f x s'"
  "m s = (Err e, s') \<Longrightarrow> io_then m f s = (Err e, s')"
  by (simp_all add: io_then_def)

lemma io_return_simp [simp]: "io_return x s = (Ok x, s)"
  by (simp add: io_return_def)

lemma env_ok_simps:
  assumes "env_ok E"
  shows "io_lift (se_open E) s = (Ok (), s)" "io_lift (se_exec E c) s = (Ok (), s)" "io_lift (se_eof E) s = (Ok (), s)"
    "send E d s = (Ok (), s\<lparr>io_sent := io_sent s @ [d]\<rparr>)"
    "create_file E p s = (Ok (), s\<lparr>io_files := (io_files s)(p \<mapsto> [])\<rparr>)"
    "flush_file E p s = (Ok (), s)"
    "make_dir E p s = (Ok (), s\<lparr>io_dirs := io_dirs s @ [p]\<rparr>)"
  using assms
  by (simp_all add: env_ok_def io_lift_def send_def create_file_def flush_file_def make_dir_def)

lemma write_file_ok:
  assumes "env_ok E" "io_files s p = Some c"
  shows "write_file E p d s = (Ok (), s\<lparr>io_files := (io_files s)(p \<mapsto> c @ d)\<rparr>)"
  using assms by (cases s) (auto simp: env_ok_def write_file_def contents_of_def fun_upd_idem)

lemma recv_response_ack [simp]:
  "io_in s = ChanData ack # ms \<Longrightarrow> recv_response s = (Ok (), s\<lparr>io_in := ms\<rparr>)"
  by (simp add: recv_response_def ack_def)

subsection \<open>Names\<close>

definition plain_name :: "string \<Rightarrow> bool" where
  "plain_name n \<longleftrightarrow>
     n \<noteq> [] \<and> CHR ''/'' \<notin> set n \<and> n \<noteq> ''.'' \<and> n \<noteq> ''..'' \<and> valid_utf8 n \<and> last n \<noteq> byte 10"

lemma split_last_sep: "c \<notin> set r \<Longrightarrow> \<exists>ps. split c (l @ c # r) = ps @ [r]"
proof (induction l)
  case Nil
  then show ?case by (intro exI [of _ "[[]]"]) (simp add: split_no_sep)
next
  case (Cons x l)
  then obtain ps where "split c (l @ c # r) = ps @ [r]" by auto
  moreover have "length (split c (l @ c # r)) \<noteq> 1"
    by (induction l) (auto split: list.splits)
  ultimately show ?case by (cases ps) auto
qed

lemma file_name_join:
  assumes "plain_name n"
  shows "file_name (path_join dir n) = Some n"
proof -
  have n: "CHR ''/'' \<notin> set n" "n \<noteq> []" "n \<noteq> ''.''" "n \<noteq> ''..''" using assms by (auto simp: plain_name_def)
  then have "\<not> starts_with ''/'' n" by (cases n) (auto simp: starts_with_def)
  moreover have "\<exists>l. dir = l @ ''/''" if "ends_with ''/'' dir" using that by (auto simp: ends_with_def suffix_def)
  ultimately consider "path_join dir n = n" | l where "path_join dir n = l @ CHR ''/'' # n"
    by (fastforce simp: path_join_def)
  then have "\<exists>ps. split CHR ''/'' (path_join dir n) = ps @ [n]"
  proof cases
    case 1
    then show ?thesis using n by (simp add: split_no_sep)
  next
    case 2
    then show ?thesis using split_last_sep [OF n(1)] by auto
  qed
  then show ?thesis using n by (auto simp: file_name_def Let_def)
qed

subsection \<open>Headers\<close>

lemma trim_header_end: "n = [] \<or> last n \<noteq> byte 10 \<Longrightarrow> trim_end_matches (byte 10) (n @ header_end) = n"
  by (cases n rule: rev_cases) (auto simp: trim_end_matches_def header_end_def)

lemma valid_utf8_header:
  assumes "list_all (byte_in 0 127) mode" "valid_utf8 name"
  shows "valid_utf8 (mode @ '' '' @ show_nat n @ '' '' @ name @ header_end)"
proof -
  have "list_all (byte_in 0 127) (mode @ '' '' @ show_nat n @ '' '')"
    using assms(1) show_nat_ascii by (auto simp: byte_in_def)
  moreover have "valid_utf8 (name @ header_end)"
    using assms(2) by (simp add: valid_utf8_append header_end_def byte_def valid_utf8_ascii byte_in_def)
  ultimately show ?thesis using valid_utf8_append [OF valid_utf8_ascii] by fastforce
qed

lemma parse_header:
  assumes "name \<noteq> []" "last name \<noteq> byte 10" "valid_utf8 name" "CHR '' '' \<notin> set mode" "list_all (byte_in 0 127) (c # mode)"
    and "unat (len :: u64) = n"
  shows "parse_c_header (c # mode @ '' '' @ show_nat n @ '' '' @ name @ header_end) = Ok (len, name)"
proof -
  have n: "CHR '' '' \<notin> set (show_nat n)" by (rule show_nat_no_char) simp
  have "utf8_to_str (c # mode @ '' '' @ show_nat n @ '' '' @ name @ header_end) = Some (c # mode @ '' '' @ show_nat n @ '' '' @ name @ header_end)"
    using valid_utf8_header [OF assms(5, 3), of n] by (simp add: utf8_to_str_def)
  moreover have "trim_end_matches (byte 10) (c # mode @ '' '' @ show_nat n @ '' '' @ name @ header_end)
      = c # mode @ '' '' @ show_nat n @ '' '' @ name"
    using trim_header_end [of "c # mode @ '' '' @ show_nat n @ '' '' @ name"] assms(1,2) by simp
  moreover have "splitn 3 CHR '' '' (mode @ '' '' @ show_nat n @ '' '' @ name) = [mode, show_nat n, name]"
  proof -
    have "split_once CHR '' '' (mode @ CHR '' '' # show_nat n @ '' '' @ name) = Some (mode, show_nat n @ '' '' @ name)"
      using assms(4) by (intro split_once_append) auto
    moreover have "split_once CHR '' '' (show_nat n @ CHR '' '' # name) = Some (show_nat n, name)"
      using n by (intro split_once_append) auto
    ultimately show ?thesis by (simp add: numeral_3_eq_3)
  qed
  moreover have "parse_u64 (show_nat n) = Some len"
    using assms(6) unsigned_less [of len, where ?'a = nat] by (auto simp: parse_u64_def parse_show_nat)
  ultimately show ?thesis by (simp add: parse_c_header_def)
qed

lemma parse_file_header:
  assumes "name \<noteq> []" "last name \<noteq> byte 10" "valid_utf8 name"
  shows "parse_c_header (file_header len name) = Ok (len, name)"
  using parse_header [OF assms, of "''0644''" "CHR ''C''" len "unat len"]
  by (simp add: file_header_def byte_in_def)

lemma parse_dir_header:
  assumes "name \<noteq> []" "last name \<noteq> byte 10" "valid_utf8 name"
  shows "parse_c_header (dir_header name) = Ok (0, name)"
proof -
  have "show_nat 0 = ''0''" by code_simp
  then show ?thesis using parse_header [OF assms, of "''0755''" "CHR ''D''" 0 0]
    by (simp add: dir_header_def byte_in_def)
qed

subsection \<open>The data of a file\<close>

text \<open>The data of a file arrives in whatever pieces the peer and the network cut it into.\<close>

lemma receive_file_chunks:
  assumes "env_ok E" "io_files s dest = Some c" "io_in s = map ChanData chunks @ ms" "[] \<notin> set chunks"
    and "concat chunks = data @ ack" "buf = [] \<or> data \<noteq> []"
  shows "\<exists>rest chunks'. receive_file E dest (length data) buf s
      = (Ok rest, s\<lparr>io_in := map ChanData chunks' @ ms, io_files := (io_files s)(dest \<mapsto> c @ data)\<rparr>) \<and>
    ((rest = [] \<and> chunks' = [ack]) \<or> (rest = ack \<and> chunks' = []))"
  using assms(2-)
proof (induction chunks arbitrary: s c data buf)
  case Nil
  then show ?case by (simp add: ack_def)
next
  case (Cons b chunks)
  show ?case
  proof (cases "data = []")
    case True
    then have "b = ack \<and> chunks = []"
      using Cons.prems(3,4) by (cases b; cases chunks) (auto simp: ack_def append_eq_Cons_conv)
    then show ?thesis using True Cons.prems by (auto simp: fun_upd_idem)
  next
    case False
    let ?s = "s\<lparr>io_in := map ChanData chunks @ ms, io_files := (io_files s)(dest \<mapsto> c @ take (length data) b)\<rparr>"
    have step: "receive_file E dest (length data) buf s
        = receive_file E dest (length data - length b) (drop (length data) b) ?s"
      using receive_file_step [of "length data" s b "map ChanData chunks @ ms" E dest "Ok ()" ?s buf]
        write_file_ok [OF assms(1), of "s\<lparr>io_in := map ChanData chunks @ ms\<rparr>" dest c "take (length data) b"]
        Cons.prems(1,2) False by simp
    show ?thesis
    proof (cases "length b \<le> length data")
      case True
      then obtain data' where d: "data = b @ data'" "concat chunks = data' @ ack"
        using Cons.prems(4) by (auto simp: append_eq_append_conv2)
      have "\<exists>rest chunks'. receive_file E dest (length data') [] ?s
          = (Ok rest, ?s\<lparr>io_in := map ChanData chunks' @ ms, io_files := (io_files ?s)(dest \<mapsto> (c @ b) @ data')\<rparr>) \<and>
        ((rest = [] \<and> chunks' = [ack]) \<or> (rest = ack \<and> chunks' = []))"
        by (rule Cons.IH) (use Cons.prems(3) d in auto)
      then obtain rest chunks' where "receive_file E dest (length data') [] ?s
          = (Ok rest, ?s\<lparr>io_in := map ChanData chunks' @ ms, io_files := (io_files ?s)(dest \<mapsto> (c @ b) @ data')\<rparr>)"
        "(rest = [] \<and> chunks' = [ack]) \<or> (rest = ack \<and> chunks' = [])" by blast
      moreover have "length data - length b = length data'" "drop (length data) b = []" "take (length data) b = b" using d by auto
      ultimately show ?thesis using step d by (intro exI [of _ rest] exI [of _ chunks'] conjI) (simp_all del: fun_upd_apply)
    next
      case False
      then have "b = data @ ack \<and> chunks = []"
        using Cons.prems(3,4) by (cases chunks) (auto simp: ack_def append_eq_append_conv2 append_eq_Cons_conv)
      then show ?thesis using step by (intro exI [of _ ack] exI [of _ "[]"] conjI) (simp_all del: fun_upd_apply)
    qed
  qed
qed

lemma download_chunks:
  assumes "env_ok E" "[] \<notin> set chunks" "concat chunks = data @ ack" "unat len = length data" "io_in s = map ChanData chunks @ ms"
  shows "download_file_data E dest len [] s = (Ok [], s\<lparr>io_in := ms, io_files := (io_files s)(dest \<mapsto> data)\<rparr>)"
proof -
  let ?s = "s\<lparr>io_files := (io_files s)(dest \<mapsto> [])\<rparr>"
  have "\<exists>rest chunks'. receive_file E dest (length data) [] ?s
      = (Ok rest, ?s\<lparr>io_in := map ChanData chunks' @ ms, io_files := (io_files ?s)(dest \<mapsto> [] @ data)\<rparr>) \<and>
    ((rest = [] \<and> chunks' = [ack]) \<or> (rest = ack \<and> chunks' = []))"
    by (rule receive_file_chunks) (use assms in auto)
  then obtain rest chunks' where r: "receive_file E dest (length data) [] ?s
      = (Ok rest, s\<lparr>io_in := map ChanData chunks' @ ms, io_files := (io_files s)(dest \<mapsto> data)\<rparr>)"
    "(rest = [] \<and> chunks' = [ack]) \<or> (rest = ack \<and> chunks' = [])" by auto
  then show ?thesis
    using assms(4) by (auto simp: download_file_data_def env_ok_simps [OF assms(1)] recv_data_def ack_def fun_upd_def)
qed

lemma header_hd [simp]:
  "hd (file_header len name) = CHR ''C''" "hd (dir_header name) = CHR ''D''" "hd end_header = CHR ''E''"
  "file_header len name \<noteq> []" "dir_header name \<noteq> []" "end_header \<noteq> []"
  by (simp_all add: file_header_def dir_header_def end_header_def)

lemma handle_file:
  assumes "env_ok E" "name \<noteq> []" "last name \<noteq> byte 10" "valid_utf8 name"
    and "[] \<notin> set chunks" "concat chunks = data @ ack" "unat len = length data" "io_in s = map ChanData chunks @ ms"
  shows "handle_header E stack (file_header len name) s
    = (Ok stack, s\<lparr>io_in := ms, io_sent := io_sent s @ [ack, ack],
        io_files := (io_files s)(path_join (hd stack) name \<mapsto> data)\<rparr>)"
proof -
  let ?s = "s\<lparr>io_sent := io_sent s @ [ack]\<rparr>"
  have "download_file_data E (path_join (hd stack) name) len [] ?s
      = (Ok [], ?s\<lparr>io_in := ms, io_files := (io_files ?s)(path_join (hd stack) name \<mapsto> data)\<rparr>)"
    by (rule download_chunks) (use assms in auto)
  then show ?thesis
    using assms(1-4) by (simp add: handle_header_def parse_file_header env_ok_simps [OF assms(1)])
qed

lemma handle_dir:
  assumes "env_ok E" "name \<noteq> []" "last name \<noteq> byte 10" "valid_utf8 name"
  shows "handle_header E stack (dir_header name) s
    = (Ok (path_join (hd stack) name # stack),
       s\<lparr>io_sent := io_sent s @ [ack], io_dirs := io_dirs s @ [path_join (hd stack) name]\<rparr>)"
  using assms by (simp add: handle_header_def parse_dir_header env_ok_simps [OF assms(1)])

lemma handle_end:
  assumes "env_ok E"
  shows "handle_header E (d # e # stack) end_header s = (Ok (e # stack), s\<lparr>io_sent := io_sent s @ [ack]\<rparr>)"
  by (simp add: handle_header_def env_ok_simps [OF assms])

lemma download_loop_message:
  assumes "io_in s = ChanData b # ms" "b \<noteq> []" "handle_header E stack b (s\<lparr>io_in := ms\<rparr>) = (Ok stack', s')"
  shows "download_loop E stack [] s = download_loop E stack' [] s'"
  using assms by (subst download_loop.simps) simp

lemma download_loop_end: "io_in s = [] \<Longrightarrow> download_loop E stack [] s = (Ok (), s)"
  by (subst download_loop.simps) (cases s, simp)

section \<open>Copies of trees\<close>

text \<open>
  A tree that can be read, with the sizes the metadata states; the messages that describe it, the number
  of acknowledgements they need, and where its files and directories go.
\<close>

primrec plain_node :: "fs_node \<Rightarrow> bool" and plain_entries :: "dir_entries \<Rightarrow> bool" where
  "plain_node (FsFile metadata contents) =
     (case (metadata, contents) of (Some len, Some data) \<Rightarrow> unat len = length data | _ \<Rightarrow> False)"
| "plain_node (FsDir readable entries) = (readable \<and> plain_entries entries)"
| "plain_entries NoEntry = True"
| "plain_entries EntryError = False"
| "plain_entries (Entry name node rest) = (plain_name name \<and> plain_node node \<and> plain_entries rest)"

primrec node_msgs :: "fs_node \<Rightarrow> string \<Rightarrow> string list" and entries_msgs :: "dir_entries \<Rightarrow> string list" where
  "node_msgs (FsFile metadata contents) name = [file_header (the metadata) name, the contents, ack]"
| "node_msgs (FsDir readable entries) name = dir_header name # entries_msgs entries @ [end_header]"
| "entries_msgs NoEntry = []"
| "entries_msgs EntryError = []"
| "entries_msgs (Entry name node rest) = node_msgs node name @ entries_msgs rest"

primrec node_acks :: "fs_node \<Rightarrow> nat" and entries_acks :: "dir_entries \<Rightarrow> nat" where
  "node_acks (FsFile metadata contents) = 2"
| "node_acks (FsDir readable entries) = Suc (entries_acks entries + 1)"
| "entries_acks NoEntry = 0"
| "entries_acks EntryError = 0"
| "entries_acks (Entry name node rest) = node_acks node + entries_acks rest"

primrec node_files :: "fs_node \<Rightarrow> path \<Rightarrow> (path \<times> string) list"
and entries_files :: "dir_entries \<Rightarrow> path \<Rightarrow> (path \<times> string) list" where
  "node_files (FsFile metadata contents) p = [(p, the contents)]"
| "node_files (FsDir readable entries) p = entries_files entries p"
| "entries_files NoEntry p = []"
| "entries_files EntryError p = []"
| "entries_files (Entry name node rest) p = node_files node (path_join p name) @ entries_files rest p"

primrec node_dirs :: "fs_node \<Rightarrow> path \<Rightarrow> path list" and entries_dirs :: "dir_entries \<Rightarrow> path \<Rightarrow> path list" where
  "node_dirs (FsFile metadata contents) p = []"
| "node_dirs (FsDir readable entries) p = p # entries_dirs entries p"
| "entries_dirs NoEntry p = []"
| "entries_dirs EntryError p = []"
| "entries_dirs (Entry name node rest) p = node_dirs node (path_join p name) @ entries_dirs rest p"

definition put_files :: "(path \<times> string) list \<Rightarrow> (path \<rightharpoonup> string) \<Rightarrow> path \<rightharpoonup> string" where
  "put_files fs m = fold (\<lambda>(p, d) m. m(p \<mapsto> d)) fs m"

lemma put_files_simps [simp]:
  "put_files [] m = m" "put_files ((p, d) # fs) m = put_files fs (m(p \<mapsto> d))"
  "put_files (fs @ gs) m = put_files gs (put_files fs m)"
  by (simp_all add: put_files_def)

text \<open>Empty messages do not reach the peer.\<close>

definition delivered :: "string list \<Rightarrow> chan_msg list" where
  "delivered ms = map ChanData (filter (\<lambda>m. m \<noteq> []) ms)"

lemma delivered_simps [simp]:
  "delivered [] = []" "delivered (m # ms) = (if m = [] then delivered ms else ChanData m # delivered ms)"
  "delivered (ms @ ms') = delivered ms @ delivered ms'"
  by (simp_all add: delivered_def)

lemma ack_nonempty [simp]: "ack \<noteq> []"
  by (simp add: ack_def)

lemma delivered_acks [simp]: "delivered (replicate n ack) = replicate n (ChanData ack)"
  by (induction n) auto

lemma plain_name_parts: "plain_name n \<Longrightarrow> n \<noteq> [] \<and> last n \<noteq> byte 10 \<and> valid_utf8 n \<and> from_utf8_lossy n = n"
  by (simp add: plain_name_def from_utf8_lossy_valid)

lemma upload_file_sends:
  assumes "env_ok E" "file_name p = Some name" "from_utf8_lossy name = name" "plain_node (FsFile metadata contents)"
    and "io_in s = ChanData ack # ChanData ack # ms"
  shows "upload_file E p metadata contents s
    = (Ok (), s\<lparr>io_in := ms, io_sent := io_sent s @ node_msgs (FsFile metadata contents) name\<rparr>)"
  using assms
  by (auto simp: upload_file_def env_ok_simps [OF assms(1)] numeral_2_eq_2 split: option.splits)

lemma upload_dir_sends:
  "\<lbrakk>env_ok E; plain_node node; file_name p = Some name; from_utf8_lossy name = name;
    node = FsDir readable entries; io_in s = replicate (node_acks node) (ChanData ack) @ ms\<rbrakk>
   \<Longrightarrow> upload_dir E p readable entries s = (Ok (), s\<lparr>io_in := ms, io_sent := io_sent s @ node_msgs node name\<rparr>)"
  "\<lbrakk>env_ok E; plain_entries es; io_in s = replicate (entries_acks es) (ChanData ack) @ ms\<rbrakk>
   \<Longrightarrow> upload_entries E p es s = (Ok (), s\<lparr>io_in := ms, io_sent := io_sent s @ entries_msgs es\<rparr>)"
proof (induction node and es arbitrary: p name readable entries s ms and p s ms)
  case (FsDir r es)
  let ?s = "s\<lparr>io_sent := io_sent s @ [dir_header name], io_in := replicate (entries_acks es) (ChanData ack) @ ChanData ack # ms\<rparr>"
  have "upload_entries E p es ?s = (Ok (), ?s\<lparr>io_in := ChanData ack # ms, io_sent := io_sent ?s @ entries_msgs es\<rparr>)"
    by (rule FsDir.IH) (use FsDir.prems in auto)
  then show ?case
    using FsDir.prems by (auto simp: env_ok_simps [OF FsDir.prems(1)] replicate_append_same [symmetric])
next
  case (Entry n node rest)
  let ?s = "s\<lparr>io_in := replicate (entries_acks rest) (ChanData ack) @ ms, io_sent := io_sent s @ node_msgs node n\<rparr>"
  have n: "file_name (path_join p n) = Some n" "from_utf8_lossy n = n"
    using Entry.prems(2) by (auto simp: file_name_join plain_name_parts)
  have rest: "upload_entries E p rest ?s = (Ok (), ?s\<lparr>io_in := ms, io_sent := io_sent ?s @ entries_msgs rest\<rparr>)"
    by (rule Entry.IH(2)) (use Entry.prems in auto)
  show ?case
  proof (cases node)
    case (FsFile metadata contents)
    then show ?thesis
      using rest upload_file_sends [OF Entry.prems(1) n, of metadata contents s "replicate (entries_acks rest) (ChanData ack) @ ms"]
        Entry.prems(2,3) by (simp add: replicate_add numeral_2_eq_2)
  next
    case (FsDir readable entries)
    then show ?thesis
      using rest Entry.IH(1) [OF Entry.prems(1) _ n FsDir, of s "replicate (entries_acks rest) (ChanData ack) @ ms"]
        Entry.prems(2,3) by (simp add: replicate_add)
  qed
qed auto

lemma download_node:
  "\<lbrakk>env_ok E; plain_node node; plain_name name\<rbrakk> \<Longrightarrow>
   download_loop E (dir # stack) [] \<lparr>io_in = delivered (node_msgs node name) @ ms, io_sent = snt, io_files = fs, io_dirs = ds\<rparr>
   = download_loop E (dir # stack) []
       \<lparr>io_in = ms, io_sent = snt @ replicate (node_acks node) ack, io_files = put_files (node_files node (path_join dir name)) fs,
        io_dirs = ds @ node_dirs node (path_join dir name)\<rparr>"
  "\<lbrakk>env_ok E; plain_entries es\<rbrakk> \<Longrightarrow>
   download_loop E (dir # stack) [] \<lparr>io_in = delivered (entries_msgs es) @ ms, io_sent = snt, io_files = fs, io_dirs = ds\<rparr>
   = download_loop E (dir # stack) []
       \<lparr>io_in = ms, io_sent = snt @ replicate (entries_acks es) ack, io_files = put_files (entries_files es dir) fs,
        io_dirs = ds @ entries_dirs es dir\<rparr>"
proof (induction node and es arbitrary: name dir stack ms snt fs ds and dir stack ms snt fs ds)
  case (FsFile metadata contents)
  then obtain len data where f: "metadata = Some len" "contents = Some data" "unat len = length data"
    by (auto split: option.splits)
  let ?chunks = "filter (\<lambda>m. m \<noteq> []) [data, ack]"
  show ?case
    by (rule trans [OF download_loop_message [OF _ _ handle_file [where chunks = ?chunks and data = data and ms = ms and len = len
            and name = name]]])
      (use FsFile f plain_name_parts [OF FsFile.prems(3)] in \<open>auto simp: ack_def numeral_2_eq_2 simp del: fun_upd_apply\<close>)
next
  case (FsDir readable es)
  have n: "name \<noteq> []" "last name \<noteq> byte 10" "valid_utf8 name" using plain_name_parts [OF FsDir.prems(3)] by auto
  let ?p = "path_join dir name"
  have "download_loop E (dir # stack) []
      \<lparr>io_in = ChanData (dir_header name) # delivered (entries_msgs es) @ ChanData end_header # ms, io_sent = snt, io_files = fs, io_dirs = ds\<rparr>
    = download_loop E (?p # dir # stack) []
      \<lparr>io_in = delivered (entries_msgs es) @ ChanData end_header # ms, io_sent = snt @ [ack], io_files = fs, io_dirs = ds @ [?p]\<rparr>"
    by (rule download_loop_message, simp, simp) (simp add: handle_dir [OF FsDir.prems(1) n])
  also have "\<dots> = download_loop E (?p # dir # stack) []
      \<lparr>io_in = ChanData end_header # ms, io_sent = (snt @ [ack]) @ replicate (entries_acks es) ack,
       io_files = put_files (entries_files es ?p) fs, io_dirs = (ds @ [?p]) @ entries_dirs es ?p\<rparr>"
    by (rule FsDir.IH) (use FsDir.prems in auto)
  also have "\<dots> = download_loop E (dir # stack) []
      \<lparr>io_in = ms, io_sent = ((snt @ [ack]) @ replicate (entries_acks es) ack) @ [ack],
       io_files = put_files (entries_files es ?p) fs, io_dirs = (ds @ [?p]) @ entries_dirs es ?p\<rparr>"
    by (rule download_loop_message, simp, simp) (simp add: handle_end [OF FsDir.prems(1)])
  finally show ?case by (simp add: replicate_append_same)
next
  case (Entry n node rest)
  then show ?case by (simp add: replicate_add)
qed auto

definition io_new :: "chan_msg list \<Rightarrow> scp_io" where
  "io_new ms = \<lparr>io_in = ms, io_sent = [], io_files = Map.empty, io_dirs = []\<rparr>"

text \<open>
  C10. The two directions of the copy fit together: what an upload of a readable tree sends is what a
  download takes, and what the download answers is what the upload waits for, so that both succeed, and
  the download creates exactly the directories and the files of the tree, with their contents, below its
  destination.
\<close>

theorem scp_copies_tree:
  assumes "env_ok U" "env_ok D" "plain_name name" "plain_node node"
  shows "\<exists>sent acks.
    scp_upload U (path_join dir name) node remote True (io_new (delivered acks))
      = (Ok (), \<lparr>io_in = [], io_sent = sent, io_files = Map.empty, io_dirs = []\<rparr>) \<and>
    scp_download D remote local True (io_new (delivered sent))
      = (Ok (), \<lparr>io_in = [], io_sent = acks, io_files = put_files (node_files node (path_join local name)) Map.empty,
                 io_dirs = node_dirs node (path_join local name)\<rparr>)"
proof (intro exI conjI)
  let ?acks = "replicate (Suc (node_acks node)) ack" and ?sent = "node_msgs node name"
  have n: "file_name (path_join dir name) = Some name" "from_utf8_lossy name = name"
    using assms(3) by (simp_all add: file_name_join plain_name_parts)
  show "scp_upload U (path_join dir name) node remote True (io_new (delivered ?acks))
      = (Ok (), \<lparr>io_in = [], io_sent = ?sent, io_files = Map.empty, io_dirs = []\<rparr>)"
  proof (cases node)
    case (FsFile metadata contents)
    then show ?thesis
      using upload_file_sends [OF assms(1) n, of metadata contents "io_new (replicate (node_acks node) (ChanData ack))" "[]"] assms(4)
      by (simp add: scp_upload_def io_new_def env_ok_simps [OF assms(1)] numeral_2_eq_2)
  next
    case (FsDir readable entries)
    then show ?thesis
      using upload_dir_sends(1) [OF assms(1,4) n FsDir, of "io_new (replicate (node_acks node) (ChanData ack))" "[]"]
      by (simp add: scp_upload_def io_new_def env_ok_simps [OF assms(1)] del: upload_dir.simps)
  qed
  show "scp_download D remote local True (io_new (delivered ?sent))
      = (Ok (), \<lparr>io_in = [], io_sent = ?acks, io_files = put_files (node_files node (path_join local name)) Map.empty,
                 io_dirs = node_dirs node (path_join local name)\<rparr>)"
    using download_node(1) [OF assms(2,4,3), of local "[]" "[]" "[ack]" Map.empty "[]"]
    by (simp add: scp_download_def io_new_def env_ok_simps [OF assms(2)] download_loop_end)
qed

text \<open>
  C34. A download takes the data of a file in whatever pieces it arrives, the acknowledgement that ends
  it with the last of them or on its own, and creates the file with exactly this data; the messages that
  follow are left on the channel.
\<close>

theorem scp_download_any_chunks:
  assumes "env_ok E" "[] \<notin> set chunks" "concat chunks = data @ ack" "unat len = length data"
  shows "download_file_data E dest len [] \<lparr>io_in = map ChanData chunks @ ms, io_sent = snt, io_files = fs, io_dirs = ds\<rparr>
    = (Ok [], \<lparr>io_in = ms, io_sent = snt, io_files = fs(dest \<mapsto> data), io_dirs = ds\<rparr>)"
  using download_chunks [OF assms, of "\<lparr>io_in = map ChanData chunks @ ms, io_sent = snt, io_files = fs, io_dirs = ds\<rparr>"] by simp

text \<open>
  C37. The names in the headers are not checked: whatever the destination of a download, the peer can
  make the client create any file with any contents by naming its absolute path.
\<close>

theorem scp_download_writes_anywhere:
  assumes "env_ok E" "starts_with ''/'' p" "last p \<noteq> byte 10" "valid_utf8 p" "length data < 2 ^ 64" "data \<noteq> []"
  shows "scp_download E remote local recursive
      (io_new [ChanData (file_header (of_nat (length data)) p), ChanData data, ChanData ack])
    = (Ok (), \<lparr>io_in = [], io_sent = [ack, ack, ack], io_files = [p \<mapsto> data], io_dirs = []\<rparr>)"
proof -
  let ?s = "\<lparr>io_in = [ChanData data, ChanData ack], io_sent = [ack], io_files = Map.empty, io_dirs = []\<rparr> :: scp_io"
  have "handle_header E [local] (file_header (of_nat (length data)) p) ?s
      = (Ok [local], ?s\<lparr>io_in := [], io_sent := io_sent ?s @ [ack, ack],
          io_files := (io_files ?s)(path_join (hd [local]) p \<mapsto> data)\<rparr>)"
    by (rule handle_file [where chunks = "[data, ack]"])
      (use assms in \<open>auto simp: unat_of_nat_eq_iff ack_def starts_with_def\<close>)
  moreover have "path_join local p = p" using assms(2) by (simp add: path_join_def)
  ultimately have "download_loop E [local] [] \<lparr>io_in = ChanData (file_header (of_nat (length data)) p) # io_in ?s,
        io_sent = [ack], io_files = Map.empty, io_dirs = []\<rparr>
      = download_loop E [local] [] \<lparr>io_in = [], io_sent = [ack, ack, ack], io_files = [p \<mapsto> data], io_dirs = []\<rparr>"
    by (intro download_loop_message) simp_all
  then show ?thesis by (simp add: scp_download_def io_new_def env_ok_simps [OF assms(1)] download_loop_end)
qed

section \<open>A concrete copy\<close>

definition demo_scp :: "string scp_env" where
  "demo_scp =
     \<lparr>se_open = Ok (), se_exec = (\<lambda>_. Ok ()), se_eof = Ok (), se_send = (\<lambda>_. Ok ()), se_create = (\<lambda>_. True),
      se_write = (\<lambda>_ _. True), se_flush = (\<lambda>_. True), se_mkdir = (\<lambda>_. True)\<rparr>"

lemma demo_scp_ok: "env_ok demo_scp"
  by (simp add: env_ok_def demo_scp_def)

definition demo_tree :: fs_node where
  "demo_tree =
     FsDir True (Entry ''hosts'' (FsFile (Some 2) (Some ''hi''))
       (Entry ''sub'' (FsDir True (Entry ''empty'' (FsFile (Some 0) (Some [])) NoEntry)) NoEntry))"

lemma demo_names: "plain_name ''conf''" "plain_name ''hosts''" "plain_name ''sub''" "plain_name ''empty''"
  by code_simp+

lemma demo_joins:
  "path_join ''/tmp'' ''conf'' = ''/tmp/conf''" "path_join ''/tmp/conf'' ''hosts'' = ''/tmp/conf/hosts''"
  "path_join ''/tmp/conf'' ''sub'' = ''/tmp/conf/sub''" "path_join ''/tmp/conf/sub'' ''empty'' = ''/tmp/conf/sub/empty''"
  "path_join ''/etc'' ''conf'' = ''/etc/conf''"
  by code_simp+

theorem scp_copies_tree_witness:
  "\<exists>sent acks.
    scp_upload demo_scp ''/etc/conf'' demo_tree ''/tmp'' True (io_new (delivered acks))
      = (Ok (), \<lparr>io_in = [], io_sent = sent, io_files = Map.empty, io_dirs = []\<rparr>) \<and>
    scp_download demo_scp ''/tmp'' ''/tmp'' True (io_new (delivered sent))
      = (Ok (), \<lparr>io_in = [], io_sent = acks, io_files = [''/tmp/conf/hosts'' \<mapsto> ''hi'', ''/tmp/conf/sub/empty'' \<mapsto> []],
                 io_dirs = [''/tmp/conf'', ''/tmp/conf/sub'']\<rparr>)"
  using scp_copies_tree [OF demo_scp_ok demo_scp_ok demo_names(1), of demo_tree "''/etc''" "''/tmp''" "''/tmp''"] demo_names
  by (simp add: demo_tree_def demo_joins put_files_def)

theorem scp_download_any_chunks_witness:
  "download_file_data demo_scp ''/tmp/f'' 5 []
     \<lparr>io_in = map ChanData [''hel'', ''l'', ''o'' @ ack] @ [ChanData end_header], io_sent = [], io_files = Map.empty, io_dirs = []\<rparr>
   = (Ok [], \<lparr>io_in = [ChanData end_header], io_sent = [], io_files = [''/tmp/f'' \<mapsto> ''hello''], io_dirs = []\<rparr>)"
  by (rule scp_download_any_chunks [OF demo_scp_ok]) simp_all

theorem scp_download_writes_anywhere_witness:
  "scp_download demo_scp ''notes'' ''/home/me'' False
      (io_new [ChanData (file_header (of_nat (length ''x'')) ''/root/.profile''), ChanData ''x'', ChanData ack])
    = (Ok (), \<lparr>io_in = [], io_sent = [ack, ack, ack], io_files = [''/root/.profile'' \<mapsto> ''x''], io_dirs = []\<rparr>)"
proof -
  have "valid_utf8 ''/root/.profile''" "last ''/root/.profile'' \<noteq> byte 10" by code_simp+
  then show ?thesis
    by (intro scp_download_writes_anywhere [OF demo_scp_ok]) (simp_all add: starts_with_def)
qed

end
