(* ===== verification/Ssh.thy ===== *)
theory Ssh
  imports Startup Scp
begin

text \<open>
  The SSH clients of the program: the session over a tunnel (\<open>protocols/ssh/mod.rs\<close>), the interactive
  shell (\<open>shell.rs\<close>), the copy of files over such a session (the outer functions of \<open>scp.rs\<close>), and the
  commands of \<open>wstunnel-cli/src/main.rs\<close>.  The SSH protocol is the crate russh and the terminal the crate
  crossterm: both are arguments.
\<close>

section \<open>The session\<close>

text \<open>
  \<open>sl_connect\<close> runs the SSH handshake over the tunnel to a remote with the client's decision on the
  key of the server.
\<close>

record ('sess, 'key, 'hash, 'pk, 'e) ssh_lib =
  sl_connect :: "('pk \<Rightarrow> bool) \<Rightarrow> remote_addr \<Rightarrow> ('sess, 'e) result"
  sl_load_secret_key :: "path \<Rightarrow> string option \<Rightarrow> ('key, 'e) result"
  sl_is_rsa :: "'key \<Rightarrow> bool"
  sl_best_rsa_hash :: "'sess \<Rightarrow> ('hash option option, 'e) result"
  sl_authenticate :: "'sess \<Rightarrow> string \<Rightarrow> 'key \<Rightarrow> 'hash option \<Rightarrow> (bool, 'e) result"

datatype ('s, 'e) ssh_error =
    ClientError 's
  | SshError 'e
  | CannotLoadKey path 'e
  | AuthenticationFailed

text \<open>\<open>Option::flatten\<close>.\<close>

definition flatten :: "'a option option \<Rightarrow> 'a option" where
  "flatten x = Option.bind x id"

text \<open>\<open>AcceptAll::check_server_key\<close>.\<close>

definition check_server_key :: "'pk \<Rightarrow> bool" where
  "check_server_key server_public_key = True"

definition ssh_remote :: "token_lib \<Rightarrow> u128 \<Rightarrow> remote_addr" where
  "ssh_remote J tunnel =
     \<lparr>ra_protocol = TunnelStdio False None, ra_host = Domain (j_uuid_to_string J tunnel), ra_port = 0\<rparr>"

text \<open>A session and the tunnel its task serves.\<close>

record ('sess, 'ech, 'sys) ssh_session =
  sn_session :: 'sess
  sn_client :: "('ech, 'sys) ws_client"
  sn_remote :: remote_addr

definition connect_ssh ::
  "('sys, 'ech, 'e) startup_env \<Rightarrow> token_lib \<Rightarrow> ('sess, 'key, 'hash, 'pk, 'e) ssh_lib \<Rightarrow> client_args \<Rightarrow> u128
   \<Rightarrow> string \<Rightarrow> path \<Rightarrow> string option \<Rightarrow> (('sess, 'ech, 'sys) ssh_session, ('e start_error, 'e) ssh_error) result run" where
  "connect_ssh E J S client_cfg tunnel user key key_passphrase =
     run_then (create_client E (client_cfg\<lparr>ca_local_to_remote := [], ca_remote_to_local := []\<rparr>)) (\<lambda>res.
     try_then (map_err ClientError res) (\<lambda>ws_client.
     Returns (
       and_then (map_err SshError (sl_connect S check_server_key (ssh_remote J tunnel))) (\<lambda>session.
       and_then (map_err (CannotLoadKey key) (sl_load_secret_key S key key_passphrase)) (\<lambda>secret.
       and_then (if sl_is_rsa S secret then map_ok flatten (map_err SshError (sl_best_rsa_hash S session)) else Ok None) (\<lambda>hash_alg.
       and_then (map_err SshError (sl_authenticate S session user secret hash_alg)) (\<lambda>success.
         if success then Ok \<lparr>sn_session = session, sn_client = ws_client, sn_remote = ssh_remote J tunnel\<rparr>
         else Err AuthenticationFailed)))))))"

section \<open>Copies over a session\<close>

datatype scp_transfer = Upload path string | Download string path

record scp_client_config =
  sp_client :: client_args
  sp_tunnel :: u128
  sp_user :: string
  sp_key :: path
  sp_key_passphrase :: "string option"

datatype ('s, 'e) scp_client_error = ScpConnect "('s, 'e) ssh_error" | ScpCopy "'e scp_error"

text \<open>
  \<open>channel\<close> gives the channels of a session and \<open>fs\<close> the local files.  After the copy the session is
  closed and the task of the tunnel aborted, whatever the result.
\<close>

definition run_scp_client_impl ::
  "('sys, 'ech, 'e) startup_env \<Rightarrow> token_lib \<Rightarrow> ('sess, 'key, 'hash, 'pk, 'e) ssh_lib \<Rightarrow> ('sess \<Rightarrow> 'e scp_env) \<Rightarrow> (path \<Rightarrow> fs_node)
   \<Rightarrow> scp_client_config \<Rightarrow> scp_transfer \<Rightarrow> bool \<Rightarrow> scp_io
   \<Rightarrow> ((unit, ('e start_error, 'e) scp_client_error) result \<times> scp_io) run" where
  "run_scp_client_impl E J S channel fs args transfer recursive io =
     run_then (connect_ssh E J S (sp_client args) (sp_tunnel args) (sp_user args) (sp_key args) (sp_key_passphrase args)) (\<lambda>res.
       Returns (case res of
          Err e \<Rightarrow> (Err (ScpConnect e), io)
        | Ok ssh \<Rightarrow>
            map_prod (map_err ScpCopy) id
              (case transfer of
                 Upload local remote \<Rightarrow> scp_upload (channel (sn_session ssh)) local (fs local) remote recursive io
               | Download remote local \<Rightarrow> scp_download (channel (sn_session ssh)) remote local recursive io)))"

section \<open>The interactive shell\<close>

record ssh_client_config =
  sh_client :: client_args
  sh_tunnel :: u128
  sh_user :: string
  sh_key :: path
  sh_key_passphrase :: "string option"
  sh_term :: string

text \<open>
  The task that forwards the standard input, given the results of its reads: what it wrote, whether it
  shut the channel down, and its result, \<open>Pending\<close> while it waits for the next read.
\<close>

fun to_remote ::
  "(nat \<Rightarrow> (unit, 'e) result) \<Rightarrow> nat \<Rightarrow> (bytes, 'e) result list \<Rightarrow> bytes list \<times> bool \<times> (unit, 'e) result poll" where
  "to_remote write n [] = ([], False, Pending)"
| "to_remote write n (Err e # reads) = ([], False, Ready (Err e))"
| "to_remote write n (Ok buf # reads) =
     (if buf = [] then ([], True, Ready (Ok ()))
      else if 0x04 \<in> set buf then ([], True, Ready (Ok ()))
      else (case write n of
              Err e \<Rightarrow> ([], False, Ready (Err e))
            | Ok _ \<Rightarrow> (case to_remote write (n + 1) reads of (ws, r) \<Rightarrow> (buf # ws, r))))"

text \<open>What ends the session first, and the requests a session makes of its terminal and its peer.\<close>

datatype shell_end = CtrlC | InputEnded | OutputEnded

datatype shell_action =
    OpenSession
  | EnableRawMode
  | DisableRawMode
  | RequestPty string u32 u32
  | RequestShell
  | Disconnect string
  | AbortTasks

record ('sess, 'e) shell_env =
  sx_open_session :: "'sess \<Rightarrow> (unit, 'e) result"
  sx_enable_raw_mode :: "(unit, 'e) result"
  sx_size :: "(u16 \<times> u16) option"
  sx_request_pty :: "(unit, 'e) result"
  sx_request_shell :: "(unit, 'e) result"
  sx_end :: shell_end

definition disconnect_reason :: "shell_end \<Rightarrow> string option" where
  "disconnect_reason e = (case e of CtrlC \<Rightarrow> Some ''terminated'' | InputEnded \<Rightarrow> Some ''stdin closed'' | OutputEnded \<Rightarrow> None)"

text \<open>The guard that leaves the raw mode is dropped when the function returns.\<close>

definition shell_session ::
  "('sess, 'e) shell_env \<Rightarrow> string \<Rightarrow> 'sess \<Rightarrow> (unit, 'e) result \<times> shell_action list" where
  "shell_session X term session =
     (case sx_open_session X session of
        Err e \<Rightarrow> (Err e, [OpenSession])
      | Ok _ \<Rightarrow>
         (case sx_enable_raw_mode X of
            Err e \<Rightarrow> (Err e, [OpenSession, EnableRawMode])
          | Ok _ \<Rightarrow>
             (case unwrap_or (80, 24) (sx_size X) of (cols, rows) \<Rightarrow>
              map_prod id (\<lambda>acts. [OpenSession, EnableRawMode, RequestPty term (ucast cols) (ucast rows)] @ acts @ [DisableRawMode])
               (case sx_request_pty X of
                  Err e \<Rightarrow> (Err e, [])
                | Ok _ \<Rightarrow>
                   (case sx_request_shell X of
                      Err e \<Rightarrow> (Err e, [RequestShell])
                    | Ok _ \<Rightarrow>
                        (Ok (), [RequestShell] @
                          (case disconnect_reason (sx_end X) of None \<Rightarrow> [] | Some r \<Rightarrow> [Disconnect r]) @ [AbortTasks]))))))"

definition run_ssh_client_impl ::
  "('sys, 'ech, 'e) startup_env \<Rightarrow> token_lib \<Rightarrow> ('sess, 'key, 'hash, 'pk, 'e) ssh_lib \<Rightarrow> ('sess, 'e) shell_env \<Rightarrow> ssh_client_config
   \<Rightarrow> ((unit, ('e start_error, 'e) ssh_error) result \<times> shell_action list) run" where
  "run_ssh_client_impl E J S X args =
     run_then (connect_ssh E J S (sh_client args) (sh_tunnel args) (sh_user args) (sh_key args) (sh_key_passphrase args)) (\<lambda>res.
       Returns (case res of
          Err e \<Rightarrow> (Err e, [])
        | Ok ssh \<Rightarrow> map_prod (map_err SshError) id (shell_session X (sh_term args) (sn_session ssh))))"

section \<open>The command line\<close>

record scp_args =
  sq_config :: scp_client_config
  sq_recursive :: bool
  sq_source :: string
  sq_dest :: string

datatype commands =
    Command_Client client_args
  | Command_Server server_args
  | Command_Ssh ssh_client_config
  | Command_Scp scp_args

text \<open>The logs go to the standard error where the standard output carries data.\<close>

definition logs_to_stderr :: "commands \<Rightarrow> bool" where
  "logs_to_stderr c =
     (case c of
        Command_Client args \<Rightarrow>
          list_ex (\<lambda>x. case lr_protocol x of Stdio _ \<Rightarrow> True | TunnelStdio _ _ \<Rightarrow> True | _ \<Rightarrow> False) (ca_local_to_remote args)
      | Command_Ssh _ \<Rightarrow> True
      | Command_Scp _ \<Rightarrow> True
      | Command_Server _ \<Rightarrow> False)"

datatype ('s, 'e) main_error =
    BothRemote
  | NoneRemote
  | MainSsh "('s, 'e) ssh_error"
  | MainScp "('s, 'e) scp_client_error"

definition transfer_of :: "string \<Rightarrow> string \<Rightarrow> (scp_transfer, ('s, 'e) main_error) result" where
  "transfer_of src dest =
     (case (starts_with '':'' src, starts_with '':'' dest) of
        (False, True) \<Rightarrow> Ok (Upload src (drop 1 dest))
      | (True, False) \<Rightarrow> Ok (Download (drop 1 src) dest)
      | (True, True) \<Rightarrow> Err BothRemote
      | (False, False) \<Rightarrow> Err NoneRemote)"

text \<open>What the process does: the tunnels it serves, the server it runs, or the end of a session.\<close>

datatype ('sys, 're, 'net) main_run =
    ServesTunnels "'sys client_run"
  | ServesServer "'sys ws_server_config" "('re, 'net) restrictions_rules"
  | ShellEnded "shell_action list"
  | Copied scp_io

definition main ::
  "('sys, 'ech, 'e) startup_env \<Rightarrow> ('re, 'net) match_lib \<Rightarrow> (path \<Rightarrow> (('re, 'net) restrictions_rules, 'f) result) \<Rightarrow> token_lib
   \<Rightarrow> ('sess, 'key, 'hash, 'pk, 'e) ssh_lib \<Rightarrow> ('sess, 'e) shell_env \<Rightarrow> ('sess \<Rightarrow> 'e scp_env) \<Rightarrow> (path \<Rightarrow> fs_node) \<Rightarrow> scp_io \<Rightarrow> commands
   \<Rightarrow> (('sys, 're, 'net) main_run, ('e start_error, 'e) main_error) result run" where
  "main E L config_file J S X channel fs io command =
     (case command of
        Command_Client args \<Rightarrow>
          run_then (create_client_tunnels E args) (\<lambda>r.
            map_run (\<lambda>c. Ok (ServesTunnels c)) (unwrap_ok ''Cannot start wstunnel client'' r))
      | Command_Server args \<Rightarrow>
          run_then (run_server_impl E L config_file args) (\<lambda>r.
            map_run (\<lambda>(cfg, rules). Ok (ServesServer cfg rules)) (unwrap_ok ''Cannot start wstunnel server'' r))
      | Command_Ssh args \<Rightarrow>
          map_run (\<lambda>(r, acts). map_ok (\<lambda>_. ShellEnded acts) (map_err MainSsh r)) (run_ssh_client_impl E J S X args)
      | Command_Scp args \<Rightarrow>
          (case transfer_of (sq_source args) (sq_dest args) of
             Err e \<Rightarrow> Returns (Err e)
           | Ok transfer \<Rightarrow>
               map_run (\<lambda>(r, io'). map_ok (\<lambda>_. Copied io') (map_err MainScp r))
                 (run_scp_client_impl E J S channel fs (sq_config args) transfer (sq_recursive args) io)))"

section \<open>Properties\<close>


lemma connect_ssh_Ok:
  assumes "connect_ssh E J S args tunnel user key pass = Returns (Ok ssh)"
  shows "sn_remote ssh = ssh_remote J tunnel \<and>
    create_client E (args\<lparr>ca_local_to_remote := [], ca_remote_to_local := []\<rparr>) = Returns (Ok (sn_client ssh)) \<and>
    sl_connect S check_server_key (ssh_remote J tunnel) = Ok (sn_session ssh) \<and>
    (\<exists>secret hash_alg. sl_load_secret_key S key pass = Ok secret \<and> sl_authenticate S (sn_session ssh) user secret hash_alg = Ok True)"
  using assms by (auto simp: connect_ssh_def result_simps split: if_split_asm)

text \<open>Whatever key the server presents, the decision on it is the same.\<close>

lemma any_server_key_accepted: "check_server_key k = check_server_key k'"
  by (simp add: check_server_key_def)

lemma transfer_of_Ok:
  "transfer_of src dest = Ok t \<longleftrightarrow>
     (\<exists>remote. \<not> starts_with '':'' src \<and> dest = CHR '':'' # remote \<and> t = Upload src remote) \<or>
     (\<exists>remote. src = CHR '':'' # remote \<and> \<not> starts_with '':'' dest \<and> t = Download remote dest)"
  by (cases src; cases dest) (auto simp: transfer_of_def starts_with_def split: bool.splits)

lemma to_remote_forwards:
  "fst (to_remote (\<lambda>_. Ok ()) n (map Ok reads)) = takeWhile (\<lambda>b. b \<noteq> [] \<and> 0x04 \<notin> set b) reads"
proof (induction reads arbitrary: n)
  case (Cons b reads)
  then show ?case by (auto simp: case_prod_beta)
qed simp

lemma raw_mode_left:
  assumes "shell_session X term session = (r, acts)" "sx_enable_raw_mode X = Ok ()" "EnableRawMode \<in> set acts"
  shows "last acts = DisableRawMode"
  using assms by (auto simp: shell_session_def split: result.split_asm prod.split_asm option.split_asm)

lemma ends_after_abort:
  assumes "shell_session X term session = (Ok (), acts)"
  shows "AbortTasks \<in> set acts"
  using assms by (auto simp: shell_session_def split: result.split_asm prod.split_asm)

lemma logs_to_stderr_iff:
  "logs_to_stderr (Command_Client args) \<longleftrightarrow>
     (\<exists>t \<in> set (ca_local_to_remote args). \<exists>l. listener_of t = Some l \<and> on_stdio l)"
proof -
  have "(case lr_protocol t of Stdio _ \<Rightarrow> True | TunnelStdio _ _ \<Rightarrow> True | _ \<Rightarrow> False) \<longleftrightarrow>
      (\<exists>l. listener_of t = Some l \<and> on_stdio l)" for t
    by (cases "lr_protocol t") (auto simp: listener_of_def)
  then show ?thesis by (simp add: logs_to_stderr_def list_ex_iff)
qed

end
