(* ===== verification/Listen.thy ===== *)
theory Listen
  imports Startup Udp_Server
begin

text \<open>
  From a tunnel argument to the requests of its connections: the constructors of the listeners
  (\<open>tunnel/listeners\<close>), the servers they bind (\<open>protocols/unix_sock\<close>, \<open>protocols/stdio\<close> and the binding
  part of the others), and \<open>run_client\<close>, which serves the tunnels that were started.
\<close>

section \<open>The Unix socket server\<close>

text \<open>The files of the system, and the outcome of binding a socket to a path.\<close>

record 'e unix_env =
  ux_bind :: "path set \<Rightarrow> path \<Rightarrow> (unit, 'e) result"
  ux_local_path :: "path \<Rightarrow> path option"

record unix_listener_stream =
  us_path :: path
  us_path_to_delete :: bool

definition unix_run_server ::
  "'e unix_env \<Rightarrow> path set \<Rightarrow> path \<Rightarrow> (unix_listener_stream, 'e) result \<times> path set" where
  "unix_run_server X files socket_path =
     (let path_to_delete = (socket_path \<notin> files) in
      case ux_bind X files socket_path of
        Err e \<Rightarrow> (Err e, files)
      | Ok _ \<Rightarrow> (Ok \<lparr>us_path = socket_path, us_path_to_delete = path_to_delete\<rparr>, insert socket_path files))"

definition unix_listener_drop :: "'e unix_env \<Rightarrow> unix_listener_stream \<Rightarrow> path set \<Rightarrow> path set" where
  "unix_listener_drop X l files =
     (if us_path_to_delete l
      then (case ux_local_path X (us_path l) of None \<Rightarrow> files | Some p \<Rightarrow> files - {p})
      else files)"

fun unix_poll_next :: "('s \<times> 'a, 'e) result poll \<Rightarrow> ('s, 'e) accept" where
  "unix_poll_next (Ready (Ok (stream, _))) = Ready (Some (Ok stream))"
| "unix_poll_next (Ready (Err e)) = Ready (Some (Err e))"
| "unix_poll_next Pending = Pending"

section \<open>Constructors of the listeners\<close>

text \<open>
  What the constructors ask of the system: \<open>li_net\<close> for TCP, \<open>li_udp_bind\<close> and \<open>li_sock\<close> for UDP sockets,
  their local address, and the two standard streams.
\<close>

record ('r, 'w, 'e) listen_env =
  li_net :: "'e net_env"
  li_udp_bind :: "socket_addr \<Rightarrow> (unit, 'e) result"
  li_sock :: "sock_op \<Rightarrow> (unit, 'e) result"
  li_udp_local :: "socket_addr \<Rightarrow> socket_addr option"
  li_unix :: "'e unix_env"
  li_files :: "path set"
  li_stdin :: "('r, 'e) result"
  li_stdout :: "('w, 'e) result"

text \<open>\<open>udp::run_server\<close> up to its loop: \<open>configure\<close> is given the local address of the socket.\<close>

definition udp_run_server ::
  "('r, 'w, 'e) listen_env \<Rightarrow> socket_addr \<Rightarrow> (socket_addr option \<Rightarrow> (unit, 'e) result run) \<Rightarrow> (unit, 'e) result run" where
  "udp_run_server V bind configure = try_then (li_udp_bind V bind) (\<lambda>_. configure (li_udp_local V bind))"

definition tcp_listener_new ::
  "('r, 'w, 'e) listen_env \<Rightarrow> socket_addr \<Rightarrow> host \<times> u16 \<Rightarrow> bool \<Rightarrow> ('s any_listener, 'e) result" where
  "tcp_listener_new V bind_addr dest proxy_protocol =
     map_ok (\<lambda>_. TcpListener \<lparr>dl_dest = dest, dl_proxy_protocol = proxy_protocol\<rparr>) (tcp_run_server (li_net V) bind_addr False)"

definition unix_listener_new ::
  "('r, 'w, 'e) listen_env \<Rightarrow> path \<Rightarrow> host \<times> u16 \<Rightarrow> bool \<Rightarrow> ('s any_listener, 'e) result" where
  "unix_listener_new V path dest proxy_protocol =
     map_ok (\<lambda>_. UnixListener \<lparr>dl_dest = dest, dl_proxy_protocol = proxy_protocol\<rparr>)
       (fst (unix_run_server (li_unix V) (li_files V) path))"

definition tproxy_tcp_listener_new ::
  "('r, 'w, 'e) listen_env \<Rightarrow> socket_addr \<Rightarrow> bool \<Rightarrow> ('s any_listener, 'e) result" where
  "tproxy_tcp_listener_new V bind_addr proxy_protocol =
     map_ok (\<lambda>_. TproxyTcpListener proxy_protocol) (tcp_run_server (li_net V) bind_addr True)"

definition new_tproxy_udp ::
  "('r, 'w, 'e) listen_env \<Rightarrow> socket_addr \<Rightarrow> duration option \<Rightarrow> ('s any_listener, 'e) result run" where
  "new_tproxy_udp V bind_addr timeout =
     map_run (map_ok (\<lambda>_. TproxyUdpListener timeout)) (udp_run_server V bind_addr (configure_tproxy (li_sock V)))"

definition udp_listener_new ::
  "('r, 'w, 'e) listen_env \<Rightarrow> socket_addr \<Rightarrow> host \<times> u16 \<Rightarrow> duration option \<Rightarrow> ('s any_listener, 'e) result run" where
  "udp_listener_new V bind_addr dest timeout =
     map_run (map_ok (\<lambda>_. UdpListener \<lparr>ul_dest = dest, ul_timeout = timeout\<rparr>))
       (udp_run_server V bind_addr (\<lambda>_. Returns (Ok ())))"

text \<open>The SOCKS5 server binds a TCP and a UDP socket to its address.\<close>

definition socks5_listener_new :: "('r, 'w, 'e) listen_env \<Rightarrow> socket_addr \<Rightarrow> ('s any_listener, 'e) result" where
  "socks5_listener_new V bind_addr =
     and_then (n_listen (li_net V) bind_addr) (\<lambda>_. map_ok (\<lambda>_. Socks5Listener) (li_udp_bind V bind_addr))"

definition http_proxy_listener_new :: "('r, 'w, 'e) listen_env \<Rightarrow> socket_addr \<Rightarrow> bool \<Rightarrow> ('s any_listener, 'e) result" where
  "http_proxy_listener_new V bind_addr proxy_protocol =
     map_ok (\<lambda>_. HttpProxyListener proxy_protocol) (n_listen (li_net V) bind_addr)"

definition stdio_run_server :: "('r, 'w, 'e) listen_env \<Rightarrow> ('r \<times> 'w, 'e) result" where
  "stdio_run_server V = and_then (li_stdin V) (\<lambda>r. map_ok (\<lambda>w. (r, w)) (li_stdout V))"

definition new_stdio_listener ::
  "('r, 'w, 'e) listen_env \<Rightarrow> host \<times> u16 \<Rightarrow> bool \<Rightarrow> (('r \<times> 'w) any_listener, 'e) result" where
  "new_stdio_listener V dest proxy_protocol =
     map_ok (\<lambda>s. StdioListener \<lparr>sl_listener = Some s, sl_dest = dest, sl_proxy_protocol = proxy_protocol\<rparr>) (stdio_run_server V)"

definition new_tunnelid_listener ::
  "('r, 'w, 'e) listen_env \<Rightarrow> host \<times> u16 \<Rightarrow> bool \<Rightarrow> duration option \<Rightarrow> (('r \<times> 'w) any_listener, 'e) result" where
  "new_tunnelid_listener V dest proxy_protocol timeout =
     map_ok (\<lambda>s. TunnelStdioListener
         \<lparr>tsl_listener = Some s, tsl_dest = dest, tsl_proxy_protocol = proxy_protocol, tsl_timeout = timeout\<rparr>) (stdio_run_server V)"

definition open_listener ::
  "('r, 'w, 'e) listen_env \<Rightarrow> forward_listener \<Rightarrow> (('r \<times> 'w) any_listener, 'e) result run" where
  "open_listener V l =
     (case l of
        ListenTcp a dest b \<Rightarrow> Returns (tcp_listener_new V a dest b)
      | ListenTproxyTcp a b \<Rightarrow> Returns (tproxy_tcp_listener_new V a b)
      | ListenUnix p dest b \<Rightarrow> Returns (unix_listener_new V p dest b)
      | ListenTproxyUdp a t \<Rightarrow> new_tproxy_udp V a t
      | ListenUdp a dest t \<Rightarrow> udp_listener_new V a dest t
      | ListenSocks5 a t c \<Rightarrow> Returns (socks5_listener_new V a)
      | ListenHttpProxy a t c b \<Rightarrow> Returns (http_proxy_listener_new V a b)
      | ListenStdio dest b \<Rightarrow> Returns (new_stdio_listener V dest b)
      | ListenTunnelStdio dest b t \<Rightarrow> Returns (new_tunnelid_listener V dest b t))"

section \<open>Serving the tunnels\<close>

text \<open>
  \<open>run_client\<close>: the tunnels that were created are futures, which run once all are handed to the set it
  waits for.  A tunnel over the standard streams is served while they are created, and ends the process.
\<close>

fun served :: "'sys client_run \<Rightarrow> 'sys started list" where
  "served (Tunnels ts) = ts"
| "served (ExitedAfter ts l) = [RunListener l]"

definition run_client ::
  "('sys, 'ech, 'e) startup_env \<Rightarrow> client_args \<Rightarrow> ('sys started list, 'e start_error) result run" where
  "run_client E args = map_run (map_ok served) (create_client_tunnels E args)"

section \<open>Properties\<close>

subsection \<open>The socket of a Unix listener\<close>

text \<open>Binding a Unix socket fails if there is a file at its path, and its local address is that path.\<close>

definition unix_env_ok :: "'e unix_env \<Rightarrow> bool" where
  "unix_env_ok X \<longleftrightarrow>
     (\<forall>files p. p \<in> files \<longrightarrow> (\<exists>e. ux_bind X files p = Err e)) \<and> (\<forall>p. ux_local_path X p = Some p)"

lemma unix_server_cleans_up:
  assumes "unix_env_ok X" "unix_run_server X files p = (Ok l, files')"
  shows "p \<notin> files \<and> us_path_to_delete l \<and> files' = insert p files \<and> unix_listener_drop X l files' = files"
proof -
  have b: "ux_bind X files p = Ok ()" "l = \<lparr>us_path = p, us_path_to_delete = (p \<notin> files)\<rparr>" "files' = insert p files"
    using assms(2) by (auto simp: unix_run_server_def Let_def split: result.split_asm)
  then have "p \<notin> files" using assms(1) by (force simp: unix_env_ok_def)
  then show ?thesis using b assms(1) by (auto simp: unix_listener_drop_def unix_env_ok_def)
qed

lemma unix_server_blocked_by_stale_socket:
  assumes "unix_env_ok X" "unix_run_server X files p = (Ok l, files')"
  shows "\<exists>e. unix_run_server X files' p = (Err e, files')"
proof -
  have "p \<in> files'" using unix_server_cleans_up [OF assms] by simp
  then obtain e where "ux_bind X files' p = Err e" using assms(1) unfolding unix_env_ok_def by blast
  then show ?thesis by (simp add: unix_run_server_def)
qed

subsection \<open>From the argument to the request\<close>

text \<open>The requests a forward tunnel may make, by its argument.\<close>

definition requests_of :: "local_to_remote \<Rightarrow> remote_addr \<Rightarrow> bool" where
  "requests_of t r =
     (case lr_protocol t of
        Tcp b \<Rightarrow> r = \<lparr>ra_protocol = Tcp b, ra_host = fst (lr_remote t), ra_port = snd (lr_remote t)\<rparr>
      | Unix _ b \<Rightarrow> r = \<lparr>ra_protocol = Tcp b, ra_host = fst (lr_remote t), ra_port = snd (lr_remote t)\<rparr>
      | Stdio b \<Rightarrow> r = \<lparr>ra_protocol = Tcp b, ra_host = fst (lr_remote t), ra_port = snd (lr_remote t)\<rparr>
      | Udp d \<Rightarrow> r = \<lparr>ra_protocol = Udp d, ra_host = fst (lr_remote t), ra_port = snd (lr_remote t)\<rparr>
      | TunnelStdio b d \<Rightarrow> r = \<lparr>ra_protocol = TunnelStdio b d, ra_host = fst (lr_remote t), ra_port = snd (lr_remote t)\<rparr>
      | TProxyTcp \<Rightarrow> ra_protocol r = Tcp False
      | TProxyUdp d \<Rightarrow> ra_protocol r = Udp d
      | HttpProxy d c b \<Rightarrow> ra_protocol r = Tcp b
      | Socks5 d c \<Rightarrow> ra_protocol r = Tcp False \<or> (\<exists>d'. ra_protocol r = Udp d')
      | _ \<Rightarrow> False)"

text \<open>What a listener emits, by the state it is in.\<close>

fun emits_of :: "'s any_listener \<Rightarrow> remote_addr \<Rightarrow> bool" where
  "emits_of (TcpListener l) r =
     (r = \<lparr>ra_protocol = Tcp (dl_proxy_protocol l), ra_host = fst (dl_dest l), ra_port = snd (dl_dest l)\<rparr>)"
| "emits_of (UnixListener l) r =
     (r = \<lparr>ra_protocol = Tcp (dl_proxy_protocol l), ra_host = fst (dl_dest l), ra_port = snd (dl_dest l)\<rparr>)"
| "emits_of (UdpListener l) r = (r = \<lparr>ra_protocol = Udp (ul_timeout l), ra_host = fst (ul_dest l), ra_port = snd (ul_dest l)\<rparr>)"
| "emits_of (HttpProxyListener b) r = (ra_protocol r = Tcp b)"
| "emits_of Socks5Listener r = (ra_protocol r = Tcp False \<or> (\<exists>d. ra_protocol r = Udp d))"
| "emits_of (TproxyTcpListener b) r = (ra_protocol r = Tcp b)"
| "emits_of (TproxyUdpListener d) r = (ra_protocol r = Udp d)"
| "emits_of (StdioListener l) r =
     (r = \<lparr>ra_protocol = Tcp (sl_proxy_protocol l), ra_host = fst (sl_dest l), ra_port = snd (sl_dest l)\<rparr>)"
| "emits_of (TunnelStdioListener l) r =
     (r = \<lparr>ra_protocol = TunnelStdio (tsl_proxy_protocol l) (tsl_timeout l), ra_host = fst (tsl_dest l), ra_port = snd (tsl_dest l)\<rparr>)"

lemma socks5_local_protocol_kind: "socks5_local_protocol s = Tcp False \<or> (\<exists>d. socks5_local_protocol s = Udp d)"
  by (cases s) auto

lemma any_listener_poll_emits:
  "any_listener_poll l i = Returns (l', e) \<Longrightarrow>
     (\<forall>r. emits_of l' r = emits_of l r) \<and> (\<forall>s r. e = Ready (Some (Ok (s, r))) \<longrightarrow> emits_of l r)"
proof (induction l i rule: any_listener_poll.induct)
  case (5 a)
  then show ?case using socks5_local_protocol_kind by (fastforce simp: socks5_listener_poll_def emit_with_Ok map_stream_Ok)
next
  case (6 b a)
  then show ?case by (auto simp: tproxy_tcp_listener_poll_def result_simps dest: tproxy_emit_Ok)
next
  case (7 t a)
  then show ?case by (auto simp: tproxy_udp_listener_poll_def result_simps dest: tproxy_emit_Ok)
qed (auto simp: tcp_listener_poll_def unix_listener_poll_def udp_listener_poll_def http_proxy_listener_poll_def
    stdio_listener_poll_def tunnel_stdio_listener_poll_def emit_with_Ok)

lemma run_tunnel_emits_of:
  "run_tunnel any_listener_poll uuid n l is = Returns ts \<Longrightarrow> (u, r, s) \<in> set ts \<Longrightarrow> emits_of l r"
proof (induction "is" arbitrary: n l ts)
  case (Cons i "is")
  obtain l' e where p: "any_listener_poll l i = Returns (l', e)" using Cons.prems(1) by (auto elim: run_then_elim)
  have e: "emits_of l' r = emits_of l r" "e = Ready (Some (Ok (s', r'))) \<Longrightarrow> emits_of l r'" for s' r'
    using any_listener_poll_emits [OF p] by auto
  show ?case
    using Cons.prems Cons.IH [of _ l'] e p
    by (auto simp: result_simps split: poll.split_asm option.split_asm result.split_asm)
qed simp

lemma open_listener_emits:
  assumes "listener_of t = Some l" "open_listener V l = Returns (Ok al)" "emits_of al r"
  shows "requests_of t r"
  using assms
  by (cases "lr_protocol t")
    (auto simp: listener_of_def open_listener_def requests_of_def tcp_listener_new_def unix_listener_new_def
      tproxy_tcp_listener_new_def new_tproxy_udp_def udp_listener_new_def socks5_listener_new_def
      http_proxy_listener_new_def new_stdio_listener_def new_tunnelid_listener_def result_simps)

text \<open>
  C20. What a client asks of the server is what its argument says: every request that comes from a
  connection to the listener of a tunnel argument has the protocol and, unless the connecting program
  chooses it, the destination of that argument.
\<close>

theorem requests_follow_argument:
  assumes "listener_of t = Some l" "open_listener V l = Returns (Ok al)"
    and "run_tunnel any_listener_poll uuid n al events = Returns tasks" "(u, r, s) \<in> set tasks"
  shows "requests_of t r"
  by (rule open_listener_emits [OF assms(1,2) run_tunnel_emits_of [OF assms(3,4)]])

subsection \<open>Tunnels over the standard streams\<close>

lemma start_forward_stdio:
  "start_forward E ts tunnels = Ok c \<Longrightarrow> t \<in> set tunnels \<Longrightarrow> listener_of t = Some l \<Longrightarrow> on_stdio l \<Longrightarrow>
     \<exists>ts' l'. c = ExitedAfter ts' l' \<and> on_stdio l'"
proof (induction E ts tunnels rule: start_forward.induct)
  case (2 E ts tunnel rest)
  then show ?case by (auto split: option.split_asm result.split_asm if_split_asm)
qed simp


section \<open>A concrete client\<close>

definition demo_listen :: "(unit, unit, string) listen_env" where
  "demo_listen =
     \<lparr>li_net = demo_net, li_udp_bind = (\<lambda>_. Ok ()), li_sock = (\<lambda>_. Ok ()), li_udp_local = Some,
      li_unix = \<lparr>ux_bind = (\<lambda>files p. if p \<in> files then Err ''in use'' else Ok ()), ux_local_path = Some\<rparr>, li_files = {},
      li_stdin = Ok (), li_stdout = Ok ()\<rparr>"

lemma demo_unix_env_ok: "unix_env_ok (li_unix demo_listen)"
  by (simp add: unix_env_ok_def demo_listen_def)

theorem requests_follow_argument_witness:
  "requests_of demo_forward \<lparr>ra_protocol = Tcp False, ra_host = Domain ''google.com'', ra_port = 443\<rparr>"
proof (rule requests_follow_argument)
  show "listener_of demo_forward = Some (ListenTcp (SocketAddrV6 1 1212 0 0) (Domain ''google.com'', 443) False)"
    by (simp add: listener_of_def demo_forward_def)
  show "open_listener demo_listen (ListenTcp (SocketAddrV6 1 1212 0 0) (Domain ''google.com'', 443) False)
      = Returns (Ok (TcpListener \<lparr>dl_dest = (Domain ''google.com'', 443), dl_proxy_protocol = False\<rparr>))"
    by (simp add: open_listener_def tcp_listener_new_def tcp_run_server_def demo_listen_def demo_net_def)
  show "run_tunnel any_listener_poll (\<lambda>_. 7) 0 (TcpListener \<lparr>dl_dest = (Domain ''google.com'', 443), dl_proxy_protocol = False\<rparr>)
      [Accepted (Ready (Some (Ok ((), ()))))]
      = Returns [(7, \<lparr>ra_protocol = Tcp False, ra_host = Domain ''google.com'', ra_port = 443\<rparr>, ((), ()))]"
    by (simp add: tcp_listener_poll_def)
qed simp

definition demo_stdio :: local_to_remote where
  "demo_stdio = \<lparr>lr_protocol = Stdio False, lr_local = SocketAddrV4 0 0, lr_remote = (Domain ''google.com'', 22)\<rparr>"


end
