(* ===== verification/Upgraded.thy ===== *)
theory Upgraded
  imports Client
begin

text \<open>
  The connection under a websocket tunnel, at both ends: what is left of the connection after the HTTP
  upgrade (\<open>mk_websocket_tunnel\<close> in \<open>websocket.rs\<close>), its two halves (\<open>l4_transport_stream.rs\<close>), and the
  settings of the websocket.  Which connection the HTTP library gives back is an argument, and so are the
  writing operations of the connections.
\<close>

section \<open>The writing half\<close>

record ('c, 'e) async_write =
  aw_poll_write :: "'c \<Rightarrow> bytes \<Rightarrow> 'c \<times> (nat, 'e) result poll"
  aw_poll_flush :: "'c \<Rightarrow> 'c \<times> (unit, 'e) result poll"
  aw_poll_shutdown :: "'c \<Rightarrow> 'c \<times> (unit, 'e) result poll"
  aw_poll_write_vectored :: "'c \<Rightarrow> bytes list \<Rightarrow> 'c \<times> (nat, 'e) result poll"
  aw_is_write_vectored :: "'c \<Rightarrow> bool"

record 'c transport_write =
  wh_kind :: transport_kind
  wh_cnx :: 'c

text \<open>The operations of the connection inside, by its kind.\<close>

definition on_connection ::
  "('c, 'e) async_write \<Rightarrow> ('c, 'e) async_write \<Rightarrow> ('c, 'e) async_write \<Rightarrow> transport_kind \<Rightarrow> ('c, 'e) async_write" where
  "on_connection tcp tls tls_srv k = (case k of Plain \<Rightarrow> tcp | TlsClient \<Rightarrow> tls | TlsSrv \<Rightarrow> tls_srv)"

definition transport_poll_write ::
  "(transport_kind \<Rightarrow> ('c, 'e) async_write) \<Rightarrow> bytes \<Rightarrow> 'c transport_write \<Rightarrow> 'c transport_write \<times> (nat, 'e) result poll" where
  "transport_poll_write K buf w =
     map_prod (\<lambda>c. w\<lparr>wh_cnx := c\<rparr>) id (aw_poll_write (K (wh_kind w)) (wh_cnx w) buf)"

definition transport_poll_flush ::
  "(transport_kind \<Rightarrow> ('c, 'e) async_write) \<Rightarrow> 'c transport_write \<Rightarrow> 'c transport_write \<times> (unit, 'e) result poll" where
  "transport_poll_flush K w = map_prod (\<lambda>c. w\<lparr>wh_cnx := c\<rparr>) id (aw_poll_flush (K (wh_kind w)) (wh_cnx w))"

definition transport_poll_shutdown ::
  "(transport_kind \<Rightarrow> ('c, 'e) async_write) \<Rightarrow> 'c transport_write \<Rightarrow> 'c transport_write \<times> (unit, 'e) result poll" where
  "transport_poll_shutdown K w = map_prod (\<lambda>c. w\<lparr>wh_cnx := c\<rparr>) id (aw_poll_shutdown (K (wh_kind w)) (wh_cnx w))"

definition transport_poll_write_vectored ::
  "(transport_kind \<Rightarrow> ('c, 'e) async_write) \<Rightarrow> bytes list \<Rightarrow> 'c transport_write \<Rightarrow> 'c transport_write \<times> (nat, 'e) result poll" where
  "transport_poll_write_vectored K bufs w =
     map_prod (\<lambda>c. w\<lparr>wh_cnx := c\<rparr>) id (aw_poll_write_vectored (K (wh_kind w)) (wh_cnx w) bufs)"

definition transport_is_write_vectored :: "(transport_kind \<Rightarrow> ('c, 'e) async_write) \<Rightarrow> 'c transport_write \<Rightarrow> bool" where
  "transport_is_write_vectored K w = aw_is_write_vectored (K (wh_kind w)) (wh_cnx w)"

section \<open>The tunnel over an upgraded connection\<close>

text \<open>Both halves of a connection; \<open>transport_read\<close> and \<open>transport_write\<close> are over the same one.\<close>

definition into_split :: "'c transport_read \<Rightarrow> 'c transport_read \<times> 'c transport_write" where
  "into_split s = (s, \<lparr>wh_kind = th_kind s, wh_cnx = th_cnx s\<rparr>)"

datatype ws_role = RoleClient | RoleServer

text \<open>
  What the HTTP library hands back: at the client the stream it was given, at the server a TLS or a TCP
  stream, each with the bytes it has read beyond the upgrade; or something else.
\<close>

datatype 'c upgraded =
    UpgradedTransport "'c transport_read" bytes
  | UpgradedTls 'c bytes
  | UpgradedTcp 'c bytes
  | UpgradedOther

datatype upgraded_error = CannotDowncastClient | CannotDowncastServer

record ws_read =
  wr_pending_capacity :: nat

definition ws_read_new :: ws_read where
  "ws_read_new = \<lparr>wr_pending_capacity = 10\<rparr>"

record 'c ws_tunnel =
  wt_role :: ws_role
  wt_auto_pong :: bool
  wt_auto_close :: bool
  wt_auto_apply_mask :: bool
  wt_read :: "'c transport_read"
  wt_write :: "'c transport_write"
  wt_reader :: ws_read
  wt_writer :: ws_write

definition upgraded_transport :: "ws_role \<Rightarrow> 'c upgraded \<Rightarrow> ('c transport_read, upgraded_error) result" where
  "upgraded_transport role up =
     (case role of
        RoleClient \<Rightarrow>
          (case up of
             UpgradedTransport stream read_buf \<Rightarrow> Ok (with_read_buf stream read_buf)
           | _ \<Rightarrow> Err CannotDowncastClient)
      | RoleServer \<Rightarrow>
          (case up of
             UpgradedTls stream read_buf \<Rightarrow> Ok (from_server_tls stream read_buf)
           | UpgradedTcp stream read_buf \<Rightarrow> Ok (from_tcp stream read_buf)
           | _ \<Rightarrow> Err CannotDowncastServer))"

definition mk_websocket_tunnel :: "'c upgraded \<Rightarrow> ws_role \<Rightarrow> bool \<Rightarrow> ('c ws_tunnel, upgraded_error) result" where
  "mk_websocket_tunnel up role mask_frame =
     map_ok (\<lambda>transport. case into_split transport of (r, w) \<Rightarrow>
        \<lparr>wt_role = role, wt_auto_pong = False, wt_auto_close = False, wt_auto_apply_mask = mask_frame,
         wt_read = r, wt_write = w, wt_reader = ws_read_new, wt_writer = ws_write_new\<rparr>)
       (upgraded_transport role up)"

section \<open>Nothing read ahead is lost\<close>

text \<open>
  A run of reads, each with its room and the answer the connection would give: the connection is polled
  only once the bytes read ahead are used up.
\<close>

fun read_run ::
  "(nat \<times> (bytes, 'e) result poll) list \<Rightarrow> 'c transport_read \<Rightarrow> bytes \<times> bytes \<times> 'c transport_read" where
  "read_run [] s = ([], [], s)"
| "read_run ((n, inner) # polls) s =
     (case transport_poll_read n inner s of (s1, r) \<Rightarrow>
      case read_run polls s1 of (got, from_cnx, s2) \<Rightarrow>
        (case r of
           Ready (Ok bs) \<Rightarrow> (bs @ got, (if th_buf s = [] then bs else []) @ from_cnx, s2)
         | _ \<Rightarrow> (got, from_cnx, s2)))"

lemma read_run_in_order:
  "read_run polls s = (got, from_cnx, s') \<Longrightarrow> got @ th_buf s' = th_buf s @ from_cnx \<and> (th_buf s' \<noteq> [] \<longrightarrow> from_cnx = [])"
proof (induction polls arbitrary: s got from_cnx)
  case (Cons p polls)
  obtain n inner where p: "p = (n, inner)" by fastforce
  obtain s1 r where r: "transport_poll_read n inner s = (s1, r)" by fastforce
  obtain got1 from1 where g: "read_run polls s1 = (got1, from1, s')" using Cons.prems p r
    by (cases "read_run polls s1") (auto split: poll.split_asm result.split_asm)
  note ih = Cons.IH [OF g]
  show ?case
  proof (cases "th_buf s = []")
    case True
    then have "s1 = s" using r by (simp add: transport_poll_read_def)
    then show ?thesis
      using Cons.prems p r g ih True by (auto split: poll.split_asm result.split_asm)
  next
    case False
    then obtain bs where "r = Ready (Ok bs)" "bs @ th_buf s1 = th_buf s" using transport_read_ahead [OF r] by auto
    then show ?thesis using Cons.prems p r g ih False by auto
  qed
qed simp

lemma mk_websocket_tunnel_reads:
  assumes "mk_websocket_tunnel up role mask_frame = Ok t" "up \<in> {UpgradedTransport s buf, UpgradedTls c buf, UpgradedTcp c buf}"
  shows "th_buf (wt_read t) = buf"
  using assms
  by (auto simp: mk_websocket_tunnel_def upgraded_transport_def into_split_def with_read_buf_def from_server_tls_def from_tcp_def
      result_simps split: ws_role.split_asm)

text \<open>
  C14. The upgrade loses no byte: at both ends of a websocket tunnel, over TCP and TLS, the reads of the
  tunnel yield first the bytes that came with the upgrade and then those of the connection, in order,
  whatever the room of each read; and the connection is not read before the others are used up.
\<close>

theorem upgrade_loses_no_byte:
  assumes "mk_websocket_tunnel up role mask_frame = Ok t" "up \<in> {UpgradedTransport s buf, UpgradedTls c buf, UpgradedTcp c buf}"
    and "read_run polls (wt_read t) = (got, from_cnx, r)"
  shows "got @ th_buf r = buf @ from_cnx \<and> (th_buf r \<noteq> [] \<longrightarrow> from_cnx = [])"
  using read_run_in_order [OF assms(3)] mk_websocket_tunnel_reads [OF assms(1,2)] by simp

definition demo_polls :: "(nat \<times> (bytes, string) result poll) list" where
  "demo_polls = [(2, Pending), (8, Pending), (8, Ready (Ok [4, 5]))]"

theorem upgrade_loses_no_byte_witness:
  "\<exists>t r. mk_websocket_tunnel (UpgradedTcp () [1, 2, 3]) RoleServer False = Ok t \<and>
     read_run demo_polls (wt_read t) = ([1, 2, 3, 4, 5], [4, 5], r) \<and> [1, 2, 3, 4, 5] @ th_buf r = [1, 2, 3] @ [4, 5]"
proof -
  obtain t where t: "mk_websocket_tunnel (UpgradedTcp () [1, 2, 3]) RoleServer False = Ok t"
    by (simp add: mk_websocket_tunnel_def upgraded_transport_def)
  then have "wt_read t = \<lparr>th_kind = Plain, th_cnx = (), th_buf = [1, 2, 3]\<rparr>"
    by (auto simp: mk_websocket_tunnel_def upgraded_transport_def into_split_def from_tcp_def)
  then have r: "read_run demo_polls (wt_read t) = ([1, 2, 3, 4, 5], [4, 5], \<lparr>th_kind = Plain, th_cnx = (), th_buf = []\<rparr>)"
    by (simp add: transport_poll_read_def demo_polls_def)
  from upgrade_loses_no_byte [OF t _ r, of "from_tcp () []" "[1, 2, 3]" "()"]
  have "[1, 2, 3, 4, 5] @ [] = [1, 2, 3] @ [4, 5 :: u8]" by simp
  with r t show ?thesis by auto
qed

end
