(* ===== verification/Executor.thy ===== *)
theory Executor
  imports Prelude
begin

text \<open>
  The executors of the library (\<open>executor.rs\<close>): where its tasks are spawned and what becomes of them when
  an executor is dropped.  The runtime is modelled by the states of the tasks it was given, in the order
  they were spawned; a handle is the position of its task.
\<close>

section \<open>Tasks\<close>

datatype task_state = Running | Finished | Aborted

text \<open>
  The tasks of one \<open>JoinSet\<close>, or of the runtime for the default executor, and how many executors hold the
  set: references to an executor do not keep it.
\<close>

record exec_world =
  ew_tasks :: "task_state list"
  ew_executors :: nat

definition spawn_task :: "exec_world \<Rightarrow> nat \<times> exec_world" where
  "spawn_task w = (length (ew_tasks w), w\<lparr>ew_tasks := ew_tasks w @ [Running]\<rparr>)"

fun abort_task :: "task_state \<Rightarrow> task_state" where
  "abort_task Running = Aborted"
| "abort_task s = s"

text \<open>\<open>AbortHandle::abort\<close>.\<close>

definition handle_abort :: "nat \<Rightarrow> exec_world \<Rightarrow> exec_world" where
  "handle_abort h w = (if h < length (ew_tasks w) then w\<lparr>ew_tasks := (ew_tasks w)[h := abort_task (ew_tasks w ! h)]\<rparr> else w)"

section \<open>The default executor\<close>

definition default_executor_spawn :: "exec_world \<Rightarrow> nat \<times> exec_world" where
  "default_executor_spawn w = spawn_task w"

definition default_executor_ref_clone :: "exec_world \<Rightarrow> exec_world" where
  "default_executor_ref_clone w = w"

section \<open>The executor over a set of tasks\<close>

definition executor_new :: exec_world where
  "executor_new = \<lparr>ew_tasks = [], ew_executors = 1\<rparr>"

definition executor_clone :: "exec_world \<Rightarrow> exec_world" where
  "executor_clone w = w\<lparr>ew_executors := ew_executors w + 1\<rparr>"

definition executor_spawn :: "exec_world \<Rightarrow> nat \<times> exec_world" where
  "executor_spawn w = spawn_task w"

definition executor_abort_all :: "exec_world \<Rightarrow> exec_world" where
  "executor_abort_all w = w\<lparr>ew_tasks := map abort_task (ew_tasks w)\<rparr>"

text \<open>Dropping an executor aborts the tasks of the set it shares with its clones.\<close>

definition executor_drop :: "exec_world \<Rightarrow> exec_world" where
  "executor_drop w = (executor_abort_all w)\<lparr>ew_executors := ew_executors w - 1\<rparr>"

text \<open>
  A reference spawns a task that never ends, whose handle it hands out once the executors are gone; a
  future spawned then is dropped.
\<close>

definition executor_ref_new :: "exec_world \<Rightarrow> nat \<times> exec_world" where
  "executor_ref_new w = spawn_task w"

definition executor_ref_spawn :: "nat \<Rightarrow> exec_world \<Rightarrow> nat \<times> exec_world" where
  "executor_ref_spawn default_abort_handle w =
     (if ew_executors w > 0 then spawn_task w else (default_abort_handle, w))"

section \<open>What every executor promises\<close>

text \<open>
  To spawn leaves the tasks there are as they are, and gives a handle of a task.  \<open>usable\<close> tells in which
  states the operation may be called.
\<close>

locale task_spawner =
  fixes usable :: "exec_world \<Rightarrow> bool" and spawn :: "exec_world \<Rightarrow> nat \<times> exec_world"
  assumes keeps_tasks: "usable w \<Longrightarrow> spawn w = (h, w') \<Longrightarrow> \<exists>ts. ew_tasks w' = ew_tasks w @ ts"
    and handle_valid: "usable w \<Longrightarrow> spawn w = (h, w') \<Longrightarrow> h < length (ew_tasks w')"
    and stays_usable: "usable w \<Longrightarrow> spawn w = (h, w') \<Longrightarrow> usable w'"
begin

fun spawn_many :: "nat \<Rightarrow> exec_world \<Rightarrow> nat list \<times> exec_world" where
  "spawn_many 0 w = ([], w)"
| "spawn_many (Suc n) w =
     (case spawn w of (h, w1) \<Rightarrow> case spawn_many n w1 of (hs, w2) \<Rightarrow> (h # hs, w2))"

lemma spawn_many_tasks:
  "usable w \<Longrightarrow> spawn_many n w = (hs, w') \<Longrightarrow>
     (\<exists>ts. ew_tasks w' = ew_tasks w @ ts) \<and> length hs = n \<and> (\<forall>h \<in> set hs. h < length (ew_tasks w'))"
proof (induction n arbitrary: w hs)
  case (Suc n)
  obtain h w1 hs' where s: "spawn w = (h, w1)" "spawn_many n w1 = (hs', w')" "hs = h # hs'"
    using Suc.prems(2) by (auto split: prod.splits)
  then obtain ts where "ew_tasks w1 = ew_tasks w @ ts" "h < length (ew_tasks w1)" "usable w1"
    using keeps_tasks handle_valid stays_usable Suc.prems(1) by blast
  then show ?case using Suc.IH [OF _ s(2)] s(3) by auto
qed simp

end

interpretation default_tasks: task_spawner "\<lambda>_. True" default_executor_spawn
  by unfold_locales (auto simp: default_executor_spawn_def spawn_task_def)

interpretation set_tasks: task_spawner "\<lambda>_. True" executor_spawn
  by unfold_locales (auto simp: executor_spawn_def spawn_task_def)

interpretation ref_tasks: task_spawner "\<lambda>w. d < length (ew_tasks w)" "executor_ref_spawn d" for d
  by unfold_locales (auto simp: executor_ref_spawn_def spawn_task_def split: if_splits)

section \<open>Runs of an executor\<close>

text \<open>
  The operations on an executor, its clones and its references, and the tasks that end.  The state also
  lists the default handles of the references.
\<close>

inductive exec_step :: "exec_world \<times> nat list \<Rightarrow> exec_world \<times> nat list \<Rightarrow> bool" where
  step_clone: "ew_executors w > 0 \<Longrightarrow> exec_step (w, refs) (executor_clone w, refs)"
| step_spawn: "ew_executors w > 0 \<Longrightarrow> exec_step (w, refs) (snd (executor_spawn w), refs)"
| step_abort_all: "ew_executors w > 0 \<Longrightarrow> exec_step (w, refs) (executor_abort_all w, refs)"
| step_drop: "ew_executors w > 0 \<Longrightarrow> exec_step (w, refs) (executor_drop w, refs)"
| step_ref_new: "ew_executors w > 0 \<Longrightarrow> executor_ref_new w = (h, w') \<Longrightarrow> exec_step (w, refs) (w', refs @ [h])"
| step_ref_spawn: "d \<in> set refs \<Longrightarrow> exec_step (w, refs) (snd (executor_ref_spawn d w), refs)"
| step_handle: "exec_step (w, refs) (handle_abort h w, refs)"
| step_finish: "i < length (ew_tasks w) \<Longrightarrow> ew_tasks w ! i = Running \<Longrightarrow>
    exec_step (w, refs) (w\<lparr>ew_tasks := (ew_tasks w)[i := Finished]\<rparr>, refs)"

inductive_cases exec_stepE: "exec_step (w, refs) (w', refs')"

abbreviation exec_run :: "exec_world \<times> nat list \<Rightarrow> exec_world \<times> nat list \<Rightarrow> bool" where
  "exec_run \<equiv> exec_step\<^sup>*\<^sup>*"

definition exec_inv :: "exec_world \<times> nat list \<Rightarrow> bool" where
  "exec_inv = (\<lambda>(w, refs).
     (ew_executors w = 0 \<longrightarrow> Running \<notin> set (ew_tasks w)) \<and> (\<forall>d \<in> set refs. d < length (ew_tasks w)))"

lemma abort_task_not_running [simp]: "abort_task s \<noteq> Running"
  by (cases s) auto

lemma update_not_running: "Running \<notin> set xs \<Longrightarrow> s \<noteq> Running \<Longrightarrow> Running \<notin> set (xs[i := s])"
  using set_update_subset_insert [of xs i s] by auto

lemma exec_step_inv: "exec_step s s' \<Longrightarrow> exec_inv s \<Longrightarrow> exec_inv s'"
proof (induction rule: exec_step.induct)
  case (step_ref_new w h w' refs)
  then show ?case by (auto simp: exec_inv_def executor_ref_new_def spawn_task_def)
next
  case (step_handle w refs h)
  then show ?case
    by (auto simp: exec_inv_def handle_abort_def dest: update_not_running [OF _ abort_task_not_running])
next
  case (step_finish i w refs)
  then show ?case by (auto simp: exec_inv_def dest: nth_mem)
qed (auto simp: exec_inv_def executor_clone_def executor_spawn_def spawn_task_def executor_abort_all_def executor_drop_def
    executor_ref_spawn_def dest: sym)

lemma exec_run_inv: "exec_run s s' \<Longrightarrow> exec_inv s \<Longrightarrow> exec_inv s'"
  by (induction rule: rtranclp_induct) (auto intro: exec_step_inv)

text \<open>Once the executors are gone the tasks stay as they are, but for what their handles do to them.\<close>

lemma gone_stays_gone: "exec_step (w, refs) (w', refs') \<Longrightarrow> ew_executors w = 0 \<Longrightarrow> ew_executors w' = 0 \<and> refs' = refs"
  by (elim exec_stepE) (auto simp: executor_ref_spawn_def handle_abort_def)


text \<open>
  A clone is not independent: dropping one executor aborts the running tasks of all of them, and those
  spawned through their references, although other executors are still in use.
\<close>

lemma clone_drop_aborts_all:
  assumes "ew_executors w > 0"
  shows "ew_executors (executor_drop (executor_clone w)) = ew_executors w \<and>
    Running \<notin> set (ew_tasks (executor_drop (executor_clone w)))"
  using assms by (auto simp: executor_drop_def executor_clone_def executor_abort_all_def dest: sym)


end
