(* ===== verification/Embedded_Cert.thy ===== *)
theory Embedded_Cert
  imports Prelude
begin

text \<open>
  The certificate of a TLS server that was given none (\<open>embedded_certificate.rs\<close>): its subject and the
  dates between which it is valid, which are drawn from the time that passed, in nanoseconds.  Keys and
  signatures are the crate rcgen's.
\<close>

record cert_date =
  cd_year :: int
  cd_month :: u8
  cd_day :: u8

text \<open>\<open>date_time_ymd\<close> panics unless the date exists; every month has 28 days.\<close>

definition date_time_ymd :: "int \<Rightarrow> u8 \<Rightarrow> u8 \<Rightarrow> (int \<Rightarrow> u8 \<Rightarrow> nat) \<Rightarrow> cert_date run" where
  "date_time_ymd year month day days_in_month =
     (if -9999 \<le> year \<and> year \<le> 9999 \<and> 1 \<le> unat month \<and> unat month \<le> 12 \<and> 1 \<le> unat day \<and>
         unat day \<le> days_in_month year month
      then Returns \<lparr>cd_year = year, cd_month = month, cd_day = day\<rparr>
      else Panics ''invalid or out-of-range date'')"

record cert_params =
  cp_country :: string
  cp_not_before :: cert_date
  cp_not_after :: cert_date

definition embedded_params :: "(int \<Rightarrow> u8 \<Rightarrow> nat) \<Rightarrow> u128 \<Rightarrow> u128 \<Rightarrow> cert_params run" where
  "embedded_params days_in_month el1 el2 =
     run_then (date_time_ymd (2024 - uint (el1 mod 2)) (1 + ucast (el1 mod 12)) (1 + ucast (el1 mod 28)) days_in_month) (\<lambda>not_before.
     run_then (date_time_ymd (2025 + uint (el2 mod 50)) (1 + ucast (el2 mod 12)) (1 + ucast (el2 mod 28)) days_in_month) (\<lambda>not_after.
       Returns \<lparr>cp_country = ''FR'', cp_not_before = not_before, cp_not_after = not_after\<rparr>))"

lemma unat_one_plus_ucast:
  assumes "unat (x :: u128) < 28"
  shows "unat (1 + ucast x :: u8) = 1 + unat x"
proof -
  have "unat (ucast x :: u8) = unat x" using assms by (simp add: unsigned_ucast_eq take_bit_nat_eq_self)
  then show ?thesis using assms by (simp add: unat_word_ariths)
qed

lemma drawn_date_exists:
  assumes "\<And>m. 1 \<le> unat m \<Longrightarrow> unat m \<le> 12 \<Longrightarrow> 28 \<le> days_in_month year m" "-9999 \<le> year" "year \<le> 9999"
  shows "date_time_ymd year (1 + ucast (el mod 12 :: u128)) (1 + ucast (el mod 28)) days_in_month
    = Returns \<lparr>cd_year = year, cd_month = 1 + ucast (el mod 12), cd_day = 1 + ucast (el mod 28)\<rparr>"
proof -
  have "unat (el mod 12) < 12" "unat (el mod 28) < 28" by (simp_all add: unat_mod_distrib)
  then have m: "unat (1 + ucast (el mod 12) :: u8) = 1 + unat (el mod 12)" "unat (el mod 12) < 12"
    and d: "unat (1 + ucast (el mod 28) :: u8) = 1 + unat (el mod 28)" "unat (el mod 28) < 28"
    by (simp_all add: unat_one_plus_ucast)
  then show ?thesis using assms(1) [of "1 + ucast (el mod 12)"] assms(2,3) by (simp add: date_time_ymd_def)
qed

text \<open>Generating the certificate never panics, and it is valid from 2023 or 2024 to a later year up to 2074.\<close>

lemma embedded_dates_valid:
  assumes "\<And>y m. 1 \<le> unat m \<Longrightarrow> unat m \<le> 12 \<Longrightarrow> 28 \<le> days_in_month y m"
  shows "\<exists>p. embedded_params days_in_month el1 el2 = Returns p \<and>
    cd_year (cp_not_before p) \<in> {2023, 2024} \<and> 2025 \<le> cd_year (cp_not_after p) \<and> cd_year (cp_not_after p) \<le> 2074"
proof -
  have "uint (el1 mod 2) = 0 \<or> uint (el1 mod 2) = 1" by (simp add: uint_mod) linarith
  moreover have "0 \<le> uint (el2 mod 50) \<and> uint (el2 mod 50) < 50" by (simp add: uint_mod)
  ultimately show ?thesis using assms by (auto simp: embedded_params_def drawn_date_exists)
qed

text \<open>The end may lie in 2025 already.\<close>

lemma embedded_certificate_may_expire_in_2025:
  assumes "\<And>y m. 1 \<le> unat m \<Longrightarrow> unat m \<le> 12 \<Longrightarrow> 28 \<le> days_in_month y m"
  shows "\<exists>p. embedded_params days_in_month el1 0 = Returns p \<and> cp_not_after p = \<lparr>cd_year = 2025, cd_month = 1, cd_day = 1\<rparr>"
proof -
  have "0 \<le> uint (el1 mod 2)" "uint (el1 mod 2) < 2" by (simp_all add: uint_mod)
  then have y: "-9999 \<le> 2024 - uint (el1 mod 2)" "2024 - uint (el1 mod 2) \<le> 9999" by linarith+
  have "\<exists>d. date_time_ymd (2024 - uint (el1 mod 2)) (1 + ucast (el1 mod 12)) (1 + ucast (el1 mod 28)) days_in_month = Returns d"
    using drawn_date_exists [of days_in_month "2024 - uint (el1 mod 2)" el1, OF assms] y by auto
  then show ?thesis using assms drawn_date_exists [of days_in_month 2025 0] by (auto simp: embedded_params_def)
qed

end
