(* ===== verification/Spec2Isabelle.thy ===== *)
theory Spec2Isabelle
  imports Startup Serve Client Cli_Args Socks5 Http_Proxy Ssh Listen Upgraded Executor Embedded_Cert
begin

text \<open>
  wstunnel carries TCP, UDP, Unix and standard streams over a websocket or an HTTP/2 request.  A client
  listens locally, or asks the server to listen (a reverse tunnel).  For every connection it sends an
  upgrade request with a token that names protocol and destination.  The server checks the request
  against its rules, opens the destination, and both ends copy bytes until one of them closes.  A
  destination may also be the identifier of a tunnel, which the server resolves through a registry of
  Kubernetes pods (crate \<open>tunnel-server\<close>).  The command line program also has an SSH shell and a copy of
  files that run over such a tunnel.

  This development is a shallow embedding of that program as it runs on Linux.  Paths below are
  relative to \<open>src/wstunnel/src\<close> unless a crate is named.

  \<^bold>\<open>Conventions.\<close>  A struct is a record, an enum a datatype, a function of the source a function of its
  name; a name that is taken or ambiguous gets the module as prefix (\<open>tcp_connect\<close>, \<open>ws_request\<close>).
  Strings are lists of UTF-8 bytes, machine integers are words of their width, durations are
  nanoseconds.  Errors are values of \<open>result\<close>; a panic is \<open>Panics\<close> of the type \<open>run\<close>; a poll that is not ready
  is \<open>Pending\<close>.  The release build aborts on a panic, so a panic ends the process.  Crates and system
  calls are records of functions (\<open>http_lib\<close>, \<open>token_lib\<close>, \<open>tls_lib\<close> and others) that the definitions
  take as arguments; what a theorem needs of them is a named predicate such as \<open>http_lib_ok\<close>, and its
  witness satisfies the predicate with concrete functions.  Concurrent code is a step function on the
  shared state: the scheduler, the peers and the file system are the list of events, and a theorem
  about every list of events is one about every interleaving at that granularity.

  \<^bold>\<open>Shared vocabulary.\<close>
  \<^item> \<open>Prelude\<close>: words, results, panics, string operations and the collections \<open>str_simps\<close> and
    \<open>result_simps\<close>.
  \<^item> \<open>Std_Net\<close>: the address types of \<open>std::net\<close> with their parsers and printers.
  \<^item> \<open>Tunnel\<close>: \<open>tunnel/mod.rs\<close> and \<open>tunnel/transport/types.rs\<close>, protocols and addresses.

  \<^bold>\<open>The request and its check.\<close>
  \<^item> \<open>Http_Msg\<close>: headers, tokens and the extraction of a request (\<open>transport/jwt.rs\<close>, \<open>server/utils.rs\<close>).
  \<^item> \<open>Client_Request\<close>: the upgrade requests of \<open>websocket.rs\<close> and \<open>http2.rs\<close>.
  \<^item> \<open>Restrictions\<close>: the rules (\<open>restrictions\<close>) and \<open>validate_tunnel\<close>; a request is granted by the first
    rule that matches.
  \<^item> \<open>Resolver\<close>: the registry of the crate \<open>tunnel-server\<close> and the server's client of it
    (\<open>tunnel_resolver.rs\<close>).

  \<^bold>\<open>The server.\<close>
  \<^item> \<open>Server\<close>: \<open>handle_tunnel_request\<close>, \<open>exec_tunnel\<close> and both upgrade handlers; only validated destinations
    are opened, and all refusals look the same.
  \<^item> \<open>Serve\<close>: \<open>WsServer::serve\<close> with handshakes, requests and reloads as events; the safety of a request is
    lifted to every run, and no run panics.
  \<^item> \<open>Reverse_Tunnel\<close>: the listening servers of \<open>reverse_tunnel.rs\<close>, reachability and order of delivery.
  \<^item> \<open>Rate_Limiter\<close>: the shared limiters and the limited reader and writer.
  \<^item> \<open>Tls\<close>, \<open>Reloaders\<close>, \<open>Embedded_Cert\<close>: TLS set-up, the reloading of certificates and rules, and the dates
    of the embedded certificate.

  \<^bold>\<open>The client.\<close>
  \<^item> \<open>Cli_Args\<close>, \<open>Startup\<close>, \<open>Listen\<close>: \<open>config.rs\<close>, \<open>lib.rs\<close>, and the way from an argument to its listener, the
    sockets it binds (\<open>unix_sock\<close>, \<open>stdio\<close>) and the requests of its connections.
  \<^item> \<open>Listeners\<close>, \<open>Connectors\<close>: \<open>tunnel/listeners\<close> and \<open>tunnel/connectors\<close>.
  \<^item> \<open>Client\<close>, \<open>Upgraded\<close>: \<open>client.rs\<close>, the connection behind the pool, its halves
    (\<open>l4_transport_stream.rs\<close>), and what an upgrade leaves of it.
  \<^item> \<open>Transport_Io\<close>: the two copying loops of \<open>io.rs\<close> over both transports; bytes arrive in order, and a dead
    peer is noticed.
  \<^item> \<open>Executor\<close>: the executors of \<open>executor.rs\<close> and the fate of their tasks.

  \<^bold>\<open>Protocols.\<close>
  \<^item> \<open>Dns\<close>, \<open>Tcp\<close>: name resolution, staggered connection attempts, the HTTP proxy in front of the client.
  \<^item> \<open>Udp_Server\<close>, \<open>Socks5\<close>, \<open>Http_Proxy\<close>: the local servers, their streams, timeouts and credentials.
  \<^item> \<open>Scp\<close>, \<open>Ssh\<close>: \<open>protocols/ssh\<close> and the commands of the crate \<open>wstunnel-cli\<close>.  What an upload
    sends a download takes, and the two together copy a tree of files.

  \<^bold>\<open>Interfaces.\<close>  The traits and shared contracts are locales, interpreted on the definitions of the model:
  \<open>connector\<close> (TCP, UDP, SOCKS5), \<open>listener\<close> (every listener), \<open>dialer\<close> (the attempts of TCP and UDP),
  \<open>tunnel_writes\<close> and \<open>tunnel_reads\<close> (the halves of both transports) and \<open>task_spawner\<close> (three executors).

  \<^bold>\<open>This theory\<close> holds the properties that span both ends: the decision of the server on a request of the
  client, the destination of a dynamic reverse tunnel, and the way of an SSH session to its pod.

  \<^bold>\<open>Termination.\<close>  No definition has fuel.  Endless loops of the program are folds over the list of events,
  of any length.  The loops of \<open>scp.rs\<close> end because every round takes a message from the channel.  The loop
  that clears missed ticks of a UDP stream is a partial function, and a theorem shows that it returns.
  Statements about time (the fourth tick of a ping timer, the back-off of a reverse tunnel) are bounds of
  the code.

  \<^bold>\<open>Not modelled.\<close>
  \<^item> Log and terminal output, tracing spans, and the limit of open files: no decision reads them.
  \<^item> The insides of crates: hyper, rustls, fastwebsockets, bb8, notify, clap, serde, fast_socks5, russh,
    crossterm, rcgen, governor, hickory, kube and axum.  They are arguments.
  \<^item> The closures of \<open>serve\<close> that only pass their arguments on to the two upgrade handlers; the dispatch they
    belong to is \<open>auto_upgrade\<close> and \<open>serve_request\<close>.
  \<^item> Forwarding instances of \<open>AsyncRead\<close> and \<open>AsyncWrite\<close> that carry no logic.
  \<^item> \<open>main.rs\<close> of the crate \<open>tunnel-server\<close>, which connects the modelled operations to Kubernetes and HTTP.
  \<^item> Code for Windows and other systems (\<open>server_windows.rs\<close> and the conditional branches), module
    declarations, and the tests.
\<close>

section \<open>From the client to the server\<close>

text \<open>The upgrade request of a client, by the scheme of its server, and the headers its user adds.\<close>

definition upgrade_request ::
  "http_lib \<Rightarrow> token_lib \<Rightarrow> (path \<Rightarrow> 'e file_lines) \<Rightarrow> string \<Rightarrow> ('conn, 'sys) ws_client_config
   \<Rightarrow> u128 \<Rightarrow> remote_addr \<Rightarrow> (request, request_error) result run" where
  "upgrade_request H J read_file key cfg request_id dest =
     (if ta_scheme (cc_remote_addr cfg) \<in> {Ws, Wss} then ws_request H J read_file key cfg request_id dest
      else http2_request H J read_file cfg request_id dest)"

definition user_headers ::
  "http_lib \<Rightarrow> (path \<Rightarrow> 'e file_lines) \<Rightarrow> ('conn, 'sys) ws_client_config \<Rightarrow> (string \<times> string) list" where
  "user_headers H read_file cfg =
     cc_headers cfg @ (if ta_scheme (cc_remote_addr cfg) \<in> {Ws, Wss} then file_headers_ws H read_file cfg
                       else fst (http2_file H read_file cfg))"

lemma upgrade_request_token:
  assumes "http_lib_ok H" "token_lib_ok J" "upgrade_request H J read_file key cfg u dest = Returns (Ok req)"
    and "map_of (user_headers H read_file cfg) ''sec-websocket-protocol'' = None"
    and "map_of (user_headers H read_file cfg) ''cookie'' = None"
    and "tunnel_to_jwt_token J u dest = Returns token" "token \<noteq> []"
  shows "extract_token H req = token"
proof -
  have "list_all visible token" by (rule token_visible [OF assms(2, 6, 7)])
  moreover have "list_all visible (''v1, '' @ JWT_HEADER_PREFIX)" by code_simp
  ultimately have v: "h_to_str H token = Some token"
    "h_to_str H (''v1, '' @ JWT_HEADER_PREFIX @ token) = Some (''v1, '' @ JWT_HEADER_PREFIX @ token)"
    using assms(1) unfolding http_lib_ok_def by (metis append.assoc list_all_append)+
  show ?thesis
  proof (cases "ta_scheme (cc_remote_addr cfg) \<in> {Ws, Wss}")
    case True
    then show ?thesis
      using ws_request_Ok [of H J read_file key cfg u dest req] assms(3, 4, 6) v(2)
      by (auto simp: upgrade_request_def user_headers_def intro: extract_token_websocket)
  next
    case False
    then show ?thesis
      using http2_request_Ok [of H J read_file cfg u dest req] assms(3, 4, 5, 6) v(1)
      by (auto simp: upgrade_request_def user_headers_def intro: extract_token_cookie)
  qed
qed

lemma admit_of_request:
  assumes "http_lib_ok (sv_http E)" "token_lib_ok (sv_tokens E)"
    and "upgrade_request (sv_http E) (sv_tokens E) read_file key cfg u dest = Returns (Ok req)"
    and "map_of (user_headers (sv_http E) read_file cfg) ''sec-websocket-protocol'' = None"
    and "map_of (user_headers (sv_http E) read_file cfg) ''cookie'' = None"
    and "tunnel_to_jwt_token (sv_tokens E) u dest = Returns token" "token \<noteq> []"
    and "j_host_parse (sv_tokens E) (j_host_to_string (sv_tokens E) (ra_host dest)) = Some (ra_host dest)"
    and "rq_path req = ''/'' @ cc_path_prefix cfg @ ''/events''" "CHR ''/'' \<notin> set (cc_path_prefix cfg)"
    and "resolve_remote E scfg dest (extract_authorization (sv_http E) req) = Returns (Ok (remote, rate))"
  shows "admit E scfg rules common_name req =
    (if common_name \<notin> {None, Some (cc_path_prefix cfg)} then Returns (Err bad_request)
     else (case validate_tunnel (sv_match E) remote (cc_path_prefix cfg) (extract_authorization (sv_http E) req) rules of
             None \<Rightarrow> Returns (Err bad_request)
           | Some r \<Rightarrow> Returns (Ok (remote, r, rate))))"
proof -
  have "extract_token (sv_http E) req = token" by (rule upgrade_request_token [OF assms(1-7)])
  then obtain jwt where jwt: "extract_tunnel_info (sv_http E) (sv_tokens E) req = Some jwt"
    "remote_addr_try_from (sv_tokens E) jwt = Some dest"
    using token_roundtrip [OF assms(2, 6, 7, 8)] by (auto simp: extract_tunnel_info_def)
  have p: "extract_path_prefix (rq_path req) = Ok (cc_path_prefix cfg)"
    unfolding extract_path_prefix_Ok using assms(9, 10) by (intro exI [of _ "''events''"]) simp
  show ?thesis
    by (cases common_name) (auto simp: admit_def p jwt assms(11) split: option.split)
qed

text \<open>
  C3. Client and server agree on what is asked: over websocket and HTTP/2, the server decides on the
  upgrade request of a client exactly by its rules for the destination of the client's tunnel, the
  client's path prefix and the authorization header, and by the common name of the client's certificate
  if there is one; and what it admits is that very destination.  This holds as long as the user does
  not replace the headers that carry the token.
\<close>

theorem client_request_decided:
  assumes "http_lib_ok (sv_http E)" "token_lib_ok (sv_tokens E)"
    and "upgrade_request (sv_http E) (sv_tokens E) read_file key cfg u dest = Returns (Ok req)"
    and "map_of (user_headers (sv_http E) read_file cfg) ''sec-websocket-protocol'' = None"
    and "map_of (user_headers (sv_http E) read_file cfg) ''cookie'' = None"
    and "tunnel_to_jwt_token (sv_tokens E) u dest = Returns token" "token \<noteq> []"
    and "j_host_parse (sv_tokens E) (j_host_to_string (sv_tokens E) (ra_host dest)) = Some (ra_host dest)"
    and "rq_path req = ''/'' @ cc_path_prefix cfg @ ''/events''" "CHR ''/'' \<notin> set (cc_path_prefix cfg)"
    and "\<forall>b t. ra_protocol dest \<noteq> TunnelStdio b t"
  shows "admit E scfg rules common_name req =
    (if common_name \<notin> {None, Some (cc_path_prefix cfg)} then Returns (Err bad_request)
     else (case validate_tunnel (sv_match E) dest (cc_path_prefix cfg) (extract_authorization (sv_http E) req) rules of
             None \<Rightarrow> Returns (Err bad_request)
           | Some r \<Rightarrow> Returns (Ok (dest, r, None))))"
proof (rule admit_of_request [OF assms(1-10)])
  show "resolve_remote E scfg dest (extract_authorization (sv_http E) req) = Returns (Ok (dest, None))"
    using assms(11) by (cases "ra_protocol dest") (auto simp: resolve_remote_def)
qed


text \<open>
  C23. A dynamic reverse tunnel ends where the server's listener was asked to go: the destination the
  server puts into the cookie of its answer is the one the client reads from it, and the SOCKS5
  connector of the client reaches that destination, for an IP address that very address and port.
\<close>

theorem dynamic_reverse_destination:
  assumes "http_lib_ok H" "token_lib_ok J" "inject_cookie H J resp remote = Returns (Ok resp')"
    and "tunnel_to_jwt_token J 0 remote = Returns token" "token \<noteq> []"
    and "j_host_parse J (j_host_to_string J (ra_host remote)) = Some (ra_host remote)"
  shows "cookie_remote H J resp' = Some remote \<and>
    (socks5_connector_connect N D c (cookie_remote H J resp') = Ok cn \<longrightarrow> host_ip (ra_host remote) = Some ip \<longrightarrow>
       conn_peer cn = socket_addr_new ip (ra_port remote))"
proof -
  obtain jwt where jwt: "jwt_token_to_tunnel J token = Some jwt" "remote_addr_try_from J jwt = Some remote"
    using token_roundtrip [OF assms(2, 4, 5, 6)] by blast
  have "h_value_ok H token" "rs_headers resp' = hm_insert (rs_headers resp) ''cookie'' token"
    using assms(3, 4) by (auto simp: inject_cookie_def split: if_split_asm)
  moreover have "h_to_str H token = Some token"
    using assms(1) token_visible [OF assms(2, 4, 5)] by (simp add: http_lib_ok_def)
  ultimately have "cookie_remote H J resp' = Some remote"
    using jwt by (auto simp: cookie_remote_def hm_get_insert remote_addr_try_from_def split: option.split_asm)
  then show ?thesis
    using socks5_connector.dial_ip [of N D c "Some remote" cn] by (simp add: socks5_dest_def)
qed

section \<open>A concrete tunnel\<close>

definition demo_upgrade_request :: request where
  "demo_upgrade_request =
     \<lparr>rq_method = ''GET'', rq_uri = ''/v1/events'', rq_path = ''/v1/events'', rq_version = Http11,
      rq_headers = [(''host'', ''example.com''), (''upgrade'', ''websocket''), (''connection'', ''upgrade''),
        (''sec-websocket-key'', ''key''), (''sec-websocket-version'', ''13''),
        (''sec-websocket-protocol'', ''v1, authorization.bearer.e30.e30.e30'')]\<rparr>"

lemma demo_upgrade_request_built:
  assumes "tunnel_to_jwt_token J 7 dest = Returns ''e30.e30.e30''"
  shows "upgrade_request demo_http J (\<lambda>_. None) ''key'' (wc_config demo_ws_client) 7 dest = Returns (Ok demo_upgrade_request)"
proof -
  have "list_all visible ''v1, authorization.bearer.e30.e30.e30''" "list_all visible ''example.com''" "list_all visible ''websocket''"
    "list_all visible ''upgrade''" "list_all visible ''key''" "list_all visible ''13''"
    by code_simp+
  then show ?thesis
    by (simp add: upgrade_request_def ws_request_def assms demo_ws_client_def build_request_def ws_uri_def demo_http_def
        starts_with_def JWT_HEADER_PREFIX_def override_headers_def file_headers_ws_def hm_override_def demo_upgrade_request_def)
qed

lemma demo_no_authorization: "extract_authorization demo_http demo_upgrade_request = None"
  by (simp add: extract_authorization_def demo_upgrade_request_def hm_get_def)

lemma demo_no_user_headers: "user_headers demo_http (\<lambda>_. None) (wc_config demo_ws_client) = []"
  by (simp add: user_headers_def demo_ws_client_def file_headers_ws_def)

theorem client_request_decided_witness:
  "admit (demo_server demo_jwt) demo_server_config demo_rules None demo_upgrade_request
     = Returns (Ok (demo_dest, hd demo_rules, None))"
proof -
  have "validate_tunnel demo_lib demo_dest ''v1'' None demo_rules = Some (hd demo_rules)"
    using demo_remote_granted by (simp add: demo_dest_def demo_remote_def)
  moreover have "admit (demo_server demo_jwt) demo_server_config demo_rules None demo_upgrade_request =
    (if None \<notin> {None, Some (cc_path_prefix (wc_config demo_ws_client))} then Returns (Err bad_request)
     else (case validate_tunnel (sv_match (demo_server demo_jwt)) demo_dest (cc_path_prefix (wc_config demo_ws_client))
                  (extract_authorization (sv_http (demo_server demo_jwt)) demo_upgrade_request) demo_rules of
             None \<Rightarrow> Returns (Err bad_request)
           | Some r \<Rightarrow> Returns (Ok (demo_dest, r, None))))"
    by (rule client_request_decided [where read_file = "\<lambda>_. None" and key = "''key''" and u = 7 and token = "''e30.e30.e30''"])
      (simp_all add: demo_http_ok demo_tokens_ok demo_upgrade_request_built demo_token demo_no_user_headers,
       simp_all add: demo_ws_client_def demo_upgrade_request_def demo_dest_def demo_tokens_def)
  ultimately show ?thesis by (simp add: demo_ws_client_def demo_no_authorization)
qed

definition demo_cookie_jwt :: jwt_tunnel_config where
  "demo_cookie_jwt = \<lparr>jwt_id = show_nat 0, jwt_p = Tcp False, jwt_r = ''google.com'', jwt_rp = 443\<rparr>"

definition demo_accepted :: response where
  "demo_accepted = \<lparr>rs_status = 101, rs_headers = [], rs_body = []\<rparr>"

theorem dynamic_reverse_destination_witness:
  "cookie_remote demo_http (demo_tokens demo_cookie_jwt)
     (demo_accepted\<lparr>rs_headers := hm_insert [] ''cookie'' ''e30.e30.e30''\<rparr>) = Some demo_dest"
proof -
  have t: "tunnel_to_jwt_token (demo_tokens demo_cookie_jwt) 0 demo_dest = Returns ''e30.e30.e30''"
    by (simp add: tunnel_to_jwt_token_def jwt_tunnel_config_new_def demo_dest_def demo_cookie_jwt_def demo_tokens_def)
  have "list_all visible ''e30.e30.e30''" by code_simp
  then have i: "inject_cookie demo_http (demo_tokens demo_cookie_jwt) demo_accepted demo_dest =
      Returns (Ok (demo_accepted\<lparr>rs_headers := hm_insert [] ''cookie'' ''e30.e30.e30''\<rparr>))"
    by (simp add: inject_cookie_def t demo_http_def demo_accepted_def)
  show ?thesis
    by (rule dynamic_reverse_destination [OF demo_http_ok demo_tokens_ok i t, THEN conjunct1])
      (simp_all add: demo_tokens_def demo_dest_def)
qed

definition demo_ssh :: "(unit, unit, unit, nat, string) ssh_lib" where
  "demo_ssh =
     \<lparr>sl_connect = (\<lambda>check _. if check 0 then Ok () else Err ''unknown key''), sl_load_secret_key = (\<lambda>_ _. Ok ()),
      sl_is_rsa = (\<lambda>_. False), sl_best_rsa_hash = (\<lambda>_. Ok None), sl_authenticate = (\<lambda>_ _ _ _. Ok True)\<rparr>"

definition demo_session :: "(unit, unit, unit) ssh_session" where
  "demo_session = \<lparr>sn_session = (), sn_client = demo_ws_client, sn_remote = ssh_remote (demo_tokens demo_id_jwt) 7\<rparr>"

lemma demo_ssh_connected:
  "connect_ssh demo_env (demo_tokens demo_id_jwt) demo_ssh demo_client_args 7 ''me'' ''id'' None = Returns (Ok demo_session)"
proof -
  have a: "demo_client_args\<lparr>ca_local_to_remote := [], ca_remote_to_local := []\<rparr> = demo_client_args\<lparr>ca_remote_to_local := [], ca_local_to_remote := []\<rparr>"
    by simp
  show ?thesis
    unfolding connect_ssh_def a demo_created by (simp add: try_then_def demo_ssh_def check_server_key_def demo_session_def)
qed

lemma demo_uuid_text: "j_uuid_to_string (demo_tokens cfg) 7 = ''7''"
proof -
  have "show_nat 7 = ''7''" by code_simp
  then show ?thesis by (simp add: demo_tokens_def)
qed

lemma demo_ssh_token:
  "tunnel_to_jwt_token (demo_tokens demo_id_jwt) 7 (sn_remote demo_session) = Returns ''e30.e30.e30''"
proof -
  have "show_nat 7 = ''7''" by code_simp
  then show ?thesis
    by (simp add: demo_session_def ssh_remote_def tunnel_to_jwt_token_def jwt_tunnel_config_new_def demo_id_jwt_def demo_tokens_def)
qed


end
